(* ===== verification/Prelude.thy ===== *)
theory Prelude
  imports Main "HOL-Library.Word" "HOL-Library.Sublist"
begin

unbundle bit_operations_syntax

text \<open>
  Shared vocabulary of the development: the collections the component proofs draw from, the
  machine types of the sources, and the generic facts about lists and words that more than
  one component needs. Nothing here is specific to one program.
\<close>

named_theorems buffer_simps
  \<open>lengths and contents of fixed-size C buffers\<close>

named_theorems monitor_simps
  \<open>how the trace monitors read single events\<close>

section \<open>Machine types\<close>

text \<open>
  A C buffer of \<^verbatim>\<open>char\<close> or \<^verbatim>\<open>unsigned char\<close> is a list of characters (bytes). Integers keep
  the width the sources give them where it can be observed.
\<close>

type_synonym byte = "8 word"
type_synonym u16 = "16 word"
type_synonym u32 = "32 word"
type_synonym u64 = "64 word"
type_synonym buffer = "char list"
type_synonym fd = int

abbreviation NUL :: char where
  "NUL \<equiv> CHR 0x00"

definition byte_of :: "char \<Rightarrow> byte" where
  "byte_of c = of_nat (of_char c)"

definition char_of_byte :: "byte \<Rightarrow> char" where
  "char_of_byte b = char_of (unat b)"

lemma char_of_byte_inverse [simp]: "char_of_byte (byte_of c) = c"
proof -
  have "(of_char c :: nat) < 256" by simp
  then show ?thesis
    by (simp add: char_of_byte_def byte_of_def unat_of_nat)
qed

lemma byte_of_char_inverse [simp]: "byte_of (char_of_byte b) = b"
proof -
  have "unat b < 256" using unsigned_less [of b] by simp
  then show ?thesis by (simp add: byte_of_def char_of_byte_def)
qed

text \<open>
  A read or receive of \<^verbatim>\<open>n\<close> bytes replaces the front of the buffer and leaves the rest as the
  previous contents.
\<close>

definition overwrite :: "buffer \<Rightarrow> buffer \<Rightarrow> buffer" where
  "overwrite old new = new @ drop (length new) old"

lemma length_overwrite [buffer_simps]:
  "length (overwrite old new) = max (length old) (length new)"
  by (simp add: overwrite_def)

lemma take_overwrite [buffer_simps]:
  "n \<le> length new \<Longrightarrow> take n (overwrite old new) = take n new"
  by (simp add: overwrite_def)

lemma overwrite_Nil [simp]: "overwrite old [] = old"
  by (simp add: overwrite_def)

lemma overwrite_full: "length old \<le> length new \<Longrightarrow> overwrite old new = new"
  by (simp add: overwrite_def)

end
