(* ===== verification/CLib.thy ===== *)
theory CLib
  imports Prelude
begin

text \<open>
  The functions of the C library the sources call on strings and memory: \<^verbatim>\<open>strchr\<close>,
  \<^verbatim>\<open>strrchr\<close>, \<^verbatim>\<open>strncmp\<close>, \<^verbatim>\<open>strcmp\<close>, \<^verbatim>\<open>memchr\<close>, \<^verbatim>\<open>strtok_r\<close>, \<^verbatim>\<open>basename\<close>, and the byte
  order of 16-bit fields (\<^verbatim>\<open>htons\<close>, \<^verbatim>\<open>ntohs\<close>). A C string is the list of its characters
  without the terminating null byte; a pointer into a string is an index or the suffix it
  points at.
\<close>

section \<open>Searching\<close>

definition cstr_of :: "buffer \<Rightarrow> string" where
  "cstr_of mem = takeWhile (\<lambda>c. c \<noteq> NUL) mem"

primrec strchr :: "string \<Rightarrow> char \<Rightarrow> nat option" where
  "strchr [] c = None"
| "strchr (x # xs) c = (if x = c then Some 0 else map_option Suc (strchr xs c))"

primrec strrchr :: "string \<Rightarrow> char \<Rightarrow> nat option" where
  "strrchr [] c = None"
| "strrchr (x # xs) c =
     (case strrchr xs c of Some i \<Rightarrow> Some (Suc i) | None \<Rightarrow> if x = c then Some 0 else None)"

definition memchr :: "buffer \<Rightarrow> char \<Rightarrow> nat \<Rightarrow> nat option" where
  "memchr mem c n = strchr (take n mem) c"

text \<open>
  \<^verbatim>\<open>strncmp(p, lit, strlen(lit)) == 0\<close> for a literal: the bytes at \<open>p\<close> start with the literal.
\<close>

definition starts_with :: "buffer \<Rightarrow> string \<Rightarrow> bool" where
  "starts_with mem lit \<longleftrightarrow> take (length lit) mem = lit"

text \<open>
  \<^verbatim>\<open>strcmp(lit, p) == 0\<close> where \<open>p\<close> points into a memory region that need not hold a null
  byte: the comparison stops at the first difference, and \<open>None\<close> is a read past the region.
\<close>

fun strcmp_mem :: "string \<Rightarrow> buffer \<Rightarrow> bool option" where
  "strcmp_mem lit [] = None"
| "strcmp_mem [] (m # mem) = Some (m = NUL)"
| "strcmp_mem (l # lit) (m # mem) = (if l = m then strcmp_mem lit mem else Some False)"

lemma strchr_None_iff: "strchr s c = None \<longleftrightarrow> c \<notin> set s"
  by (induction s) auto

lemma strchr_SomeD:
  "strchr s c = Some i \<Longrightarrow> i < length s \<and> s ! i = c \<and> c \<notin> set (take i s)"
  by (induction s arbitrary: i) (auto split: if_splits)

lemma strchr_takeWhile:
  "strchr s c = Some i \<Longrightarrow> takeWhile (\<lambda>x. x \<noteq> c) s = take i s"
  by (induction s arbitrary: i) (auto split: if_splits)

lemma strrchr_None_iff: "strrchr s c = None \<longleftrightarrow> c \<notin> set s"
  by (induction s) (auto split: option.splits)

lemma strrchr_SomeD:
  "strrchr s c = Some i \<Longrightarrow> i < length s \<and> s ! i = c \<and> c \<notin> set (drop (Suc i) s)"
  by (induction s arbitrary: i) (auto split: option.splits if_splits simp: strrchr_None_iff)

lemma memchr_SomeD:
  "memchr mem c n = Some i \<Longrightarrow>
     i < n \<and> i < length mem \<and> mem ! i = c \<and> takeWhile (\<lambda>x. x \<noteq> c) mem = take i mem"
  unfolding memchr_def
  by (frule strchr_SomeD, drule strchr_takeWhile)
    (auto simp: min_def takeWhile_eq_take_P_nth split: if_splits
      dest: arg_cong [where f = length] intro!: takeWhile_eq_take_P_nth
      simp: in_set_conv_nth)

lemma strcmp_mem_inside:
  "length lit < length mem \<Longrightarrow> strcmp_mem lit mem \<noteq> None"
  by (induction lit mem rule: strcmp_mem.induct) auto

lemma strcmp_mem_True:
  "strcmp_mem lit mem = Some True \<Longrightarrow> NUL \<notin> set lit \<Longrightarrow> cstr_of mem = lit"
  by (induction lit mem rule: strcmp_mem.induct) (auto simp: cstr_of_def split: if_splits)

lemma starts_with_Cons [simp]:
  "starts_with mem (l # lit) \<longleftrightarrow> (case mem of [] \<Rightarrow> False | m # ms \<Rightarrow> m = l \<and> starts_with ms lit)"
  by (auto simp: starts_with_def split: list.splits)

lemma starts_with_Nil [simp]: "starts_with mem []"
  by (simp add: starts_with_def)

section \<open>Tokens\<close>

text \<open>
  One call of \<^verbatim>\<open>strtok_r\<close> with a one-character delimiter: it skips leading delimiters, returns
  the token up to the next one, and leaves the position after that delimiter.
\<close>

definition strtok_r :: "char \<Rightarrow> string \<Rightarrow> (string \<times> string) option" where
  "strtok_r d s =
     (let s' = dropWhile (\<lambda>c. c = d) s
      in if s' = [] then None
         else Some (takeWhile (\<lambda>c. c \<noteq> d) s', drop 1 (dropWhile (\<lambda>c. c \<noteq> d) s')))"

lemma strtok_r_shorter: "strtok_r d s = Some (tok, rest) \<Longrightarrow> length rest < length s"
proof -
  assume a: "strtok_r d s = Some (tok, rest)"
  let ?s = "dropWhile (\<lambda>c. c = d) s"
  from a have "?s \<noteq> []" and r: "rest = drop 1 (dropWhile (\<lambda>c. c \<noteq> d) ?s)"
    by (auto simp: strtok_r_def Let_def split: if_splits)
  then have "hd ?s \<noteq> d" using hd_dropWhile [of "\<lambda>c. c = d" s] by simp
  with \<open>?s \<noteq> []\<close> obtain x xs where x: "?s = x # xs" "x \<noteq> d" by (cases ?s) auto
  then have "length rest \<le> length xs"
    using r length_dropWhile_le [of "\<lambda>c. c \<noteq> d" xs] by simp
  moreover have "length ?s \<le> length s" by (rule length_dropWhile_le)
  ultimately show ?thesis using x by simp
qed

text \<open>The tokens a loop over \<^verbatim>\<open>strtok_r\<close> visits.\<close>

function tokens :: "char \<Rightarrow> string \<Rightarrow> string list" where
  "tokens d s = (case strtok_r d s of None \<Rightarrow> [] | Some (tok, rest) \<Rightarrow> tok # tokens d rest)"
  by pat_completeness auto
termination
  by (relation "measure (\<lambda>(d, s). length s)") (auto dest: strtok_r_shorter)

declare tokens.simps [simp del]

text \<open>The reference: the fields between delimiters, the empty ones dropped.\<close>

fun split_on :: "char \<Rightarrow> string \<Rightarrow> string list" where
  "split_on d [] = [[]]"
| "split_on d (c # s) =
     (if c = d then [] # split_on d s
      else (case split_on d s of [] \<Rightarrow> [[c]] | w # ws \<Rightarrow> (c # w) # ws))"

lemma split_on_nonempty [simp]: "split_on d s \<noteq> []"
  by (cases s) (auto split: list.splits)

lemma tokens_Nil [simp]: "tokens d [] = []"
  by (subst tokens.simps) (simp add: strtok_r_def)

lemma tokens_delim [simp]: "tokens d (d # s) = tokens d s"
proof -
  have "strtok_r d (d # s) = strtok_r d s"
    by (simp add: strtok_r_def)
  then show ?thesis by (metis tokens.simps)
qed

lemma split_on_span:
  "split_on d s =
     takeWhile (\<lambda>c. c \<noteq> d) s #
     (case dropWhile (\<lambda>c. c \<noteq> d) s of [] \<Rightarrow> [] | _ # rest \<Rightarrow> split_on d rest)"
  by (induction s) (auto split: list.splits)

lemma tokens_Cons:
  "c \<noteq> d \<Longrightarrow> tokens d (c # s) =
     (c # takeWhile (\<lambda>c. c \<noteq> d) s) # tokens d (drop 1 (dropWhile (\<lambda>c. c \<noteq> d) s))"
  by (subst tokens.simps) (simp add: strtok_r_def)

lemma tokens_eq_split: "tokens d s = filter (\<lambda>w. w \<noteq> []) (split_on d s)"
proof (induction s rule: length_induct)
  case (1 s)
  show ?case
  proof (cases s)
    case Nil
    then show ?thesis by simp
  next
    case (Cons c s')
    show ?thesis
    proof (cases "c = d")
      case True
      with Cons 1 show ?thesis by simp
    next
      case False
      let ?r = "dropWhile (\<lambda>c. c \<noteq> d) s'"
      have "tokens d (drop 1 ?r) = filter (\<lambda>w. w \<noteq> []) (split_on d (drop 1 ?r))"
        using 1 Cons length_dropWhile_le [of "\<lambda>c. c \<noteq> d" s'] by (auto simp: less_Suc_eq_le)
      then show ?thesis
        using Cons False
        by (subst split_on_span)
          (cases ?r; simp add: tokens_Cons del: dropWhile_eq_Nil_conv)
    qed
  qed
qed

lemma split_on_props: "w \<in> set (split_on d s) \<Longrightarrow> d \<notin> set w \<and> set w \<subseteq> set s"
  by (induction s arbitrary: w) (fastforce split: if_splits list.splits)+

lemma tokens_props: "w \<in> set (tokens d s) \<Longrightarrow> w \<noteq> [] \<and> d \<notin> set w \<and> set w \<subseteq> set s"
  using split_on_props [of w d s] by (simp add: tokens_eq_split)

section \<open>Paths\<close>

definition PATH_MAX :: nat where "PATH_MAX = 4096"
definition NAME_MAX :: nat where "NAME_MAX = 255"

text \<open>\<^verbatim>\<open>snprintf(path, sizeof(path), "%s/%s", directory, name)\<close> before truncation.\<close>

definition join_path :: "string \<Rightarrow> string \<Rightarrow> string" where
  "join_path directory name = directory @ ''/'' @ name"

lemma length_join_path [simp]: "length (join_path d n) = length d + 1 + length n"
  by (simp add: join_path_def)

text \<open>\<^verbatim>\<open>basename(3)\<close> of libgen: trailing slashes are dropped first.\<close>

definition basename :: "string \<Rightarrow> string" where
  "basename s =
     (let s' = rev (dropWhile (\<lambda>c. c = CHR ''/'') (rev s))
      in if s = [] then ''.'' else if s' = [] then ''/''
         else rev (takeWhile (\<lambda>c. c \<noteq> CHR ''/'') (rev s')))"

lemma basename_join_path:
  assumes "n \<noteq> []" and "CHR ''/'' \<notin> set n"
  shows "basename (join_path d n) = n"
proof -
  from assms have "hd (rev n) \<noteq> CHR ''/''" by (metis hd_in_set rev_is_Nil_conv set_rev)
  then have "dropWhile (\<lambda>c. c = CHR ''/'') (rev n @ ''/'' @ rev d) = rev n @ ''/'' @ rev d"
    using assms by (cases "rev n") auto
  moreover have "takeWhile (\<lambda>c. c \<noteq> CHR ''/'') (rev n @ ''/'' @ rev d) = rev n"
    using assms(2) by (subst takeWhile_append2) auto
  ultimately show ?thesis by (simp add: basename_def join_path_def)
qed

section \<open>Byte order\<close>

text \<open>
  The programs run on a little-endian host: a 16-bit field in memory holds its low byte
  first, and \<^verbatim>\<open>htons\<close> and \<^verbatim>\<open>ntohs\<close> swap the two bytes.
\<close>

definition low_byte :: "u16 \<Rightarrow> byte" where
  "low_byte v = ucast v"

definition high_byte :: "u16 \<Rightarrow> byte" where
  "high_byte v = ucast (drop_bit 8 v)"

definition u16_of :: "byte \<Rightarrow> byte \<Rightarrow> u16" where
  "u16_of hi lo = push_bit 8 (ucast hi) OR ucast lo"

definition htons :: "u16 \<Rightarrow> u16" where
  "htons v = u16_of (low_byte v) (high_byte v)"

definition ntohs :: "u16 \<Rightarrow> u16" where
  "ntohs v = u16_of (low_byte v) (high_byte v)"

definition store16 :: "u16 \<Rightarrow> buffer" where
  "store16 v = [char_of_byte (low_byte v), char_of_byte (high_byte v)]"

definition load16 :: "buffer \<Rightarrow> u16" where
  "load16 mem = u16_of (byte_of (mem ! 1)) (byte_of (mem ! 0))"

lemma low_byte_u16_of [simp]: "low_byte (u16_of hi lo) = lo"
  by (rule bit_word_eqI)
    (auto simp: low_byte_def u16_of_def bit_simps)

lemma high_byte_u16_of [simp]: "high_byte (u16_of hi lo) = hi"
  by (rule bit_word_eqI)
    (auto simp: high_byte_def u16_of_def bit_simps dest: bit_imp_le_length)

lemma u16_of_bytes [simp]: "u16_of (high_byte v) (low_byte v) = v"
  by (rule bit_word_eqI)
    (auto simp: high_byte_def low_byte_def u16_of_def bit_simps not_less)

lemma htons_ntohs [simp]: "ntohs (htons v) = v" "htons (ntohs v) = v"
  by (simp_all add: htons_def ntohs_def)

lemma htons_inject [simp]: "htons v = htons w \<longleftrightarrow> v = w"
  by (metis htons_ntohs(1))

lemma length_store16 [simp, buffer_simps]: "length (store16 v) = 2"
  by (simp add: store16_def)

lemma load16_store16 [simp]: "load16 (store16 v @ rest) = v"
  by (simp add: load16_def store16_def)

lemma store16_htons: "store16 (htons v) = [char_of_byte (high_byte v), char_of_byte (low_byte v)]"
  by (simp add: store16_def htons_def)

lemma store16_load16: "2 \<le> length mem \<Longrightarrow> store16 (load16 mem) = take 2 mem"
  by (cases mem; cases "tl mem") (auto simp: store16_def load16_def)

end
