(* ===== verification/Sys.thy ===== *)
theory Sys
  imports CLib
begin

text \<open>
  The boundary between the programs and everything that is not their own code: the kernel and
  those parts of the C library that keep state of their own. A program is a tree of calls
  (\<open>Sys call continuation\<close>): it issues a call and continues with whatever the environment
  replies. Nothing is assumed about the replies, so a statement about all executions holds for
  every kernel; where a program relies on documented behaviour (a read returns the next bytes
  of the file), that behaviour is a predicate on the trace, named in the statement.
\<close>

section \<open>Values exchanged with the kernel\<close>

datatype errno =
  EPERM | ENOENT | ENXIO | ECHILD | EAGAIN | EACCES | EEXIST | EINVAL | ENOSPC | EROFS
  | EADDRINUSE | EOTHER

datatype signal =
  SIGKILL | SIGUSR1 | SIGUSR2 | SIGTERM | SIGCHLD | SIGRTMIN | SIGOTHER nat

datatype dirent_type = DT_REG | DT_DIR | DT_OTHER

text \<open>
  A socket address; ports are the raw 16-bit field of the structure, in network byte order.
\<close>

datatype sockaddr =
    Sin u16 u32
  | Sin6 u16
  | Sun string
  | Snl int u32
  | Sother

record addrinfo =
  ai_family :: int
  ai_socktype :: int
  ai_protocol :: int
  ai_addr :: sockaddr
  ai_addrlen :: nat

record passwd =
  pw_name :: string
  pw_dir :: string
  pw_shell :: string
  pw_uid :: int
  pw_gid :: int

datatype ioctl_request =
    LOOP_GET_STATUS | LOOP_SET_FD fd | LOOP_SET_STATUS string | LOOP_CLR_FD | TIOCSCTTY

datatype fcntl_command =
    F_GETFL | F_SETFL u32 | F_SETSIG signal | F_SETOWN int

section \<open>Calls\<close>

datatype file_call =
    Open string u32 nat
  | Close fd
  | Read fd nat
  | Write fd buffer nat
  | Lseek fd int
  | Unlink string
  | Stat string
  | Mmap fd nat
  | Munmap nat
  | Ioctl fd ioctl_request
  | Fcntl fd fcntl_command
  | Dup fd
  | Dup2 fd fd
  | Sendfile fd fd nat
  | Opendir string
  | Readdir int
  | Closedir int

datatype net_call =
    Socket int int int
  | Setsockopt fd string nat
  | Bind fd sockaddr
  | Sendto fd buffer sockaddr
  | Recvfrom fd nat
  | Getaddrinfo string
  | Freeaddrinfo
  | Inet_ntop sockaddr nat

datatype process_call =
    Fork
  | Clone u32
  | Exec string "string list"
  | Waitpid int bool
  | Setsid
  | Unshare u32
  | Chdir string
  | Chroot string
  | Setuid int
  | Seteuid int
  | Setgid int
  | Setegid int
  | Geteuid
  | Getpid
  | Umask nat
  | Prctl_subreaper
  | Setenv string string

datatype signal_call =
    Sigemptyset
  | Sigaddset signal
  | Sigprocmask "signal list"
  | Sigaction signal u32
  | Sigwait "signal list"
  | Sigwaitinfo "signal list"
  | Kill int signal
  | Sleep nat

datatype system_call =
    Mount string string "string option" u32 "string option"
  | Umount string
  | Umount2 string u32
  | Reboot u32
  | Sync
  | Init_module buffer
  | Klogctl int nat
  | Uname

datatype library_call =
    Openlog string
  | Syslog int string
  | Closelog
  | Getpwnam string
  | Getgrnam string
  | Malloc nat
  | Strdup string
  | Realloc int nat
  | Free int
  | Srand
  | Rand
  | Fopen string
  | Fgets int nat
  | Fclose int
  | Print string

datatype syscall =
    File file_call
  | Net net_call
  | Proc process_call
  | Signal signal_call
  | Kern system_call
  | Lib library_call

text \<open>
  What a call hands back: its return value, \<^verbatim>\<open>errno\<close>, and the out-parameters. A call that
  returns a pointer returns its address as \<open>ret\<close>, with 0 for \<^verbatim>\<open>NULL\<close>; \<open>out\<close> holds the bytes a
  read or receive put into the caller's buffer; \<open>dirent\<close> is the entry \<^verbatim>\<open>readdir_r\<close> found, with
  \<open>None\<close> for the end of the directory.
\<close>

record reply =
  ret :: int
  errno :: errno
  out :: buffer
  sender :: sockaddr
  sender_len :: nat
  signo :: signal
  si_pid :: int
  st_size :: nat
  dirent :: "(dirent_type \<times> string) option"
  info :: addrinfo
  account :: passwd
  gr_gid :: int
  wait_status :: int

type_synonym event = "syscall \<times> reply"

definition reply0 :: reply where
  "reply0 = \<lparr>ret = 0, errno = EOTHER, out = [], sender = Sother, sender_len = 0,
     signo = SIGOTHER 0, si_pid = 0, st_size = 0, dirent = None,
     info = \<lparr>ai_family = 0, ai_socktype = 0, ai_protocol = 0, ai_addr = Sother, ai_addrlen = 0\<rparr>,
     account = \<lparr>pw_name = [], pw_dir = [], pw_shell = [], pw_uid = 0, pw_gid = 0\<rparr>,
     gr_gid = 0, wait_status = 0\<rparr>"

lemma reply0_simps [simp]:
  "ret reply0 = 0" "errno reply0 = EOTHER" "out reply0 = []" "sender reply0 = Sother"
  "sender_len reply0 = 0" "signo reply0 = SIGOTHER 0" "si_pid reply0 = 0" "st_size reply0 = 0"
  "dirent reply0 = None" "gr_gid reply0 = 0" "wait_status reply0 = 0"
  by (simp_all add: reply0_def)

abbreviation returns :: "int \<Rightarrow> reply" where
  "returns n \<equiv> reply0\<lparr>ret := n\<rparr>"

abbreviation fails :: "errno \<Rightarrow> reply" where
  "fails e \<equiv> reply0\<lparr>ret := -1, errno := e\<rparr>"

abbreviation delivers :: "buffer \<Rightarrow> reply" where
  "delivers bs \<equiv> reply0\<lparr>ret := int (length bs), out := bs\<rparr>"

section \<open>Programs\<close>

text \<open>
  How a process can stop other than by returning from the function at hand: \<^verbatim>\<open>exit\<close>, a
  successful \<^verbatim>\<open>exec\<close>, a failed \<^verbatim>\<open>assert\<close>, undefined behaviour (a write or read outside an
  object), and, for loops without a bound of their own, still running when the given number of
  iterations is used up.
\<close>

datatype stop = Exited int | Replaced | Aborted | Undefined | Running

datatype 'a prog =
    Ret 'a
  | Halt stop
  | Sys syscall "reply \<Rightarrow> 'a prog"

datatype 'a outcome = Returned 'a | Halted stop

primrec bind :: "'a prog \<Rightarrow> ('a \<Rightarrow> 'b prog) \<Rightarrow> 'b prog" where
  "bind (Ret a) k = k a"
| "bind (Halt h) k = Halt h"
| "bind (Sys c f) k = Sys c (\<lambda>r. bind (f r) k)"

definition c_assert :: "bool \<Rightarrow> 'a prog \<Rightarrow> 'a prog" where
  "c_assert b p = (if b then p else Halt Aborted)"

text \<open>
  \<^verbatim>\<open>exec\<close> does not come back when it succeeds; \<open>k\<close> is what follows a failure.
\<close>

definition exec_or :: "string \<Rightarrow> string list \<Rightarrow> 'a prog \<Rightarrow> 'a prog" where
  "exec_or file argv k =
     Sys (Proc (Exec file argv)) (\<lambda>r. if ret r = -1 then k else Halt Replaced)"

text \<open>
  A \<^verbatim>\<open>do ... while\<close> or \<^verbatim>\<open>while (1)\<close> loop: \<open>Inl\<close> goes round again with the next loop state,
  \<open>Inr\<close> leaves the loop.
\<close>

primrec loop :: "nat \<Rightarrow> ('s \<Rightarrow> ('s + 'a) prog) \<Rightarrow> 's \<Rightarrow> 'a prog" where
  "loop 0 body s = Halt Running"
| "loop (Suc n) body s =
     bind (body s) (\<lambda>x. case x of Inl s' \<Rightarrow> loop n body s' | Inr a \<Rightarrow> Ret a)"

lemma bind_assoc: "bind (bind m f) g = bind m (\<lambda>a. bind (f a) g)"
  by (induction m) (auto simp: fun_eq_iff)

lemma bind_Ret [simp]: "bind m Ret = m"
  by (induction m) (auto simp: fun_eq_iff)

section \<open>Executions\<close>

text \<open>
  \<open>execs p t z\<close>: with suitable replies the program performs the calls of \<open>t\<close>, in that order,
  and ends as \<open>z\<close>.
\<close>

inductive execs :: "'a prog \<Rightarrow> event list \<Rightarrow> 'a outcome \<Rightarrow> bool" where
  ret: "execs (Ret a) [] (Returned a)"
| halt: "execs (Halt h) [] (Halted h)"
| sys: "execs (f r) t z \<Longrightarrow> execs (Sys c f) ((c, r) # t) z"

inductive_simps execs_Ret [simp]: "execs (Ret a) t z"
inductive_simps execs_Halt [simp]: "execs (Halt h) t z"
inductive_simps execs_Sys: "execs (Sys c f) t z"
inductive_simps execs_Sys_Cons: "execs (Sys c f) (e # t) z"
inductive_simps execs_Sys_Nil [simp]: "execs (Sys c f) [] z"

lemma execs_bindI:
  "execs m t1 (Returned a) \<Longrightarrow> execs (k a) t2 z \<Longrightarrow> execs (bind m k) (t1 @ t2) z"
  by (induction m t1 "Returned a" rule: execs.induct) (auto intro: execs.intros)

lemma execs_bind_haltI: "execs m t (Halted h) \<Longrightarrow> execs (bind m k) t (Halted h)"
  by (induction m t "Halted h :: 'a outcome" rule: execs.induct) (auto intro: execs.intros)

lemma execs_bindE:
  assumes "execs (bind m k) t z"
  obtains (returned) t1 t2 a where "t = t1 @ t2" "execs m t1 (Returned a)" "execs (k a) t2 z"
  | (halted) h where "execs m t (Halted h)" "z = Halted h"
  using assms
proof (induction m arbitrary: t thesis)
  case (Ret a)
  then show ?case by (metis append_Nil bind.simps(1) execs.ret)
next
  case (Halt h)
  then show ?case by auto
next
  case (Sys c f)
  from Sys.prems(3) obtain r t' where t: "t = (c, r) # t'" "execs (bind (f r) k) t' z"
    by (auto simp: execs_Sys)
  show ?case
  proof (rule Sys.IH [of "f r" t'])
    fix t1 t2 a
    assume "t' = t1 @ t2" "execs (f r) t1 (Returned a)" "execs (k a) t2 z"
    then show thesis
      using Sys.prems(1) [of "(c, r) # t1" t2 a] t by (auto intro: execs.sys)
  next
    fix h
    assume "execs (f r) t' (Halted h)" "z = Halted h"
    then show thesis using Sys.prems(2) t by (auto intro: execs.sys)
  qed (use t in auto)
qed

lemma execs_bind_ReturnedE:
  assumes "execs (bind m k) t (Returned z)"
  obtains t1 t2 a where "t = t1 @ t2" "execs m t1 (Returned a)" "execs (k a) t2 (Returned z)"
  using assms by (auto elim: execs_bindE)

text \<open>
  The replies determine the execution: two executions whose replies agree perform the same
  calls and end the same way.
\<close>

lemma execs_deterministic:
  "execs p t z \<Longrightarrow> execs p t' z' \<Longrightarrow> map snd t = map snd t' \<Longrightarrow> t = t' \<and> z = z'"
proof (induction arbitrary: t' z' rule: execs.induct)
  case (sys f r t z c)
  from sys.prems obtain r' u where "t' = (c, r') # u" "execs (f r') u z'"
    by (auto simp: execs_Sys)
  with sys.IH [of u z'] sys.prems(2) show ?case by auto
qed auto

text \<open>Running a program on a list of replies; it is left running when they are used up.\<close>

fun run :: "'a prog \<Rightarrow> reply list \<Rightarrow> event list \<times> 'a outcome" where
  "run (Ret a) rs = ([], Returned a)"
| "run (Halt h) rs = ([], Halted h)"
| "run (Sys c f) [] = ([], Halted Running)"
| "run (Sys c f) (r # rs) = (case run (f r) rs of (t, z) \<Rightarrow> ((c, r) # t, z))"

lemma run_execs: "run p rs = (t, z) \<Longrightarrow> z \<noteq> Halted Running \<Longrightarrow> execs p t z"
  by (induction p rs arbitrary: t rule: run.induct) (auto intro: execs.intros split: prod.splits)

lemma run_trace: "snd (run p rs) = z \<Longrightarrow> z \<noteq> Halted Running \<Longrightarrow> execs p (fst (run p rs)) z"
  by (rule run_execs) (simp_all add: prod_eq_iff)

text \<open>\<open>plays p rs\<close>: the replies are enough to bring \<open>p\<close> to its end.\<close>

fun plays :: "'a prog \<Rightarrow> reply list \<Rightarrow> bool" where
  "plays (Ret a) rs = True"
| "plays (Halt h) rs = True"
| "plays (Sys c f) [] = False"
| "plays (Sys c f) (r # rs) = plays (f r) rs"

lemma run_plays: "plays p rs \<Longrightarrow> execs p (fst (run p rs)) (snd (run p rs))"
  by (induction p rs rule: plays.induct) (auto intro: execs.intros split: prod.splits)

lemma execs_run: "execs p t z \<Longrightarrow> run p (map snd t) = (t, z)"
  by (induction rule: execs.induct) auto

section \<open>Verification conditions\<close>

text \<open>
  \<open>wp p Q t\<close>: whatever the environment replies, an execution of \<open>p\<close> that starts after the
  trace \<open>t\<close> ends in a trace and an outcome that satisfy \<open>Q\<close>.
\<close>

primrec wp :: "'a prog \<Rightarrow> (event list \<Rightarrow> 'a outcome \<Rightarrow> bool) \<Rightarrow> event list \<Rightarrow> bool" where
  "wp (Ret a) Q t = Q t (Returned a)"
| "wp (Halt h) Q t = Q t (Halted h)"
| "wp (Sys c f) Q t = (\<forall>r. wp (f r) Q (t @ [(c, r)]))"

lemma wpD: "execs p t z \<Longrightarrow> wp p Q t0 \<Longrightarrow> Q (t0 @ t) z"
proof (induction arbitrary: t0 rule: execs.induct)
  case (sys f r t z c)
  then have "wp (f r) Q (t0 @ [(c, r)])" by simp
  from sys.IH [OF this] show ?case by simp
qed auto

lemma wpI: "(\<And>t z. execs p t z \<Longrightarrow> Q (t0 @ t) z) \<Longrightarrow> wp p Q t0"
proof (induction p arbitrary: t0)
  case (Ret a)
  from Ret [OF execs.ret] show ?case by simp
next
  case (Halt h)
  from Halt [OF execs.halt] show ?case by simp
next
  case (Sys c f)
  have "wp (f r) Q (t0 @ [(c, r)])" for r
    using Sys.prems by (intro Sys.IH) (auto dest: execs.sys)
  then show ?case by simp
qed

lemma wp_iff: "wp p Q t0 \<longleftrightarrow> (\<forall>t z. execs p t z \<longrightarrow> Q (t0 @ t) z)"
  by (meson wpI wpD)

lemma execs_wp: "execs p t z \<Longrightarrow> wp p Q [] \<Longrightarrow> Q t z"
  using wpD [of p t z Q "[]"] by simp

lemma wp_mono: "wp p Q t \<Longrightarrow> (\<And>t z. Q t z \<Longrightarrow> Q' t z) \<Longrightarrow> wp p Q' t"
  by (auto simp: wp_iff)

lemma wp_conj: "wp p (\<lambda>t z. Q t z \<and> Q' t z) t \<longleftrightarrow> wp p Q t \<and> wp p Q' t"
  by (auto simp: wp_iff)

lemma wp_bind:
  "wp (bind m k) Q t =
     wp m (\<lambda>t' z. case z of Returned a \<Rightarrow> wp (k a) Q t' | Halted h \<Rightarrow> Q t' (Halted h)) t"
  by (induction m arbitrary: t) auto

lemma wp_bindI:
  "wp m R t \<Longrightarrow> (\<And>t a. R t (Returned a) \<Longrightarrow> wp (k a) Q t) \<Longrightarrow>
     (\<And>t h. R t (Halted h) \<Longrightarrow> Q t (Halted h)) \<Longrightarrow> wp (bind m k) Q t"
  unfolding wp_bind by (erule wp_mono) (auto split: outcome.splits)

text \<open>
  One rule per construct: \<open>intro wp_intros\<close> walks through a program and leaves one goal per
  path, with the conditions taken on the way as its assumptions.
\<close>

lemma wp_RetI: "Q t (Returned a) \<Longrightarrow> wp (Ret a) Q t"
  by simp

lemma wp_HaltI: "Q t (Halted h) \<Longrightarrow> wp (Halt h) Q t"
  by simp

lemma wp_SysI: "(\<And>r. wp (f r) Q (t @ [(c, r)])) \<Longrightarrow> wp (Sys c f) Q t"
  by simp

lemma wp_ifI: "(b \<Longrightarrow> wp p Q t) \<Longrightarrow> (\<not> b \<Longrightarrow> wp q Q t) \<Longrightarrow> wp (if b then p else q) Q t"
  by simp

lemma wp_letI: "(\<And>v. v = x \<Longrightarrow> wp (f v) Q t) \<Longrightarrow> wp (let v = x in f v) Q t"
  by simp

lemma wp_assertI:
  "(b \<Longrightarrow> wp p Q t) \<Longrightarrow> (\<not> b \<Longrightarrow> Q t (Halted Aborted)) \<Longrightarrow> wp (c_assert b p) Q t"
  by (simp add: c_assert_def)

lemma wp_exec_orI:
  "(\<And>r. ret r = -1 \<Longrightarrow> wp k Q (t @ [(Proc (Exec file argv), r)])) \<Longrightarrow>
   (\<And>r. ret r \<noteq> -1 \<Longrightarrow> Q (t @ [(Proc (Exec file argv), r)]) (Halted Replaced)) \<Longrightarrow>
   wp (exec_or file argv k) Q t"
  by (simp add: exec_or_def)

lemma wp_bind_unfoldI:
  "wp m (\<lambda>t' z. case z of Returned a \<Rightarrow> wp (k a) Q t' | Halted h \<Rightarrow> Q t' (Halted h)) t \<Longrightarrow>
   wp (bind m k) Q t"
  by (simp add: wp_bind)

lemma wp_option:
  "(x = None \<Longrightarrow> wp p Q t) \<Longrightarrow> (\<And>y. x = Some y \<Longrightarrow> wp (f y) Q t) \<Longrightarrow>
   wp (case x of None \<Rightarrow> p | Some y \<Rightarrow> f y) Q t"
  by (cases x) auto

lemma wp_prod:
  "(\<And>a b. x = (a, b) \<Longrightarrow> wp (f a b) Q t) \<Longrightarrow> wp (case x of (a, b) \<Rightarrow> f a b) Q t"
  by (cases x) auto

lemma wp_sum:
  "(\<And>a. x = Inl a \<Longrightarrow> wp (f a) Q t) \<Longrightarrow> (\<And>b. x = Inr b \<Longrightarrow> wp (g b) Q t) \<Longrightarrow>
   wp (case x of Inl a \<Rightarrow> f a | Inr b \<Rightarrow> g b) Q t"
  by (cases x) auto

lemma wp_returnedI: "wp (k a) Q t \<Longrightarrow>
  (case Returned a of Returned a \<Rightarrow> wp (k a) Q t | Halted h \<Rightarrow> Q t (Halted h))"
  by simp

lemma wp_haltedI: "Q t (Halted h) \<Longrightarrow>
  (case Halted h of Returned a \<Rightarrow> wp (k a) Q t | Halted h \<Rightarrow> Q t (Halted h))"
  by simp

lemmas wp_intros =
  wp_RetI wp_HaltI wp_SysI wp_ifI wp_letI wp_assertI wp_exec_orI wp_bind_unfoldI
  wp_returnedI wp_haltedI wp_option wp_prod wp_sum

text \<open>The loop rule: an invariant that every round keeps, whatever number of rounds is granted.\<close>

lemma wp_loop:
  assumes "I t s"
    and "\<And>t s. I t s \<Longrightarrow>
      wp (body s) (\<lambda>t' z. case z of
          Returned (Inl s') \<Rightarrow> I t' s'
        | Returned (Inr a) \<Rightarrow> Q t' (Returned a)
        | Halted h \<Rightarrow> Q t' (Halted h)) t"
    and "\<And>t s. I t s \<Longrightarrow> Q t (Halted Running)"
  shows "wp (loop n body s) Q t"
  using assms(1)
proof (induction n arbitrary: s t)
  case 0
  then show ?case by (simp add: assms(3))
next
  case (Suc n)
  from assms(2) [OF Suc.prems] show ?case
    unfolding loop.simps
    by (rule wp_bindI) (auto split: sum.splits intro: Suc.IH)
qed

text \<open>
  The same with a bound on the rounds: under a condition \<open>C\<close> on the environment, a measure that
  every round decreases, so that with enough rounds granted the loop is left, never cut off.
\<close>

lemma wp_loop_measure:
  assumes "I t s" and "C t \<Longrightarrow> m t s < n"
    and "\<And>t s. I t s \<Longrightarrow>
      wp (body s) (\<lambda>t' z. case z of
          Returned (Inl s') \<Rightarrow> I t' s' \<and> (C t' \<longrightarrow> C t \<and> m t' s' < m t s)
        | Returned (Inr a) \<Rightarrow> Q t' (Returned a)
        | Halted h \<Rightarrow> Q t' (Halted h)) t"
    and "\<And>t s. I t s \<Longrightarrow> \<not> C t \<Longrightarrow> Q t (Halted Running)"
  shows "wp (loop n body s) Q t"
  using assms(1,2)
proof (induction n arbitrary: s t)
  case 0
  then show ?case using assms(4) by auto
next
  case (Suc n)
  from assms(3) [OF Suc.prems(1)] show ?case
    unfolding loop.simps
    by (rule wp_bindI) (use Suc in \<open>auto split: sum.splits intro!: Suc.IH\<close>)
qed

section \<open>Which calls a program can issue\<close>

text \<open>
  \<open>issues_when R P p\<close>: as long as every reply satisfies \<open>R\<close>, each call of \<open>p\<close> satisfies \<open>P\<close>.
  \<open>issues_only P p\<close> is the case where nothing is assumed of the replies.
\<close>

primrec issues_when :: "(syscall \<Rightarrow> reply \<Rightarrow> bool) \<Rightarrow> (syscall \<Rightarrow> bool) \<Rightarrow> 'a prog \<Rightarrow> bool" where
  "issues_when R P (Ret a) = True"
| "issues_when R P (Halt h) = True"
| "issues_when R P (Sys c f) = (P c \<and> (\<forall>r. R c r \<longrightarrow> issues_when R P (f r)))"

abbreviation issues_only :: "(syscall \<Rightarrow> bool) \<Rightarrow> 'a prog \<Rightarrow> bool" where
  "issues_only P \<equiv> issues_when (\<lambda>_ _. True) P"

lemma issues_when_bind:
  "issues_when R P m \<Longrightarrow> (\<And>a. issues_when R P (k a)) \<Longrightarrow> issues_when R P (bind m k)"
  by (induction m) auto

lemma issues_when_loop:
  "(\<And>s. issues_when R P (body s)) \<Longrightarrow> issues_when R P (loop n body s)"
  by (induction n arbitrary: s) (auto intro!: issues_when_bind split: sum.splits)

lemma issues_whenD:
  "execs p t z \<Longrightarrow> issues_when R P p \<Longrightarrow> \<forall>e \<in> set t. R (fst e) (snd e) \<Longrightarrow> e \<in> set t \<Longrightarrow> P (fst e)"
  by (induction rule: execs.induct) auto

lemma issues_onlyD: "execs p t z \<Longrightarrow> issues_only P p \<Longrightarrow> e \<in> set t \<Longrightarrow> P (fst e)"
  by (rule issues_whenD) auto

lemma issues_only_wp:
  "issues_only P p \<Longrightarrow> list_all (\<lambda>e. P (fst e)) t \<Longrightarrow> wp p (\<lambda>t z. list_all (\<lambda>e. P (fst e)) t) t"
  by (rule wpI) (simp add: list_all_iff ball_Un issues_onlyD)

lemma issues_only_mono: "issues_only P p \<Longrightarrow> (\<And>c. P c \<Longrightarrow> Q c) \<Longrightarrow> issues_only Q p"
  by (induction p) auto

lemma issues_when_if:
  "(b \<Longrightarrow> issues_when R P p) \<Longrightarrow> (\<not> b \<Longrightarrow> issues_when R P q) \<Longrightarrow> issues_when R P (if b then p else q)"
  by simp

lemma issues_only_Sys:
  "P c \<Longrightarrow> (\<And>r. issues_only P (f r)) \<Longrightarrow> issues_only P (Sys c f)"
  by simp

lemma issues_when_Sys:
  "P c \<Longrightarrow> (\<And>r. R c r \<Longrightarrow> issues_when R P (f r)) \<Longrightarrow> issues_when R P (Sys c f)"
  by simp

lemma issues_when_let: "(\<And>v. v = x \<Longrightarrow> issues_when R P (f v)) \<Longrightarrow> issues_when R P (let v = x in f v)"
  by simp

lemma issues_when_assert: "(b \<Longrightarrow> issues_when R P p) \<Longrightarrow> issues_when R P (c_assert b p)"
  by (simp add: c_assert_def)

lemma issues_when_exec_or:
  "P (Proc (Exec file argv)) \<Longrightarrow> issues_when R P k \<Longrightarrow> issues_when R P (exec_or file argv k)"
  by (simp add: exec_or_def)

lemma issues_when_leaf: "issues_when R P (Ret a)" "issues_when R P (Halt h)"
  by simp_all

lemma issues_when_option:
  "(x = None \<Longrightarrow> issues_when R P p) \<Longrightarrow> (\<And>y. x = Some y \<Longrightarrow> issues_when R P (f y)) \<Longrightarrow>
   issues_when R P (case x of None \<Rightarrow> p | Some y \<Rightarrow> f y)"
  by (cases x) auto

lemma issues_when_prod:
  "(\<And>a b. x = (a, b) \<Longrightarrow> issues_when R P (f a b)) \<Longrightarrow> issues_when R P (case x of (a, b) \<Rightarrow> f a b)"
  by (cases x) auto

lemma issues_when_sum:
  "(\<And>a. x = Inl a \<Longrightarrow> issues_when R P (f a)) \<Longrightarrow> (\<And>b. x = Inr b \<Longrightarrow> issues_when R P (g b)) \<Longrightarrow>
   issues_when R P (case x of Inl a \<Rightarrow> f a | Inr b \<Rightarrow> g b)"
  by (cases x) auto

lemmas issues_intros =
  issues_when_leaf issues_when_if issues_only_Sys issues_when_let issues_when_assert
  issues_when_exec_or issues_when_bind issues_when_loop
  issues_when_option issues_when_prod issues_when_sum

lemmas issues_when_intros =
  issues_when_leaf issues_when_if issues_when_Sys issues_when_let issues_when_assert
  issues_when_exec_or issues_when_bind issues_when_loop
  issues_when_option issues_when_prod issues_when_sum

section \<open>How a program can stop\<close>

text \<open>\<open>stops_only H p\<close>: whatever the replies, \<open>p\<close> returns or stops in a way \<open>H\<close> allows.\<close>

primrec stops_only :: "(stop \<Rightarrow> bool) \<Rightarrow> 'a prog \<Rightarrow> bool" where
  "stops_only H (Ret a) = True"
| "stops_only H (Halt h) = H h"
| "stops_only H (Sys c f) = (\<forall>r. stops_only H (f r))"

lemma stops_only_bind:
  "stops_only H m \<Longrightarrow> (\<And>a. stops_only H (k a)) \<Longrightarrow> stops_only H (bind m k)"
  by (induction m) auto

lemma stops_only_loop:
  "H Running \<Longrightarrow> (\<And>s. stops_only H (body s)) \<Longrightarrow> stops_only H (loop n body s)"
  by (induction n arbitrary: s) (auto intro!: stops_only_bind split: sum.splits)

lemma stops_only_if:
  "(b \<Longrightarrow> stops_only H p) \<Longrightarrow> (\<not> b \<Longrightarrow> stops_only H q) \<Longrightarrow> stops_only H (if b then p else q)"
  by simp

lemma stops_only_Sys: "(\<And>r. stops_only H (f r)) \<Longrightarrow> stops_only H (Sys c f)"
  by simp

lemma stops_only_let: "(\<And>v. v = x \<Longrightarrow> stops_only H (f v)) \<Longrightarrow> stops_only H (let v = x in f v)"
  by simp

lemma stops_only_assert: "H Aborted \<Longrightarrow> (b \<Longrightarrow> stops_only H p) \<Longrightarrow> stops_only H (c_assert b p)"
  by (simp add: c_assert_def)

lemma stops_only_exec_or: "H Replaced \<Longrightarrow> stops_only H k \<Longrightarrow> stops_only H (exec_or file argv k)"
  by (simp add: exec_or_def)

lemma stops_only_leaf: "stops_only H (Ret a)" "H h \<Longrightarrow> stops_only H (Halt h)"
  by simp_all

lemma stops_only_option:
  "(x = None \<Longrightarrow> stops_only H p) \<Longrightarrow> (\<And>y. x = Some y \<Longrightarrow> stops_only H (f y)) \<Longrightarrow>
   stops_only H (case x of None \<Rightarrow> p | Some y \<Rightarrow> f y)"
  by (cases x) auto

lemma stops_only_prod:
  "(\<And>a b. x = (a, b) \<Longrightarrow> stops_only H (f a b)) \<Longrightarrow> stops_only H (case x of (a, b) \<Rightarrow> f a b)"
  by (cases x) auto

lemma stops_only_sum:
  "(\<And>a. x = Inl a \<Longrightarrow> stops_only H (f a)) \<Longrightarrow> (\<And>b. x = Inr b \<Longrightarrow> stops_only H (g b)) \<Longrightarrow>
   stops_only H (case x of Inl a \<Rightarrow> f a | Inr b \<Rightarrow> g b)"
  by (cases x) auto

lemmas stops_intros =
  stops_only_leaf stops_only_if stops_only_Sys stops_only_let stops_only_assert
  stops_only_exec_or stops_only_bind stops_only_loop
  stops_only_option stops_only_prod stops_only_sum

lemma stops_onlyD: "execs p t z \<Longrightarrow> stops_only H p \<Longrightarrow> z = Halted h \<Longrightarrow> H h"
  by (induction rule: execs.induct) auto

lemma stops_only_wp: "stops_only H p \<Longrightarrow> wp p (\<lambda>t z. \<forall>h. z = Halted h \<longrightarrow> H h) t"
  by (auto intro!: wpI dest: stops_onlyD)

end
