(* ===== verification/Daemon.thy ===== *)
theory Daemon
  imports Sys
begin

text \<open>
  \<^verbatim>\<open>daemon.c\<close> and \<^verbatim>\<open>daemon.h\<close>: detaching a process, its signal set-up, and waiting for work.
  \<open>daemon_t\<close> is the structure of the same name; a call that fills it returns the new value.
\<close>

section \<open>Constants\<close>

definition DAEMON_WORKING_DIRECTORY :: string where
  "DAEMON_WORKING_DIRECTORY = ''/run''"

definition DAEMON_USER :: string where
  "DAEMON_USER = ''nobody''"

abbreviation (input) STDIN_FILENO :: fd where "STDIN_FILENO \<equiv> 0"
abbreviation (input) STDOUT_FILENO :: fd where "STDOUT_FILENO \<equiv> 1"
abbreviation (input) STDERR_FILENO :: fd where "STDERR_FILENO \<equiv> 2"

abbreviation (input) O_RDONLY :: u32 where "O_RDONLY \<equiv> 0"
abbreviation (input) O_WRONLY :: u32 where "O_WRONLY \<equiv> 1"
abbreviation (input) O_RDWR :: u32 where "O_RDWR \<equiv> 2"
abbreviation (input) O_CREAT :: u32 where "O_CREAT \<equiv> 0x40"
abbreviation (input) O_EXCL :: u32 where "O_EXCL \<equiv> 0x80"
abbreviation (input) O_APPEND :: u32 where "O_APPEND \<equiv> 0x400"
abbreviation (input) O_NONBLOCK :: u32 where "O_NONBLOCK \<equiv> 0x800"
abbreviation (input) O_ASYNC :: u32 where "O_ASYNC \<equiv> 0x2000"

abbreviation (input) CLONE_NEWNS :: u32 where "CLONE_NEWNS \<equiv> 0x00020000"
abbreviation (input) CLONE_NEWUTS :: u32 where "CLONE_NEWUTS \<equiv> 0x04000000"
abbreviation (input) CLONE_NEWIPC :: u32 where "CLONE_NEWIPC \<equiv> 0x08000000"
abbreviation (input) CLONE_NEWPID :: u32 where "CLONE_NEWPID \<equiv> 0x20000000"
abbreviation (input) CLONE_UNTRACED :: u32 where "CLONE_UNTRACED \<equiv> 0x00800000"

abbreviation (input) SA_NOCLDSTOP :: u32 where "SA_NOCLDSTOP \<equiv> 1"
abbreviation (input) SA_NOCLDWAIT :: u32 where "SA_NOCLDWAIT \<equiv> 2"

definition PATH_DEVNULL :: string where
  "PATH_DEVNULL = ''/dev/null''"

abbreviation (input) EXIT_SUCCESS :: int where "EXIT_SUCCESS \<equiv> 0"
abbreviation (input) EXIT_FAILURE :: int where "EXIT_FAILURE \<equiv> 1"

abbreviation (input) AF_UNIX :: int where "AF_UNIX \<equiv> 1"
abbreviation (input) AF_NETLINK :: int where "AF_NETLINK \<equiv> 16"
abbreviation (input) SOCK_DGRAM :: int where "SOCK_DGRAM \<equiv> 2"

definition LOG_ERR :: int where "LOG_ERR = 3"
definition LOG_INFO :: int where "LOG_INFO = 6"

text \<open>\<^verbatim>\<open>common.h\<close>: the longest message the daemons exchange.\<close>

definition MAX_LENGTH :: nat where
  "MAX_LENGTH = 2047"

record daemon_t =
  signal_mask :: "signal list"
  daemon_fd :: fd
  io_signal :: signal

section \<open>Detaching\<close>

definition daemonize_pipes :: "bool prog" where
  "daemonize_pipes =
     Sys (File (Close STDIN_FILENO)) (\<lambda>r. if ret r = -1 then Ret False else
     Sys (File (Open PATH_DEVNULL O_RDONLY 0)) (\<lambda>r. if ret r = -1 then Ret False else
     Sys (File (Close STDOUT_FILENO)) (\<lambda>r. if ret r = -1 then Ret False else
     Sys (File (Open PATH_DEVNULL O_WRONLY 0)) (\<lambda>r. if ret r = -1 then Ret False else
     Sys (File (Close STDERR_FILENO)) (\<lambda>r. if ret r = -1 then Ret False else
     Sys (File (Dup STDIN_FILENO)) (\<lambda>r. if ret r \<noteq> STDERR_FILENO then Ret False else
     Sys (Proc (Umask 0)) (\<lambda>_. Ret True)))))))"

definition daemonize_owner :: "passwd option \<Rightarrow> bool prog \<Rightarrow> bool prog" where
  "daemonize_owner user_info k =
     (case user_info of
        None \<Rightarrow> k
      | Some u \<Rightarrow>
          Sys (Proc (Setuid (pw_uid u))) (\<lambda>r. if ret r = -1 then Ret False else
          Sys (Proc (Seteuid (pw_uid u))) (\<lambda>r. if ret r = -1 then Ret False else k)))"

definition daemonize_detach :: "string \<Rightarrow> passwd option \<Rightarrow> bool prog" where
  "daemonize_detach working_directory user_info =
     Sys (Proc (Chdir working_directory)) (\<lambda>r. if ret r = -1 then Ret False else
     Sys (Proc Fork) (\<lambda>r. if ret r = -1 then Ret False
       else if ret r \<noteq> 0 then Halt (Exited EXIT_SUCCESS) else
     Sys (Proc Setsid) (\<lambda>r. if ret r = -1 then Ret False else
     Sys (Proc Fork) (\<lambda>r. if ret r = -1 then Ret False
       else if ret r \<noteq> 0 then Halt (Exited EXIT_SUCCESS) else
     Sys (Proc (Unshare CLONE_NEWNS)) (\<lambda>r. if ret r = -1 then Ret False else
     daemonize_owner user_info daemonize_pipes)))))"

definition daemon_daemonize :: "string \<Rightarrow> string option \<Rightarrow> bool prog" where
  "daemon_daemonize working_directory user =
     (case user of
        None \<Rightarrow> daemonize_detach working_directory None
      | Some name \<Rightarrow>
          Sys (Lib (Getpwnam name)) (\<lambda>r. if ret r = 0 then Ret False
            else daemonize_detach working_directory (Some (account r))))"

lemmas daemonize_defs =
  daemonize_pipes_def daemonize_owner_def daemonize_detach_def daemon_daemonize_def

section \<open>Signals and asynchronous input\<close>

definition daemon_async :: "daemon_t \<Rightarrow> u32 \<Rightarrow> (bool \<times> daemon_t) prog" where
  "daemon_async d flags =
     Sys (Signal Sigemptyset) (\<lambda>r. if ret r = -1 then Ret (False, d) else
     Sys (Signal (Sigaction SIGCHLD (SA_NOCLDWAIT OR SA_NOCLDSTOP))) (\<lambda>r.
       if ret r = -1 then Ret (False, d) else
     Sys (File (Fcntl (daemon_fd d) (F_SETSIG (io_signal d)))) (\<lambda>r.
       if ret r = -1 then Ret (False, d) else
     Sys (File (Fcntl (daemon_fd d) (F_SETFL (flags OR O_NONBLOCK OR O_ASYNC)))) (\<lambda>r.
       if ret r = -1 then Ret (False, d) else
     Sys (Proc Getpid) (\<lambda>pid.
     Sys (File (Fcntl (daemon_fd d) (F_SETOWN (ret pid)))) (\<lambda>r.
       if ret r = -1 then Ret (False, d) else Ret (True, d)))))))"

definition daemon_signals :: "daemon_t \<Rightarrow> u32 \<Rightarrow> (bool \<times> daemon_t) prog" where
  "daemon_signals d0 flags =
     (let d = d0\<lparr>io_signal := SIGRTMIN\<rparr> in
     Sys (Signal Sigemptyset) (\<lambda>r. if ret r = -1 then Ret (False, d) else
     (let d = d\<lparr>signal_mask := []\<rparr> in
     Sys (Signal (Sigaddset (io_signal d))) (\<lambda>r. if ret r = -1 then Ret (False, d) else
     (let d = d\<lparr>signal_mask := signal_mask d @ [io_signal d]\<rparr> in
     Sys (Signal (Sigaddset SIGTERM)) (\<lambda>r. if ret r = -1 then Ret (False, d) else
     (let d = d\<lparr>signal_mask := signal_mask d @ [SIGTERM]\<rparr> in
     Sys (Signal (Sigprocmask (signal_mask d))) (\<lambda>r. if ret r = -1 then Ret (False, d) else
     daemon_async d flags))))))))"

definition daemon_init :: "daemon_t \<Rightarrow> string \<Rightarrow> string option \<Rightarrow> (bool \<times> daemon_t) prog" where
  "daemon_init d working_directory user =
     Sys (File (Fcntl (daemon_fd d) F_GETFL)) (\<lambda>flags. if ret flags = -1 then Ret (False, d) else
     bind (daemon_daemonize working_directory user) (\<lambda>ok. if \<not> ok then Ret (False, d) else
     daemon_signals d (word_of_int (ret flags))))"

text \<open>
  \<open>daemon_wait\<close> returns its result and the value of \<^verbatim>\<open>*received_signal\<close>.
\<close>

definition daemon_wait :: "daemon_t \<Rightarrow> (bool \<times> signal) prog" where
  "daemon_wait d =
     Sys (Signal (Sigwait (signal_mask d))) (\<lambda>r.
       if ret r \<noteq> 0 then Ret (False, signo r)
       else if io_signal d \<noteq> signo r \<and> SIGTERM \<noteq> signo r then Ret (False, signo r)
       else Ret (True, signo r))"

definition daemon_fork :: "int prog" where
  "daemon_fork =
     Sys (Signal Sigemptyset) (\<lambda>r. if ret r = -1 then Ret (-1) else
     Sys (Proc Fork) (\<lambda>pid.
       if ret pid = 0 then
         Sys (Signal (Sigprocmask [])) (\<lambda>r.
           if ret r = -1 then Halt (Exited EXIT_FAILURE) else Ret 0)
       else Ret (ret pid)))"

lemmas daemon_init_defs = daemon_init_def daemon_signals_def daemon_async_def

section \<open>What the functions guarantee\<close>

text \<open>
  The steps of a successful detachment, with the account whose rights are taken over, and of
  the signal set-up. \<open>succeeded\<close>: both forks return as the child, the copy of the standard input is
  the standard error, and no other call fails (\<^verbatim>\<open>umask\<close> and \<^verbatim>\<open>getpid\<close> cannot).
\<close>

definition detach_calls :: "string \<Rightarrow> int option \<Rightarrow> syscall list" where
  "detach_calls wd uid =
     [Proc (Chdir wd), Proc Fork, Proc Setsid, Proc Fork, Proc (Unshare CLONE_NEWNS)]
     @ (case uid of None \<Rightarrow> [] | Some u \<Rightarrow> [Proc (Setuid u), Proc (Seteuid u)])
     @ [File (Close 0), File (Open PATH_DEVNULL O_RDONLY 0), File (Close 1),
        File (Open PATH_DEVNULL O_WRONLY 0), File (Close 2), File (Dup 0), Proc (Umask 0)]"

definition signal_calls :: "fd \<Rightarrow> u32 \<Rightarrow> int \<Rightarrow> syscall list" where
  "signal_calls f flags pid =
     [Signal Sigemptyset, Signal (Sigaddset SIGRTMIN), Signal (Sigaddset SIGTERM),
      Signal (Sigprocmask [SIGRTMIN, SIGTERM]), Signal Sigemptyset,
      Signal (Sigaction SIGCHLD (SA_NOCLDWAIT OR SA_NOCLDSTOP)), File (Fcntl f (F_SETSIG SIGRTMIN)),
      File (Fcntl f (F_SETFL (flags OR O_NONBLOCK OR O_ASYNC))), Proc Getpid, File (Fcntl f (F_SETOWN pid))]"

definition succeeded :: "event \<Rightarrow> bool" where
  "succeeded e \<longleftrightarrow> (case e of
     (Proc Fork, r) \<Rightarrow> ret r = 0 | (File (Dup _), r) \<Rightarrow> ret r = STDERR_FILENO
   | (Proc (Umask _), r) \<Rightarrow> True | (Proc Getpid, r) \<Rightarrow> True | (c, r) \<Rightarrow> ret r \<noteq> -1)"

lemma detach_success:
  assumes "execs (daemonize_detach wd u) t (Returned True)"
  shows "map fst t = detach_calls wd (map_option pw_uid u) \<and> list_all succeeded t"
proof -
  have "wp (daemonize_detach wd u) (\<lambda>t z. z = Returned True \<longrightarrow>
      map fst t = detach_calls wd (map_option pw_uid u) \<and> list_all succeeded t) []"
    by (cases u) (simp_all add: daemonize_defs detach_calls_def succeeded_def)
  from execs_wp [OF assms this] show ?thesis by simp
qed

lemma daemonize_success:
  assumes "execs (daemon_daemonize wd user) t (Returned True)"
  shows "\<exists>uid t'. (case user of
        None \<Rightarrow> uid = None \<and> t = t'
      | Some name \<Rightarrow> \<exists>r. t = (Lib (Getpwnam name), r) # t' \<and> ret r \<noteq> 0 \<and>
          uid = Some (pw_uid (account r))) \<and>
    map fst t' = detach_calls wd uid \<and> list_all succeeded t'"
proof (cases user)
  case None
  with assms have "execs (daemonize_detach wd None) t (Returned True)"
    by (simp add: daemon_daemonize_def)
  from detach_success [OF this] None show ?thesis by (intro exI [of _ None] exI [of _ t]) simp
next
  case (Some name)
  with assms obtain r t' where t: "t = (Lib (Getpwnam name), r) # t'" "ret r \<noteq> 0"
    and ex: "execs (daemonize_detach wd (Some (account r))) t' (Returned True)"
    by (auto simp: daemon_daemonize_def execs_Sys split: if_splits)
  from detach_success [OF ex] Some t show ?thesis
    by (intro exI [of _ "Some (pw_uid (account r))"] exI [of _ t']) simp
qed

lemma daemon_signals_success:
  assumes "execs (daemon_signals d fl) t (Returned (True, d'))"
  shows "d' = d\<lparr>signal_mask := [SIGRTMIN, SIGTERM], io_signal := SIGRTMIN\<rparr> \<and>
    (\<exists>pid. (Proc Getpid, pid) \<in> set t \<and> map fst t = signal_calls (daemon_fd d) fl (ret pid)) \<and>
    list_all succeeded t"
proof -
  have "wp (daemon_signals d fl) (\<lambda>t z. z = Returned (True, d') \<longrightarrow>
      d' = d\<lparr>signal_mask := [SIGRTMIN, SIGTERM], io_signal := SIGRTMIN\<rparr> \<and>
      (\<exists>pid. (Proc Getpid, pid) \<in> set t \<and> map fst t = signal_calls (daemon_fd d) fl (ret pid)) \<and>
      list_all succeeded t) []"
    unfolding daemon_signals_def daemon_async_def Let_def
    by (intro wp_intros; simp add: signal_calls_def succeeded_def) auto
  from execs_wp [OF assms this] show ?thesis by simp
qed

text \<open>The whole initialization for a user, from the flags of the descriptor to its owner.\<close>

lemma daemon_init_success:
  assumes "execs (daemon_init d wd (Some user)) t (Returned (True, d'))"
  shows "d' = d\<lparr>signal_mask := [SIGRTMIN, SIGTERM], io_signal := SIGRTMIN\<rparr> \<and>
    (\<exists>flags r t1 t2 pid. t = (File (Fcntl (daemon_fd d) F_GETFL), flags) # (Lib (Getpwnam user), r) # t1 @ t2 \<and>
       ret flags \<noteq> -1 \<and> ret r \<noteq> 0 \<and>
       map fst t1 = detach_calls wd (Some (pw_uid (account r))) \<and> list_all succeeded t1 \<and>
       map fst t2 = signal_calls (daemon_fd d) (word_of_int (ret flags)) (ret pid) \<and>
       (Proc Getpid, pid) \<in> set t2 \<and> list_all succeeded t2)"
proof -
  from assms obtain flags u where t: "t = (File (Fcntl (daemon_fd d) F_GETFL), flags) # u" "ret flags \<noteq> -1"
    and ex: "execs (bind (daemon_daemonize wd (Some user)) (\<lambda>ok. if \<not> ok then Ret (False, d) else
       daemon_signals d (word_of_int (ret flags)))) u (Returned (True, d'))"
    by (auto simp: daemon_init_def execs_Sys split: if_splits)
  from ex obtain u1 t2 where u: "u = u1 @ t2"
    and init: "execs (daemon_daemonize wd (Some user)) u1 (Returned True)"
    and sig: "execs (daemon_signals d (word_of_int (ret flags))) t2 (Returned (True, d'))"
    by (auto elim!: execs_bindE split: if_splits)
  from daemonize_success [OF init] obtain r t1 where "u1 = (Lib (Getpwnam user), r) # t1" "ret r \<noteq> 0"
    "map fst t1 = detach_calls wd (Some (pw_uid (account r)))" "list_all succeeded t1"
    by auto
  with daemon_signals_success [OF sig] t u show ?thesis by fastforce
qed

section \<open>The service loop\<close>

text \<open>
  Every daemon of the package serves in the same way: a round waits for a signal, leaves the
  loop when it is \<^verbatim>\<open>SIGTERM\<close>, and otherwise handles one message without waiting again. The
  interface below states that contract of a round; what it gives for the whole loop is proved
  once and interpreted for each daemon.
\<close>

definition waits :: "syscall \<Rightarrow> bool" where
  "waits c \<longleftrightarrow> (case c of Signal (Sigwait m) \<Rightarrow> True | _ \<Rightarrow> False)"

definition terminated :: "event \<Rightarrow> bool" where
  "terminated e \<longleftrightarrow> waits (fst e) \<and> ret (snd e) = 0 \<and> signo (snd e) = SIGTERM"

lemma waits_simps [simp]:
  "\<not> waits (File f)" "\<not> waits (Net c)" "\<not> waits (Proc p)" "\<not> waits (Lib l)" "\<not> waits (Kern k)"
  "waits (Signal (Sigwait m))" "\<not> waits (Signal Sigemptyset)" "\<not> waits (Signal (Sigaddset g))"
  "\<not> waits (Signal (Sigprocmask m))" "\<not> waits (Signal (Sigaction g fl))"
  "\<not> waits (Signal (Kill i g))"
  by (simp_all add: waits_def)

abbreviation (input) never_waits :: "'a prog \<Rightarrow> bool" where
  "never_waits p \<equiv> issues_only (\<lambda>c. \<not> waits c) p"

text \<open>
  \<open>calm t\<close>: no termination signal was delivered so far. \<open>quits P t z\<close>: if one was, it was the only
  one, and \<open>P\<close> holds of what the program did after it and how it ended.
\<close>

abbreviation (input) calm :: "event list \<Rightarrow> bool" where
  "calm t \<equiv> list_all (\<lambda>e. \<not> terminated e) t"

definition quits :: "(event list \<Rightarrow> 'a outcome \<Rightarrow> bool) \<Rightarrow> event list \<Rightarrow> 'a outcome \<Rightarrow> bool" where
  "quits P t z \<longleftrightarrow> calm t \<or> (\<exists>u e v. t = u @ e # v \<and> terminated e \<and> calm u \<and> calm v \<and> P v z)"

lemma quits_calm: "calm t \<Longrightarrow> quits P t z"
  by (simp add: quits_def)

lemma quitsD: "quits P t z \<Longrightarrow> e \<in> set t \<Longrightarrow> terminated e \<Longrightarrow> \<exists>u v. t = u @ e # v \<and> P v z"
  unfolding quits_def list_all_iff by (elim disjE exE conjE) (simp, metis Un_iff set_ConsD set_append)

lemma not_terminated: "\<not> waits (fst e) \<Longrightarrow> \<not> terminated e"
  by (simp add: terminated_def)

lemma calm_execs: "execs p t z \<Longrightarrow> never_waits p \<Longrightarrow> calm t"
  by (auto simp: list_all_iff terminated_def dest: issues_onlyD)

lemma wp_calm: "never_waits p \<Longrightarrow> calm t \<Longrightarrow> wp p (\<lambda>t z. calm t) t"
  by (rule wpI) (simp add: calm_execs)

lemma wp_quits: "never_waits p \<Longrightarrow> calm t \<Longrightarrow> wp p (quits P) t"
  by (rule wp_mono [OF wp_calm]) (auto intro: quits_calm)

text \<open>What follows the service, when the service itself quits.\<close>

lemma quits_bind:
  assumes "wp m (quits R) t" and "\<And>a. never_waits (k a)"
    and "\<And>v z. R v z \<Longrightarrow> \<exists>a. z = Returned a \<and> (\<forall>v' z'. execs (k a) v' z' \<longrightarrow> P (v @ v') z')"
  shows "wp (bind m k) (quits P) t"
proof (rule wpI)
  fix u z assume "execs (bind m k) u z"
  then show "quits P (t @ u) z"
  proof (cases rule: execs_bindE)
    case (returned t1 t2 a)
    then have calm: "calm t2" using assms(2) calm_execs by blast
    from wpD [OF returned(2) assms(1)] consider "calm (t @ t1)"
      | w e v where "t @ t1 = w @ e # v" "terminated e" "calm w" "calm v" "R v (Returned a)"
      by (auto simp: quits_def)
    then show ?thesis
    proof cases
      case 1
      with calm returned(1) show ?thesis by (intro quits_calm) simp
    next
      case 2
      with assms(3) [OF 2(5)] returned(3) have "P (v @ t2) z" by auto
      with 2 calm returned(1) show ?thesis unfolding quits_def
        by (intro disjI2 exI [of _ w] exI [of _ e] exI [of _ "v @ t2"]) simp
    qed
  next
    case (halted h)
    from wpD [OF halted(1) assms(1)] halted(2) assms(3) show ?thesis
      by (fastforce simp: quits_def)
  qed
qed

locale daemon_service =
  fixes round :: "'s \<Rightarrow> ('s + 'a) prog"
    and result :: "'a"
  assumes round_waits: "execs (round s) t z \<Longrightarrow>
      \<exists>e u. t = e # u \<and> waits (fst e) \<and> (\<forall>e' \<in> set u. \<not> waits (fst e'))"
    and round_stops: "execs (round s) (e # u) z \<Longrightarrow> terminated e \<Longrightarrow>
      u = [] \<and> z = Returned (Inr result)"
begin

lemma round_quits:
  assumes "calm t"
  shows "wp (round s) (\<lambda>t' z. calm t' \<or> (\<exists>u e. t' = u @ [e] \<and> calm u \<and> terminated e) \<and> z = Returned (Inr result)) t"
proof (rule wpI)
  fix u z assume ex: "execs (round s) u z"
  from round_waits [OF this] obtain e u' where u: "u = e # u'" "\<forall>e' \<in> set u'. \<not> waits (fst e')" by blast
  show "calm (t @ u) \<or> (\<exists>w e. t @ u = w @ [e] \<and> calm w \<and> terminated e) \<and> z = Returned (Inr result)"
    using round_stops [of s e u' z] ex u assms by (cases "terminated e") (auto simp: list_all_iff not_terminated)
qed

text \<open>Once the wait delivers \<^verbatim>\<open>SIGTERM\<close>, the loop makes no further call and is left.\<close>

lemma service_quits:
  assumes "calm t"
  shows "wp (loop n round s) (quits (\<lambda>v z. v = [] \<and> z = Returned result)) t"
proof (rule wp_loop [where I = "\<lambda>t s. calm t"])
  fix t s assume "calm t"
  from round_quits [OF this] show "wp (round s) (\<lambda>t' z. case z of
      Returned (Inl s') \<Rightarrow> calm t'
    | Returned (Inr a) \<Rightarrow> quits (\<lambda>v z. v = [] \<and> z = Returned result) t' (Returned a)
    | Halted h \<Rightarrow> quits (\<lambda>v z. v = [] \<and> z = Returned result) t' (Halted h)) t"
    by (rule wp_mono) (auto simp: quits_def split: outcome.splits sum.splits)
qed (use assms in \<open>auto intro: quits_calm\<close>)

end

lemma never_waits_init: "never_waits (daemon_init d wd user)"
  unfolding daemon_init_defs daemonize_defs by (intro issues_intros; simp split: option.split)+

lemma never_waits_fork: "never_waits daemon_fork"
  unfolding daemon_fork_def by (intro issues_intros) simp_all

text \<open>The shape all service rounds have: \<open>daemon_wait\<close>, then a part that never waits.\<close>

lemma daemon_wait_round:
  assumes "execs (bind (daemon_wait d) k) t z" and "\<And>x. never_waits (k x)"
  shows "\<exists>e u. t = e # u \<and> waits (fst e) \<and> (\<forall>e' \<in> set u. \<not> waits (fst e'))"
  using assms(1) assms(2) [THEN issues_onlyD [rotated]]
  by (fastforce simp: daemon_wait_def execs_Sys split: if_splits)

lemma daemon_wait_stops:
  assumes "execs (bind (daemon_wait d) k) (e # u) z" and "terminated e"
    and "k (True, SIGTERM) = Ret x"
  shows "u = [] \<and> z = Returned x"
  using assms by (auto simp: daemon_wait_def terminated_def execs_Sys split: if_splits)

lemma daemon_init_fd:
  "execs (daemon_init d wd user) t (Returned (ok, d')) \<Longrightarrow> daemon_fd d' = daemon_fd d"
proof -
  assume ex: "execs (daemon_init d wd user) t (Returned (ok, d'))"
  let ?Q = "\<lambda>t z. \<forall>ok d'. z = Returned (ok, d') \<longrightarrow> daemon_fd d' = daemon_fd d"
  have signals: "wp (daemon_signals d fl) ?Q t" for fl t
    unfolding daemon_signals_def daemon_async_def Let_def by (intro wp_intros; simp)
  have "wp (bind (daemon_daemonize wd user)
      (\<lambda>ok. if \<not> ok then Ret (False, d) else daemon_signals d fl)) ?Q t" for fl t
    by (rule wp_bindI [where R = "\<lambda>t z. True"]) (auto intro: wpI simp: signals)
  then have "wp (daemon_init d wd user) ?Q []"
    by (auto simp: daemon_init_def)
  from execs_wp [OF ex this] show ?thesis by simp
qed

section \<open>Concrete replies\<close>

text \<open>
  Replies that bring \<open>daemon_init\<close> with a user to success, and the delivery of a signal; the
  components evaluate their programs on them.
\<close>

definition detached :: "reply list" where
  "detached = [returns 0, returns 0, returns 7, returns 0, returns 0]"

definition privileges_dropped :: "reply list" where
  "privileges_dropped = [returns 0, returns 0]"

definition pipes_replaced :: "reply list" where
  "pipes_replaced = [returns 0, returns 0, returns 0, returns 1, returns 0, returns 2, returns 18]"

definition init_replies :: "reply list" where
  "init_replies = [returns 2, returns 1] @ detached @ privileges_dropped @ pipes_replaced @
     replicate 10 (returns 0)"

definition signalled :: "signal \<Rightarrow> reply" where
  "signalled g = reply0\<lparr>signo := g\<rparr>"

lemma init_replies_ok:
  "snd (run (daemon_init \<lparr>signal_mask = [], daemon_fd = 3, io_signal = SIGOTHER 0\<rparr> ''/'' (Some ''nobody''))
     init_replies) =
   Returned (True, \<lparr>signal_mask = [SIGRTMIN, SIGTERM], daemon_fd = 3, io_signal = SIGRTMIN\<rparr>)"
  by code_simp

section \<open>Properties\<close>

text \<open>
  C13: when daemon_init reports success, the process is the child of both forks, with setsid
  between them, has moved to the directory and got a private mount namespace, the user's
  identity and /dev/null for its standard descriptors, all in this order and before the signal
  set-up; that then blocks exactly SIGRTMIN and SIGTERM, the two signals the daemon waits for
  (not SIGCHLD, which a comment names too), discards finished children, and requests
  asynchronous non-blocking input for the descriptor, to be signalled to this process. Every
  call succeeded.
\<close>

theorem daemon_init_ready:
  assumes "execs (daemon_init d wd (Some user)) t (Returned (True, d'))"
  shows "d' = d\<lparr>signal_mask := [SIGRTMIN, SIGTERM], io_signal := SIGRTMIN\<rparr> \<and>
    (\<exists>flags r t1 t2 pid. t = (File (Fcntl (daemon_fd d) F_GETFL), flags) # (Lib (Getpwnam user), r) # t1 @ t2 \<and>
       ret flags \<noteq> -1 \<and> ret r \<noteq> 0 \<and>
       map fst t1 = detach_calls wd (Some (pw_uid (account r))) \<and> list_all succeeded t1 \<and>
       (\<forall>e \<in> set t1. fst e = Proc Fork \<longrightarrow> ret (snd e) = 0) \<and>
       map fst t2 = signal_calls (daemon_fd d) (word_of_int (ret flags)) (ret pid) \<and>
       (Proc Getpid, pid) \<in> set t2 \<and> list_all succeeded t2)"
proof -
  have fork: "list_all succeeded t1 \<Longrightarrow> \<forall>e \<in> set t1. fst e = Proc Fork \<longrightarrow> ret (snd e) = 0" for t1
    by (fastforce simp: list_all_iff succeeded_def)
  from daemon_init_success [OF assms] show ?thesis using fork by blast
qed

theorem daemon_init_ready_witness:
  "\<exists>d'. d' = \<lparr>signal_mask = [SIGRTMIN, SIGTERM], daemon_fd = 3, io_signal = SIGRTMIN\<rparr> \<and>
     (\<exists>t. execs (daemon_init \<lparr>signal_mask = [], daemon_fd = 3, io_signal = SIGOTHER 0\<rparr> ''/''
        (Some ''nobody'')) t (Returned (True, d')))"
proof -
  let ?p = "daemon_init \<lparr>signal_mask = [], daemon_fd = 3, io_signal = SIGOTHER 0\<rparr> ''/'' (Some ''nobody'')"
  have ex: "execs ?p (fst (run ?p init_replies))
      (Returned (True, \<lparr>signal_mask = [SIGRTMIN, SIGTERM], daemon_fd = 3, io_signal = SIGRTMIN\<rparr>))"
    by (rule run_trace [OF init_replies_ok]) simp
  from daemon_init_ready [OF ex] ex show ?thesis by auto
qed

end
