(* ===== verification/Tftp_Transfer.thy ===== *)
theory Tftp_Transfer
  imports Daemon
begin

text \<open>
  The transfer half of \<^verbatim>\<open>tftpd.c\<close>: the packets (\<^verbatim>\<open>g_errors\<close>, data and acknowledgment packets),
  \<open>send_error\<close>, \<open>log_request\<close>, and the two handlers \<open>handle_wrq\<close> (a client uploads a file) and
  \<open>handle_rrq\<close> (a client downloads one). The handlers' loops run for at most the given number
  of rounds; how many are enough is proved with the handlers.
\<close>

section \<open>Packets\<close>

abbreviation (input) PACKET_TYPE_RRQ :: u16 where "PACKET_TYPE_RRQ \<equiv> 1"
abbreviation (input) PACKET_TYPE_WRQ :: u16 where "PACKET_TYPE_WRQ \<equiv> 2"
abbreviation (input) PACKET_TYPE_DATA :: u16 where "PACKET_TYPE_DATA \<equiv> 3"
abbreviation (input) PACKET_TYPE_ACK :: u16 where "PACKET_TYPE_ACK \<equiv> 4"
abbreviation (input) PACKET_TYPE_ERROR :: u16 where "PACKET_TYPE_ERROR \<equiv> 5"

datatype tftp_error =
  ERROR_FILE_NOT_FOUND | ERROR_ACCESS_VIOLATION | ERROR_DISK_FULL
  | ERROR_ILLEGAL_OPERATION | ERROR_UNKNOWN_TID | ERROR_FILE_EXISTS

fun error_number :: "tftp_error \<Rightarrow> nat" where
  "error_number ERROR_FILE_NOT_FOUND = 1"
| "error_number ERROR_ACCESS_VIOLATION = 2"
| "error_number ERROR_DISK_FULL = 3"
| "error_number ERROR_ILLEGAL_OPERATION = 4"
| "error_number ERROR_UNKNOWN_TID = 5"
| "error_number ERROR_FILE_EXISTS = 6"

text \<open>The pre-generated error packets, byte by byte.\<close>

definition g_file_not_found :: buffer where
  "g_file_not_found = [NUL, CHR 0x05, NUL, CHR 0x01] @ ''File not found'' @ [NUL]"

definition g_access_violation :: buffer where
  "g_access_violation = [NUL, CHR 0x05, NUL, CHR 0x02] @ ''Access Violation'' @ [NUL]"

definition g_disk_full :: buffer where
  "g_disk_full = [NUL, CHR 0x05, NUL, CHR 0x03] @ ''Disk full or allocation exceeded'' @ [NUL]"

definition g_illegal_operation :: buffer where
  "g_illegal_operation = [NUL, CHR 0x05, NUL, CHR 0x04] @ ''Illegal TFTP operation'' @ [NUL]"

definition g_unknown_tid :: buffer where
  "g_unknown_tid = [NUL, CHR 0x05, NUL, CHR 0x05] @ ''Unknown transfer ID'' @ [NUL]"

definition g_file_exists :: buffer where
  "g_file_exists = [NUL, CHR 0x05, NUL, CHR 0x06] @ ''File already exists'' @ [NUL]"

definition g_errors :: "buffer list" where
  "g_errors = [g_file_not_found, g_access_violation, g_disk_full, g_illegal_operation,
     g_unknown_tid, g_file_exists]"

text \<open>The structures \<^verbatim>\<open>ack_t\<close> and \<^verbatim>\<open>data_t\<close> as laid out in memory; ids are raw fields.\<close>

definition ack_packet :: "u16 \<Rightarrow> buffer" where
  "ack_packet raw_id = store16 (htons PACKET_TYPE_ACK) @ store16 raw_id"

definition data_packet :: "u16 \<Rightarrow> buffer \<Rightarrow> buffer" where
  "data_packet raw_id payload = store16 (htons PACKET_TYPE_DATA) @ store16 raw_id @ payload"

definition packet_opcode :: "buffer \<Rightarrow> u16" where
  "packet_opcode p = load16 p"

definition packet_id :: "buffer \<Rightarrow> u16" where
  "packet_id p = load16 (drop 2 p)"

definition packet_payload :: "buffer \<Rightarrow> buffer" where
  "packet_payload p = drop 4 p"

definition CHUNK_SIZE :: nat where "CHUNK_SIZE = 512"
definition DATA_SIZE :: nat where "DATA_SIZE = 516"

text \<open>\<^verbatim>\<open>switch (sa_family)\<close> without a default: an unknown family leaves the variable alone.\<close>

fun sa_port :: "sockaddr \<Rightarrow> u16 \<Rightarrow> u16" where
  "sa_port (Sin p a) old = p"
| "sa_port (Sin6 p) old = p"
| "sa_port _ old = old"

section \<open>Error packets and the request log\<close>

definition send_error :: "fd \<Rightarrow> tftp_error \<Rightarrow> sockaddr \<Rightarrow> nat \<Rightarrow> unit prog" where
  "send_error s type client_address address_size =
     (let index = error_number type - 1 in
      c_assert (STDERR_FILENO < s) (c_assert (0 < address_size)
        (Sys (Net (Sendto s (g_errors ! index) client_address)) (\<lambda>_. Ret ()))))"

definition log_text :: "string \<Rightarrow> string \<Rightarrow> sockaddr \<Rightarrow> nat \<Rightarrow> unit prog" where
  "log_text type path address address_size =
     Sys (Net (Inet_ntop address address_size)) (\<lambda>r. if ret r = 0 then Ret () else
     Sys (Lib (Syslog LOG_INFO (type @ '' '' @ path @ '' ('' @ out r @ '')''))) (\<lambda>_. Ret ()))"

definition log_request :: "string \<Rightarrow> string \<Rightarrow> sockaddr \<Rightarrow> nat \<Rightarrow> unit prog" where
  "log_request type path address address_size =
     c_assert (0 < address_size)
       (case address of
          Sin p a \<Rightarrow> log_text type path address address_size
        | Sin6 p \<Rightarrow> log_text type path address address_size
        | _ \<Rightarrow> Ret ())"

section \<open>Uploads\<close>

text \<open>How a transfer loop is left: by its condition, or by \<^verbatim>\<open>goto close_file\<close> or \<^verbatim>\<open>goto end\<close>.\<close>

datatype transfer_exit = Finished | Close_file | End

text \<open>A negative \<^verbatim>\<open>ssize_t\<close> passed as a \<^verbatim>\<open>size_t\<close>.\<close>

definition size_t_of :: "int \<Rightarrow> nat" where
  "size_t_of n = nat (n mod 2 ^ 64)"

definition wrq_store ::
  "fd \<Rightarrow> fd \<Rightarrow> sockaddr \<Rightarrow> nat \<Rightarrow> buffer \<Rightarrow> u16 \<Rightarrow> int \<Rightarrow> ((buffer \<times> u16) + transfer_exit) prog" where
  "wrq_store s file address address_size chunk chunk_tid count =
     Sys (File (Write file (packet_payload chunk) (size_t_of count))) (\<lambda>w.
       if count \<noteq> ret w then
         (if errno w = ENOSPC then
            bind (send_error s ERROR_DISK_FULL address address_size) (\<lambda>_. Ret (Inr Close_file))
          else Ret (Inr Close_file))
       else
         Sys (Net (Sendto s (ack_packet (packet_id chunk)) address)) (\<lambda>a.
           if ret a \<noteq> 4 then Ret (Inr Close_file)
           else if count = int CHUNK_SIZE then Ret (Inl (chunk, chunk_tid))
           else Ret (Inr Finished)))"

definition wrq_round ::
  "fd \<Rightarrow> fd \<Rightarrow> sockaddr \<Rightarrow> nat \<Rightarrow> u16 \<Rightarrow> buffer \<times> u16 \<Rightarrow> ((buffer \<times> u16) + transfer_exit) prog" where
  "wrq_round s file address address_size tid st =
     (case st of (chunk0, chunk_tid0) \<Rightarrow>
      Sys (Net (Recvfrom s DATA_SIZE)) (\<lambda>r. if ret r = -1 then Ret (Inr Close_file) else
      (let chunk = overwrite chunk0 (out r) in
       if htons PACKET_TYPE_DATA \<noteq> packet_opcode chunk then Ret (Inr Close_file) else
       (let chunk_tid = sa_port (sender r) chunk_tid0 in
        if tid \<noteq> chunk_tid then
          bind (send_error s ERROR_UNKNOWN_TID address address_size) (\<lambda>_. Ret (Inr Close_file))
        else wrq_store s file address address_size chunk chunk_tid (ret r - 4)))))"

definition wrq_body :: "nat \<Rightarrow> fd \<Rightarrow> fd \<Rightarrow> string \<Rightarrow> sockaddr \<Rightarrow> nat \<Rightarrow> u16 \<Rightarrow> bool prog" where
  "wrq_body n s file path address address_size tid =
     bind (loop n (wrq_round s file address address_size tid) (replicate DATA_SIZE NUL, 0)) (\<lambda>e.
     Sys (File (Close file)) (\<lambda>_.
       if e = Finished then Ret True
       else Sys (File (Unlink path)) (\<lambda>_. Ret False)))"

definition handle_wrq :: "nat \<Rightarrow> fd \<Rightarrow> string \<Rightarrow> sockaddr \<Rightarrow> nat \<Rightarrow> u16 \<Rightarrow> bool prog" where
  "handle_wrq n s path address address_size tid =
     c_assert (STDERR_FILENO < s) (c_assert (0 < address_size) (c_assert (tid \<noteq> 0)
       (Sys (File (Open path (O_WRONLY OR O_CREAT OR O_EXCL) 438)) (\<lambda>file.
          if ret file = -1 then
            (case errno file of
               EEXIST \<Rightarrow> bind (send_error s ERROR_FILE_EXISTS address address_size) (\<lambda>_. Ret False)
             | EPERM \<Rightarrow> bind (send_error s ERROR_ACCESS_VIOLATION address address_size) (\<lambda>_. Ret False)
             | EACCES \<Rightarrow> bind (send_error s ERROR_ACCESS_VIOLATION address address_size) (\<lambda>_. Ret False)
             | _ \<Rightarrow> Ret False)
          else
            Sys (Net (Sendto s (ack_packet 0) address)) (\<lambda>a.
              if ret a \<noteq> 4 then Ret False
              else wrq_body n s (ret file) path address address_size tid)))))"

section \<open>Downloads\<close>

definition rrq_ack ::
  "fd \<Rightarrow> sockaddr \<Rightarrow> nat \<Rightarrow> u16 \<Rightarrow> u16 \<Rightarrow> u16 \<Rightarrow> int \<Rightarrow> ((u16 \<times> u16) + transfer_exit) prog" where
  "rrq_ack s address address_size tid block ack_tid0 sent =
     Sys (Net (Recvfrom s 4)) (\<lambda>a. if ret a \<noteq> 4 then Ret (Inr Close_file) else
     if htons PACKET_TYPE_ACK \<noteq> packet_opcode (out a) then Ret (Inr Close_file) else
     if htons block \<noteq> packet_id (out a) then Ret (Inr Close_file) else
     (let ack_tid = sa_port (sender a) ack_tid0 in
      if tid \<noteq> ack_tid then
        bind (send_error s ERROR_UNKNOWN_TID address address_size) (\<lambda>_. Ret (Inr Close_file))
      else if sent = int DATA_SIZE then Ret (Inl (block, ack_tid))
      else Ret (Inr Finished)))"

definition rrq_round ::
  "fd \<Rightarrow> fd \<Rightarrow> sockaddr \<Rightarrow> nat \<Rightarrow> u16 \<Rightarrow> u16 \<times> u16 \<Rightarrow> ((u16 \<times> u16) + transfer_exit) prog" where
  "rrq_round s file address address_size tid st =
     (case st of (block0, ack_tid0) \<Rightarrow>
      Sys (File (Read file CHUNK_SIZE)) (\<lambda>r. if ret r = -1 then Ret (Inr Close_file) else
      (let block = block0 + 1; sent = ret r + 4 in
       Sys (Net (Sendto s (data_packet (htons block) (out r)) address)) (\<lambda>d.
         if sent \<noteq> ret d then Ret (Inr End)
         else rrq_ack s address address_size tid block ack_tid0 sent))))"

definition handle_rrq :: "nat \<Rightarrow> fd \<Rightarrow> string \<Rightarrow> sockaddr \<Rightarrow> nat \<Rightarrow> u16 \<Rightarrow> bool prog" where
  "handle_rrq n s path address address_size tid =
     c_assert (STDERR_FILENO < s) (c_assert (0 < address_size) (c_assert (tid \<noteq> 0)
       (Sys (File (Open path O_RDONLY 0)) (\<lambda>file.
          if ret file = -1 then
            (case errno file of
               ENOENT \<Rightarrow> bind (send_error s ERROR_FILE_NOT_FOUND address address_size) (\<lambda>_. Ret False)
             | EPERM \<Rightarrow> bind (send_error s ERROR_ACCESS_VIOLATION address address_size) (\<lambda>_. Ret False)
             | EACCES \<Rightarrow> bind (send_error s ERROR_ACCESS_VIOLATION address address_size) (\<lambda>_. Ret False)
             | EROFS \<Rightarrow> bind (send_error s ERROR_ACCESS_VIOLATION address address_size) (\<lambda>_. Ret False)
             | _ \<Rightarrow> Ret False)
          else
            bind (loop n (rrq_round s (ret file) address address_size tid) (0, 0)) (\<lambda>e.
              if e = End then Ret False
              else Sys (File (Close (ret file))) (\<lambda>_. Ret (e = Finished)))))))"

end
