(* ===== verification/Monitor.thy ===== *)
theory Monitor
  imports Sys
begin

text \<open>
  Monitors that read a trace as the history of the resources a process holds: descriptors,
  allocations. A program that ends with nothing held has leaked nothing. And what a trace says
  of the data that passed through it.
\<close>

section \<open>Held resources\<close>

definition held_step :: "(event \<Rightarrow> int set) \<Rightarrow> (event \<Rightarrow> int set) \<Rightarrow> int set \<Rightarrow> event \<Rightarrow> int set" where
  "held_step acq rel S e = (S - rel e) \<union> acq e"

definition held :: "(event \<Rightarrow> int set) \<Rightarrow> (event \<Rightarrow> int set) \<Rightarrow> event list \<Rightarrow> int set" where
  "held acq rel t = foldl (held_step acq rel) {} t"

lemma held_Nil [simp]: "held acq rel [] = {}"
  by (simp add: held_def)

lemma held_snoc [simp]: "held acq rel (t @ [e]) = held_step acq rel (held acq rel t) e"
  by (simp add: held_def)

lemma held_snoc_Cons: "held acq rel (t @ e # u) = held acq rel ((t @ [e]) @ u)"
  by simp

section \<open>Descriptors\<close>

definition fd_acquired :: "event \<Rightarrow> int set" where
  "fd_acquired e = (case e of
     (File (Open p fl m), r) \<Rightarrow> if ret r = -1 then {} else {ret r}
   | (Net (Socket a b c), r) \<Rightarrow> if ret r = -1 then {} else {ret r}
   | _ \<Rightarrow> {})"

definition fd_released :: "event \<Rightarrow> int set" where
  "fd_released e = (case e of (File (Close f), r) \<Rightarrow> {f} | _ \<Rightarrow> {})"

definition open_fds :: "event list \<Rightarrow> int set" where
  "open_fds t = held fd_acquired fd_released t"

lemma open_fds_Nil [simp]: "open_fds [] = {}"
  by (simp add: open_fds_def)

lemma open_fds_snoc:
  "open_fds (t @ [e]) = (open_fds t - fd_released e) \<union> fd_acquired e"
  by (simp add: open_fds_def held_step_def)

lemma open_fds_append:
  "open_fds (t @ u) = foldl (held_step fd_acquired fd_released) (open_fds t) u"
  by (simp add: open_fds_def held_def)

section \<open>Allocations\<close>

text \<open>A successful \<^verbatim>\<open>realloc\<close> gives the old block up and hands out a new one.\<close>

definition mem_acquired :: "event \<Rightarrow> int set" where
  "mem_acquired e = (case e of
     (Lib (Malloc n), r) \<Rightarrow> if ret r = 0 then {} else {ret r}
   | (Lib (Strdup s), r) \<Rightarrow> if ret r = 0 then {} else {ret r}
   | (Lib (Realloc p n), r) \<Rightarrow> if ret r = 0 then {} else {ret r}
   | _ \<Rightarrow> {})"

definition mem_released :: "event \<Rightarrow> int set" where
  "mem_released e = (case e of
     (Lib (Free p), r) \<Rightarrow> {p}
   | (Lib (Realloc p n), r) \<Rightarrow> if ret r = 0 then {} else {p}
   | _ \<Rightarrow> {})"

definition allocated :: "event list \<Rightarrow> int set" where
  "allocated t = held mem_acquired mem_released t"

lemma allocated_Nil [simp]: "allocated [] = {}"
  by (simp add: allocated_def)

lemma allocated_snoc:
  "allocated (t @ [e]) = (allocated t - mem_released e) \<union> mem_acquired e"
  by (simp add: allocated_def held_step_def)

lemma allocated_append:
  "allocated (t @ u) = foldl (held_step mem_acquired mem_released) (allocated t) u"
  by (simp add: allocated_def held_def)

text \<open>Descriptor events, read one by one.\<close>

lemma fd_step [simp]:
  "held_step fd_acquired fd_released S (File (Open p fl m), r) =
     (if ret r = -1 then S else insert (ret r) S)"
  "held_step fd_acquired fd_released S (File (Close f), r) = S - {f}"
  "held_step fd_acquired fd_released S (File (Read f n2), r) = S"
  "held_step fd_acquired fd_released S (File (Write f b n), r) = S"
  "held_step fd_acquired fd_released S (File (Unlink p), r) = S"
  "held_step fd_acquired fd_released S (File (Fcntl f x), r) = S"
  "held_step fd_acquired fd_released S (File (Ioctl f i), r) = S"
  "held_step fd_acquired fd_released S (File (Stat p), r) = S"
  "held_step fd_acquired fd_released S (File (Lseek f j), r) = S"
  "held_step fd_acquired fd_released S (File (Mmap f n1), r) = S"
  "held_step fd_acquired fd_released S (File (Munmap n1), r) = S"
  "held_step fd_acquired fd_released S (File (Dup f), r) = S"
  "held_step fd_acquired fd_released S (File (Dup2 f g), r) = S"
  "held_step fd_acquired fd_released S (File (Sendfile f g n1), r) = S"
  "held_step fd_acquired fd_released S (Net (Socket i1 i2 i3), r) =
     (if ret r = -1 then S else insert (ret r) S)"
  "held_step fd_acquired fd_released S (Net (Sendto f q sa), r) = S"
  "held_step fd_acquired fd_released S (Net (Recvfrom f n3), r) = S"
  "held_step fd_acquired fd_released S (Net (Bind f sa), r) = S"
  "held_step fd_acquired fd_released S (Proc q', r) = S"
  "held_step fd_acquired fd_released S (Signal g', r) = S"
  "held_step fd_acquired fd_released S (Kern k, r) = S"
  "held_step fd_acquired fd_released S (Lib l, r) = S"
  by (auto simp: held_step_def fd_acquired_def fd_released_def)

text \<open>Allocation events, read one by one.\<close>

lemma mem_step [simp]:
  "held_step mem_acquired mem_released S (File c, r) = S"
  "held_step mem_acquired mem_released S (Net n, r) = S"
  "held_step mem_acquired mem_released S (Proc q', r) = S"
  "held_step mem_acquired mem_released S (Signal g', r) = S"
  "held_step mem_acquired mem_released S (Kern k, r) = S"
  "held_step mem_acquired mem_released S (Lib (Free p), r) = S - {p}"
  "held_step mem_acquired mem_released S (Lib (Malloc n1), r) =
     (if ret r = 0 then S else insert (ret r) S)"
  "held_step mem_acquired mem_released S (Lib (Strdup s), r) =
     (if ret r = 0 then S else insert (ret r) S)"
  "held_step mem_acquired mem_released S (Lib (Realloc p n2), r) =
     (if ret r = 0 then S else insert (ret r) (S - {p}))"
  "held_step mem_acquired mem_released S (Lib (Syslog l s), r) = S"
  "held_step mem_acquired mem_released S (Lib (Print s), r) = S"
  "held_step mem_acquired mem_released S (Lib (Openlog s), r) = S"
  "held_step mem_acquired mem_released S (Lib Closelog, r) = S"
  by (auto simp: held_step_def mem_acquired_def mem_released_def)

lemmas monitor_events =
  fd_acquired_def fd_released_def mem_acquired_def mem_released_def

section \<open>Reading a trace\<close>

text \<open>
  The datagrams received and sent on a socket, the bytes written to a file (as many of each
  write as the call reports), the paths deleted.
\<close>

definition received :: "fd \<Rightarrow> event list \<Rightarrow> reply list" where
  "received s t = concat (map (\<lambda>e. case e of
     (Net (Recvfrom s' n), r) \<Rightarrow> if s' = s \<and> ret r \<noteq> -1 then [r] else [] | _ \<Rightarrow> []) t)"

definition sent :: "fd \<Rightarrow> event list \<Rightarrow> buffer list" where
  "sent s t = concat (map (\<lambda>e. case e of
     (Net (Sendto s' p a), r) \<Rightarrow> if s' = s then [p] else [] | _ \<Rightarrow> []) t)"

definition written :: "fd \<Rightarrow> event list \<Rightarrow> buffer" where
  "written f t = concat (map (\<lambda>e. case e of
     (File (Write f' b n), r) \<Rightarrow> if f' = f \<and> ret r \<noteq> -1 then take (nat (ret r)) b else [] | _ \<Rightarrow> []) t)"

definition deleted :: "event list \<Rightarrow> string list" where
  "deleted t = concat (map (\<lambda>e. case e of (File (Unlink p), r) \<Rightarrow> [p] | _ \<Rightarrow> []) t)"

lemma received_append [simp]: "received s (t @ u) = received s t @ received s u"
  by (simp add: received_def)
lemma sent_append [simp]: "sent s (t @ u) = sent s t @ sent s u"
  by (simp add: sent_def)
lemma written_append [simp]: "written f (t @ u) = written f t @ written f u"
  by (simp add: written_def)
lemma deleted_append [simp]: "deleted (t @ u) = deleted t @ deleted u"
  by (simp add: deleted_def)

lemma trace_Nil [simp]: "received s [] = []" "sent s [] = []" "written f [] = []" "deleted [] = []"
  by (simp_all add: received_def sent_def written_def deleted_def)

lemma trace_File [simp]:
  "received s ((File c, r) # t) = received s t"
  "sent s ((File c, r) # t) = sent s t"
  "written f ((File c, r) # t) =
     (case c of Write f' b n \<Rightarrow> if f' = f \<and> ret r \<noteq> -1 then take (nat (ret r)) b else [] | _ \<Rightarrow> []) @
       written f t"
  "deleted ((File c, r) # t) = (case c of Unlink p \<Rightarrow> [p] | _ \<Rightarrow> []) @ deleted t"
  by (simp_all add: received_def sent_def written_def deleted_def split: file_call.splits)

lemma trace_Net [simp]:
  "received s ((Net c, r) # t) =
     (case c of Recvfrom s' n \<Rightarrow> if s' = s \<and> ret r \<noteq> -1 then [r] else [] | _ \<Rightarrow> []) @ received s t"
  "sent s ((Net c, r) # t) = (case c of Sendto s' p a \<Rightarrow> if s' = s then [p] else [] | _ \<Rightarrow> []) @ sent s t"
  "written f ((Net c, r) # t) = written f t"
  "deleted ((Net c, r) # t) = deleted t"
  by (simp_all add: received_def sent_def written_def deleted_def split: net_call.splits)

lemma trace_other [simp]:
  "received s ((Lib l, r) # t) = received s t" "received s ((Proc q', r) # t) = received s t"
  "received s ((Signal g', r) # t) = received s t" "received s ((Kern k, r) # t) = received s t"
  "sent s ((Lib l, r) # t) = sent s t" "sent s ((Proc q', r) # t) = sent s t"
  "sent s ((Signal g', r) # t) = sent s t" "sent s ((Kern k, r) # t) = sent s t"
  "written f ((Lib l, r) # t) = written f t" "written f ((Proc q', r) # t) = written f t"
  "written f ((Signal g', r) # t) = written f t" "written f ((Kern k, r) # t) = written f t"
  by (simp_all add: received_def sent_def written_def)

text \<open>
  \<^verbatim>\<open>recvfrom(2)\<close> returns the number of bytes it stored, at most the size of the buffer.
\<close>

definition recv_ok :: "event \<Rightarrow> bool" where
  "recv_ok e = (case e of
     (Net (Recvfrom s n), r) \<Rightarrow> ret r = -1 \<or> ret r = int (length (out r)) \<and> length (out r) \<le> n
   | _ \<Rightarrow> True)"

text \<open>A part of a program that neither writes to a file nor receives leaves both histories as they are.\<close>

definition quiet :: "syscall \<Rightarrow> bool" where
  "quiet c \<longleftrightarrow> (case c of File (Write f b n) \<Rightarrow> False | Net (Recvfrom s n) \<Rightarrow> False | _ \<Rightarrow> True)"

lemma quiet_simps [simp]:
  "quiet (File c) \<longleftrightarrow> (case c of Write f b n \<Rightarrow> False | _ \<Rightarrow> True)"
  "quiet (Net d) \<longleftrightarrow> (case d of Recvfrom s n \<Rightarrow> False | _ \<Rightarrow> True)"
  "quiet (Proc p)" "quiet (Signal g)" "quiet (Kern k)" "quiet (Lib l)"
  by (simp_all add: quiet_def)

lemma quiet_trace: "list_all (\<lambda>e. quiet (fst e)) t \<Longrightarrow> written f t = [] \<and> received s t = []"
proof (induction t)
  case (Cons e t)
  obtain c r where "e = (c, r)" by (cases e)
  with Cons show ?case by (cases c) (auto split: file_call.splits net_call.splits)
qed simp

lemma quiet_execs:
  "execs p t z \<Longrightarrow> issues_only quiet p \<Longrightarrow> written f t = [] \<and> received s t = []"
  by (rule quiet_trace) (auto simp: list_all_iff dest: issues_onlyD)

section \<open>Before a program runs\<close>

definition executes :: "syscall \<Rightarrow> bool" where
  "executes c \<longleftrightarrow> (case c of Proc (Exec f argv) \<Rightarrow> True | _ \<Rightarrow> False)"

text \<open>\<open>runs_after P t\<close>: every program run in \<open>t\<close> is run after a trace that satisfies \<open>P\<close>.\<close>

definition runs_after :: "(event list \<Rightarrow> string \<Rightarrow> string list \<Rightarrow> bool) \<Rightarrow> event list \<Rightarrow> bool" where
  "runs_after P t \<longleftrightarrow> (\<forall>u f argv r v. t = u @ (Proc (Exec f argv), r) # v \<longrightarrow> P u f argv)"

lemma runs_after_none: "list_all (\<lambda>e. \<not> executes (fst e)) t \<Longrightarrow> runs_after P t"
  by (auto simp: runs_after_def executes_def)

lemma runs_after_last:
  "list_all (\<lambda>e. \<not> executes (fst e)) t \<Longrightarrow> P t f argv \<Longrightarrow> runs_after P (t @ [(Proc (Exec f argv), r)])"
  by (auto simp: runs_after_def executes_def append_eq_append_conv2 append_eq_Cons_conv Cons_eq_append_conv)

lemma runs_after_wpD:
  "wp p (\<lambda>t z. runs_after P t) [] \<Longrightarrow> execs p (u @ (Proc (Exec f argv), r) # v) z \<Longrightarrow> P u f argv"
  using execs_wp [of p "u @ (Proc (Exec f argv), r) # v" z "\<lambda>t z. runs_after P t"]
  by (simp add: runs_after_def)

text \<open>Given calls, all of them successful.\<close>

definition all_done :: "syscall list \<Rightarrow> event list \<Rightarrow> bool" where
  "all_done cs t \<longleftrightarrow> map fst t = cs \<and> list_all (\<lambda>e. ret (snd e) \<noteq> -1) t"


section \<open>Reading a regular file\<close>

text \<open>
  The documented behaviour of \<^verbatim>\<open>read(2)\<close> on a regular file: each successful read returns the
  next bytes, as many as asked for unless the file ends. \<open>unread f F t\<close> is what is left of a
  file with contents \<open>F\<close> after the reads of \<open>t\<close>, and \<open>None\<close> if a read broke this rule.
\<close>

definition read_step :: "fd \<Rightarrow> buffer \<Rightarrow> event \<Rightarrow> buffer option" where
  "read_step f F e = (case e of
     (File (Read f' n), r) \<Rightarrow>
       if f' = f \<and> ret r \<noteq> -1 then
         (if ret r = int (length (out r)) \<and> out r = take n F then Some (drop n F) else None)
       else Some F
   | _ \<Rightarrow> Some F)"

definition unread :: "fd \<Rightarrow> buffer \<Rightarrow> event list \<Rightarrow> buffer option" where
  "unread f F t = foldl (\<lambda>s e. Option.bind s (\<lambda>F. read_step f F e)) (Some F) t"

lemma unread_Nil [simp]: "unread f F [] = Some F"
  by (simp add: unread_def)

lemma foldl_bind_None [simp]: "foldl (\<lambda>s e. Option.bind s (\<lambda>F. read_step f F e)) None t = None"
  by (induction t) auto

lemma unread_Cons [simp]: "unread f F (e # t) = Option.bind (read_step f F e) (\<lambda>F. unread f F t)"
  by (cases "read_step f F e") (auto simp: unread_def)

lemma unread_append [simp]: "unread f F (t @ u) = Option.bind (unread f F t) (\<lambda>F. unread f F u)"
  by (induction t arbitrary: F) (auto simp: Option.bind_assoc)

lemma unread_prefix: "unread f F (t @ u) \<noteq> None \<Longrightarrow> unread f F t \<noteq> None"
  by (cases "unread f F t") auto

lemma unread_prefix_Some: "unread f F (t @ u) = Some y \<Longrightarrow> \<exists>y. unread f F t = Some y"
  using unread_prefix [of f F t u] by simp

lemma read_step_Net [simp]: "read_step f F (Net c, r) = Some F"
  by (simp add: read_step_def)

lemma read_step_File [simp]:
  "read_step f F (File (Close x), r) = Some F"
  "read_step f F (File (Open p fl m), r) = Some F"
  "read_step f F (File (Unlink p), r) = Some F"
  "read_step f F (File (Write x b n), r) = Some F"
  "read_step f F (Lib l, r) = Some F"
  "read_step f F (File (Read f n), r) =
     (if ret r = -1 then Some F
      else if ret r = int (length (out r)) \<and> out r = take n F then Some (drop n F) else None)"
  by (simp_all add: read_step_def)

end
