(* ===== verification/Tftp_Upload.thy ===== *)
theory Tftp_Upload
  imports Tftp_Transfer Monitor
begin

text \<open>
  What an upload stores, and what is left of a failed one.
\<close>

definition upload_ok :: "event list \<Rightarrow> bool" where
  "upload_ok t \<longleftrightarrow> list_all recv_ok t"

lemma upload_ok_append [simp]: "upload_ok (t @ u) \<longleftrightarrow> upload_ok t \<and> upload_ok u"
  by (auto simp: upload_ok_def)

lemma upload_ok_simps [simp]:
  "upload_ok []"
  "upload_ok ((File c, r) # t) \<longleftrightarrow> upload_ok t"
  "upload_ok ((Net (Sendto s' p x), r) # t) \<longleftrightarrow> upload_ok t"
  "upload_ok ((Net (Recvfrom s n), r) # t) \<longleftrightarrow>
     (ret r = -1 \<or> ret r = int (length (out r)) \<and> length (out r) \<le> n) \<and> upload_ok t"
  by (auto simp: upload_ok_def recv_ok_def)

section \<open>Packets inside the receive buffer\<close>

lemma packet_overwrite:
  assumes "4 \<le> length p"
  shows "packet_opcode (overwrite c p) = packet_opcode p"
    and "packet_id (overwrite c p) = packet_id p"
    and "take (length p - 4) (packet_payload (overwrite c p)) = packet_payload p"
  using assms
  by (auto simp: packet_opcode_def packet_id_def packet_payload_def overwrite_def load16_def
      nth_append)

lemma stored_payload:
  assumes "int (length p) - 4 = n"
  shows "take (nat n) (packet_payload (overwrite c p)) = packet_payload p"
proof (cases "4 \<le> length p")
  case True
  with assms have "nat n = length p - 4" by arith
  with packet_overwrite(3) [OF True] show ?thesis by simp
next
  case False
  with assms show ?thesis by (simp add: packet_payload_def)
qed

lemma short_payload: "length p = 3 \<Longrightarrow> packet_payload p = []"
  by (simp add: packet_payload_def)

lemma stored_full:
  "length p = 516 \<Longrightarrow> take 512 (packet_payload (overwrite c p)) = packet_payload p"
  using packet_overwrite(3) [of p c] by simp

lemma sa_port_again [simp]: "sa_port x (sa_port x p) = sa_port x p"
  by (cases x) auto

lemma size_t_of_nonneg [simp]: "0 \<le> n \<Longrightarrow> n < 2 ^ 64 \<Longrightarrow> size_t_of n = nat n"
  by (simp add: size_t_of_def)

section \<open>The transfer loop\<close>

definition upload_inv :: "fd \<Rightarrow> fd \<Rightarrow> u16 \<Rightarrow> event list \<Rightarrow> bool" where
  "upload_inv s file tid t \<longleftrightarrow>
     (let ps = map out (received s t) in
      written file t = concat (map packet_payload ps) \<and>
      sent s t = ack_packet 0 # map (\<lambda>p. ack_packet (packet_id p)) ps \<and>
      list_all (\<lambda>p. packet_opcode p = htons PACKET_TYPE_DATA) ps \<and>
      list_all (\<lambda>r. sa_port (sender r) tid = tid) (received s t))"

definition all_full :: "fd \<Rightarrow> event list \<Rightarrow> bool" where
  "all_full s t \<longleftrightarrow> list_all (\<lambda>r. length (out r) = DATA_SIZE) (received s t)"

text \<open>
  The end of an upload: full datagrams \<open>rs\<close> and a shorter one \<open>r\<close>. When \<open>r\<close> lacks a part of the
  header, the missing bytes are those of the datagram before it.
\<close>

definition upload_end :: "fd \<Rightarrow> fd \<Rightarrow> u16 \<Rightarrow> event list \<Rightarrow> reply list \<Rightarrow> reply \<Rightarrow> buffer \<Rightarrow> bool" where
  "upload_end s file tid t rs r a \<longleftrightarrow> received s t = rs @ [r] \<and>
     written file t = concat (map (\<lambda>r. packet_payload (out r)) (rs @ [r])) \<and>
     sent s t = ack_packet 0 # map (\<lambda>r. ack_packet (packet_id (out r))) rs @ [a] \<and>
     list_all (\<lambda>r. packet_opcode (out r) = htons PACKET_TYPE_DATA) rs \<and>
     list_all (\<lambda>r. sa_port (sender r) tid = tid) (rs @ [r]) \<and>
     list_all (\<lambda>r. length (out r) = DATA_SIZE) rs \<and> length (out r) < DATA_SIZE \<and>
     (4 \<le> length (out r) \<longrightarrow>
        a = ack_packet (packet_id (out r)) \<and> packet_opcode (out r) = htons PACKET_TYPE_DATA)"

definition upload_done :: "fd \<Rightarrow> fd \<Rightarrow> u16 \<Rightarrow> event list \<Rightarrow> bool" where
  "upload_done s file tid t \<longleftrightarrow> (\<exists>rs r a. upload_end s file tid t rs r a)"

lemma wrq_round_wp:
  assumes inv: "upload_ok t \<longrightarrow> upload_inv s file tid t \<and> all_full s t \<and> (ctid = 0 \<or> ctid = tid)"
    and del: "deleted t = []" and tid: "tid \<noteq> 0"
  shows "wp (wrq_round s file address alen tid (chunk, ctid)) (\<lambda>t' z. deleted t' = [] \<and> (case z of
      Returned (Inl (chunk', ctid')) \<Rightarrow>
        upload_ok t' \<longrightarrow> upload_inv s file tid t' \<and> all_full s t' \<and> (ctid' = 0 \<or> ctid' = tid)
    | Returned (Inr Finished) \<Rightarrow> upload_ok t' \<longrightarrow> upload_done s file tid t'
    | _ \<Rightarrow> True)) t"
  unfolding wrq_round_def wrq_store_def send_error_def prod.case
  by (intro wp_intros; use inv del tid in simp)
    (auto simp: packet_overwrite stored_payload short_payload stored_full upload_inv_def all_full_def DATA_SIZE_def
      CHUNK_SIZE_def Let_def upload_done_def upload_end_def comp_def list_all_iff
      intro!: exI [of _ "received s t"])

lemma wrq_loop_wp:
  assumes "tid \<noteq> 0" and "received s t = []" and "written file t = []" and "deleted t = []"
    and "sent s t = [ack_packet 0]"
  shows "wp (loop n (wrq_round s file address alen tid) (c, 0)) (\<lambda>t' z. deleted t' = [] \<and>
      (z = Returned Finished \<longrightarrow> upload_ok t' \<longrightarrow> upload_done s file tid t')) t"
  by (rule wp_loop [where I = "\<lambda>t st. deleted t = [] \<and> (upload_ok t \<longrightarrow>
        upload_inv s file tid t \<and> all_full s t \<and> (snd st = 0 \<or> snd st = tid))"])
    (use assms in \<open>auto simp: upload_inv_def all_full_def
      intro!: wp_mono [OF wrq_round_wp] split: outcome.splits sum.splits transfer_exit.splits\<close>)

text \<open>
  The two ways \<open>handle_wrq\<close> reports success or failure once the file was created and the first
  acknowledgment is out.
\<close>

lemma upload_done_close [simp]:
  "upload_done s file tid (t @ [(File (Close f), r)]) \<longleftrightarrow> upload_done s file tid t"
  by (simp add: upload_done_def upload_end_def)

lemma wrq_body_wp:
  assumes "tid \<noteq> 0" and "received s t = []" and "written file t = []" and "deleted t = []"
    and "sent s t = [ack_packet 0]"
  shows "wp (wrq_body n s file path address alen tid) (\<lambda>t' z. case z of
      Returned True \<Rightarrow> deleted t' = [] \<and> (upload_ok t' \<longrightarrow> upload_done s file tid t')
    | Returned False \<Rightarrow> deleted t' = [path] \<and>
        (\<exists>u r r'. t' = u @ [(File (Close file), r), (File (Unlink path), r')])
    | Halted h \<Rightarrow> deleted t' = []) t"
  unfolding wrq_body_def
  by (rule wp_bindI [OF wrq_loop_wp [OF assms]]) auto

text \<open>How \<open>handle_wrq\<close> reaches its transfer loop.\<close>

definition create_call :: "string \<Rightarrow> syscall" where
  "create_call path = File (Open path (O_WRONLY OR O_CREAT OR O_EXCL) 438)"

lemma handle_wrq_True:
  assumes "execs (handle_wrq n s path address alen tid) t (Returned True)"
  obtains f a u where "t = [(create_call path, f), (Net (Sendto s (ack_packet 0) address), a)] @ u"
    "ret f \<noteq> -1" "tid \<noteq> 0"
    "execs (wrq_body n s (ret f) path address alen tid) u (Returned True)"
  using assms
  by (auto simp: handle_wrq_def c_assert_def send_error_def create_call_def execs_Sys
      split: if_splits errno.splits)

lemma upload_start:
  "received s [(create_call path, f), (Net (Sendto s p address), a)] = []"
  "written file [(create_call path, f), (Net (Sendto s p address), a)] = []"
  "deleted [(create_call path, f), (Net (Sendto s p address), a)] = []"
  "sent s [(create_call path, f), (Net (Sendto s p address), a)] = [p]"
  by (simp_all add: create_call_def)

text \<open>What a successful upload has stored, acknowledged and left behind.\<close>

lemma wrq_True:
  assumes "execs (handle_wrq n s path address alen tid) t (Returned True)" and "list_all recv_ok t"
  shows "\<exists>f u rs r a. t = (create_call path, f) # u \<and> upload_end s (ret f) tid t rs r a \<and> deleted t = []"
proof -
  from assms(1) obtain f a u where
    t: "t = [(create_call path, f), (Net (Sendto s (ack_packet 0) address), a)] @ u"
    and tid: "tid \<noteq> 0"
    and ex: "execs (wrq_body n s (ret f) path address alen tid) u (Returned True)"
    by (rule handle_wrq_True)
  from assms(2) t have "upload_ok ([(create_call path, f), (Net (Sendto s (ack_packet 0) address), a)] @ u)"
    by (simp add: upload_ok_def)
  with wpD [OF ex wrq_body_wp [OF tid upload_start]] t show ?thesis
    unfolding upload_done_def by auto
qed

text \<open>
  Every round of the upload loop takes one datagram, and goes round again only after a full
  block was stored: an upload that is still running has stored as many full blocks as rounds.
\<close>

definition stored_blocks :: "fd \<Rightarrow> event list \<Rightarrow> nat" where
  "stored_blocks f t = length (filter (\<lambda>e. case e of
     (File (Write f' b n), r) \<Rightarrow> f' = f \<and> ret r = int CHUNK_SIZE | _ \<Rightarrow> False) t)"

lemma stored_blocks_append [simp]: "stored_blocks f (t @ u) = stored_blocks f t + stored_blocks f u"
  by (simp add: stored_blocks_def)

lemma stored_blocks_simps [simp]:
  "stored_blocks f [] = 0"
  "stored_blocks f ((Net c, r) # t) = stored_blocks f t"
  "stored_blocks f ((File (Write f b n), r) # t) =
     (if ret r = int CHUNK_SIZE then 1 else 0) + stored_blocks f t"
  "stored_blocks f ((File (Open p fl m), r) # t) = stored_blocks f t"
  "stored_blocks f ((File (Close g), r) # t) = stored_blocks f t"
  "stored_blocks f ((File (Unlink p), r) # t) = stored_blocks f t"
  by (simp_all add: stored_blocks_def)

lemma wrq_loop_running:
  "execs (loop n (wrq_round s file address alen tid) st) t (Halted Running) \<Longrightarrow>
     stored_blocks file t = n"
proof (induction n arbitrary: st t)
  case 0
  then show ?case by simp
next
  case (Suc n)
  have round: "wp (wrq_round s file address alen tid st) (\<lambda>t z. case z of
      Returned (Inl _) \<Rightarrow> stored_blocks file t = 1 | Returned (Inr _) \<Rightarrow> True | Halted h \<Rightarrow> h \<noteq> Running) []"
    unfolding wrq_round_def wrq_store_def send_error_def
    by (cases st; simp only: prod.case; intro wp_intros; simp)
  from Suc.prems show ?case
    unfolding loop.simps
  proof (cases rule: execs_bindE)
    case (returned t1 t2 x)
    then obtain st' where "x = Inl st'" by (cases x) auto
    with returned Suc.IH wpD [OF returned(2) round] show ?thesis by simp
  next
    case (halted h)
    with wpD [OF halted(1) round] show ?thesis by auto
  qed
qed

section \<open>Properties\<close>

text \<open>
  C1: when recvfrom reports the bytes it stored, an upload that succeeds has created the file,
  written exactly the payloads of the datagrams it received, in order, and deleted nothing; it
  stopped at the first datagram shorter than 516 bytes, and every datagram came from the
  client's transfer identifier. After a first acknowledgment 0 each datagram was acknowledged,
  by its block number, and was a data packet; for the last one these two hold when it has the
  four bytes of a header.
\<close>

theorem wrq_stores_upload:
  assumes "execs (handle_wrq n s path address alen tid) t (Returned True)" and "list_all recv_ok t"
  shows "\<exists>f u rs r a. t = (create_call path, f) # u \<and> received s t = rs @ [r] \<and>
    written (ret f) t = concat (map (\<lambda>r. packet_payload (out r)) (rs @ [r])) \<and>
    sent s t = ack_packet 0 # map (\<lambda>r. ack_packet (packet_id (out r))) rs @ [a] \<and>
    list_all (\<lambda>r. packet_opcode (out r) = htons PACKET_TYPE_DATA) rs \<and>
    list_all (\<lambda>r. sa_port (sender r) tid = tid) (rs @ [r]) \<and>
    list_all (\<lambda>r. length (out r) = DATA_SIZE) rs \<and> length (out r) < DATA_SIZE \<and>
    (4 \<le> length (out r) \<longrightarrow>
       a = ack_packet (packet_id (out r)) \<and> packet_opcode (out r) = htons PACKET_TYPE_DATA) \<and>
    deleted t = []"
  using wrq_True [OF assms] unfolding upload_end_def by blast

definition upload_replies :: "reply list" where
  "upload_replies =
     [returns 4, returns 4,
      (delivers (data_packet (htons 1) ''hi''))\<lparr>sender := Sin 7 1\<rparr>, returns 2, returns 4, returns 0]"

definition upload_example :: "event list \<times> bool outcome" where
  "upload_example = run (handle_wrq 1 3 ''notes'' (Sin 7 1) 16 7) upload_replies"

lemma upload_example_ok: "snd upload_example = Returned True"
  by code_simp

theorem wrq_stores_upload_witness:
  "\<exists>f u rs (r :: reply). fst upload_example = (create_call ''notes'', f) # u \<and>
    written (ret f) (fst upload_example) = concat (map (\<lambda>r. packet_payload (out r)) (rs @ [r]))"
proof -
  have ex: "execs (handle_wrq 1 3 ''notes'' (Sin 7 1) 16 7) (fst upload_example) (Returned True)"
    using upload_example_ok unfolding upload_example_def by (rule run_trace) simp
  have recv: "list_all recv_ok (fst upload_example)" by code_simp
  from wrq_stores_upload [OF ex recv] obtain f u rs and r :: reply
    where "fst upload_example = (create_call ''notes'', f) # u"
      "written (ret f) (fst upload_example) = concat (map (\<lambda>r. packet_payload (out r)) (rs @ [r]))"
    by blast
  then show ?thesis by blast
qed

text \<open>The error packet the code answers with when the file cannot be created.\<close>

definition create_error :: "errno \<Rightarrow> buffer list" where
  "create_error e = (case e of EEXIST \<Rightarrow> [g_file_exists] | EPERM \<Rightarrow> [g_access_violation]
     | EACCES \<Rightarrow> [g_access_violation] | _ \<Rightarrow> [])"

text \<open>
  C2: an upload that fails either could not create the file, and has then answered with an
  error packet when the file exists (EEXIST) or access is denied (EPERM, EACCES) and with
  nothing for any other cause, or could not send its first acknowledgment and made no further
  call, or ends by closing the file and deleting it.
\<close>

theorem wrq_failure:
  assumes "execs (handle_wrq n s path address alen tid) t (Returned False)"
  shows "\<exists>f u. t = (create_call path, f) # u \<and>
    (if ret f = -1 then
       map fst u = map (\<lambda>p. Net (Sendto s p address)) (create_error (errno f))
     else
       (\<exists>a. u = [(Net (Sendto s (ack_packet 0) address), a)] \<and> ret a \<noteq> 4) \<or>
       deleted t = [path] \<and>
         (\<exists>v r r'. t = v @ [(File (Close (ret f)), r), (File (Unlink path), r')]))"
proof -
  let ?ack = "(Net (Sendto s (ack_packet 0) address))"
  let ?rest = "\<lambda>f. Sys ?ack (\<lambda>a. if ret a \<noteq> 4 then Ret False
     else wrq_body n s (ret f) path address alen tid)"
  from assms obtain f u where t: "t = (create_call path, f) # u" and tid: "tid \<noteq> 0"
    and failed: "ret f = -1 \<Longrightarrow> execs (case errno f of
               EEXIST \<Rightarrow> bind (send_error s ERROR_FILE_EXISTS address alen) (\<lambda>_. Ret False)
             | EPERM \<Rightarrow> bind (send_error s ERROR_ACCESS_VIOLATION address alen) (\<lambda>_. Ret False)
             | EACCES \<Rightarrow> bind (send_error s ERROR_ACCESS_VIOLATION address alen) (\<lambda>_. Ret False)
             | _ \<Rightarrow> Ret False) u (Returned False)"
    and rest: "ret f \<noteq> -1 \<Longrightarrow> execs (?rest f) u (Returned False)"
    by (auto simp: handle_wrq_def c_assert_def create_call_def execs_Sys [of "File _"] split: if_splits)
  have body: "deleted t = [path] \<and>
      (\<exists>v r r'. t = v @ [(File (Close (ret f)), r), (File (Unlink path), r')])"
    if "execs (wrq_body n s (ret f) path address alen tid) v (Returned False)" and "u = (?ack, a) # v" for a v
    using wpD [OF that(1) wrq_body_wp [OF tid upload_start]] t that(2) by simp
  show ?thesis
  proof (cases "ret f = -1")
    case True
    with failed t show ?thesis
      by (cases "errno f") (auto simp: send_error_def c_assert_def execs_Sys Let_def create_error_def
        g_errors_def split: if_splits)
  next
    case False
    from rest [OF this] obtain a v where u: "u = (?ack, a) # v"
      and "execs (if ret a \<noteq> 4 then Ret False else wrq_body n s (ret f) path address alen tid) v
        (Returned False)"
      by (auto simp: execs_Sys)
    with body [OF _ u] t False show ?thesis by (auto split: if_splits)
  qed
qed

definition rejected_example :: "event list \<times> bool outcome" where
  "rejected_example = run (handle_wrq 1 3 ''notes'' (Sin 7 1) 16 7) [fails EEXIST, returns 23]"

theorem wrq_failure_witness:
  "\<exists>f u. fst rejected_example = (create_call ''notes'', f) # u"
proof -
  have "snd rejected_example = Returned False" by code_simp
  then have "execs (handle_wrq 1 3 ''notes'' (Sin 7 1) 16 7) (fst rejected_example) (Returned False)"
    unfolding rejected_example_def by (rule run_trace) simp
  from wrq_failure [OF this] show ?thesis by blast
qed

text \<open>
  C3: an upload that is still running after n rounds has stored n full blocks of 512 bytes, so
  only a client that keeps sending full blocks keeps it running.
\<close>

theorem wrq_progress:
  assumes "execs (handle_wrq n s path address alen tid) t (Halted Running)"
  shows "\<exists>f u. t = (create_call path, f) # u \<and> stored_blocks (ret f) t = n"
proof -
  from assms obtain f a v where
    t: "t = (create_call path, f) # (Net (Sendto s (ack_packet 0) address), a) # v"
    and ex: "execs (wrq_body n s (ret f) path address alen tid) v (Halted Running)"
    by (auto simp: handle_wrq_def c_assert_def send_error_def create_call_def execs_Sys Let_def
        split: if_splits errno.splits)
  from ex have "execs (loop n (wrq_round s (ret f) address alen tid) (replicate DATA_SIZE NUL, 0)) v
      (Halted Running)"
    unfolding wrq_body_def by (auto simp: execs_Sys elim!: execs_bindE split: if_splits)
  from wrq_loop_running [OF this] t show ?thesis by (auto simp: create_call_def)
qed

definition full_block_replies :: "reply list" where
  "full_block_replies = [returns 4, returns 4,
     (delivers (data_packet (htons 1) (replicate CHUNK_SIZE CHR ''x'')))\<lparr>sender := Sin 7 1\<rparr>,
     returns 512, returns 4]"

theorem wrq_progress_witness:
  "\<exists>t f u. execs (handle_wrq 1 3 ''notes'' (Sin 7 1) 16 7) t (Halted Running) \<and>
     t = (create_call ''notes'', f) # u \<and> stored_blocks (ret f) t = 1"
proof -
  let ?p = "handle_wrq 1 3 ''notes'' (Sin 7 1) 16 7"
  have "plays ?p full_block_replies" by code_simp
  moreover have "snd (run ?p full_block_replies) = Halted Running" by code_simp
  ultimately have "execs ?p (fst (run ?p full_block_replies)) (Halted Running)"
    by (metis run_plays)
  from wrq_progress [OF this] this show ?thesis by blast
qed

text \<open>
  A datagram of three bytes leaves \<open>-1\<close> for the size of its payload; the write of \<open>2 ^ 64 - 1\<close>
  bytes fails, and its \<open>-1\<close> is taken for the size.
\<close>

theorem wrq_accepts_truncated:
  "\<exists>t r. execs (handle_wrq 1 3 ''notes'' (Sin 7 1) 16 7) t (Returned True) \<and>
     list_all recv_ok t \<and> received 3 t = [r] \<and> length (out r) = 3 \<and> deleted t = []"
proof -
  let ?p = "handle_wrq 1 3 ''notes'' (Sin 7 1) 16 7"
  let ?r = "(delivers [NUL, CHR 0x03, NUL])\<lparr>sender := Sin 7 1\<rparr>"
  let ?rs = "[returns 4, returns 4, ?r, fails EINVAL, returns 4, returns 0]"
  let ?t = "\<lambda>chunk. [(create_call ''notes'', returns 4),
      (Net (Sendto 3 (ack_packet 0) (Sin 7 1)), returns 4), (Net (Recvfrom 3 DATA_SIZE), ?r),
      (File (Write 4 (packet_payload chunk) (size_t_of (- 1))), fails EINVAL),
      (Net (Sendto 3 (ack_packet (packet_id chunk)) (Sin 7 1)), returns 4),
      (File (Close 4), returns 0)]"
  have run: "run ?p ?rs = (?t (overwrite (replicate DATA_SIZE NUL) (out ?r)), Returned True)"
    by (simp add: handle_wrq_def c_assert_def wrq_body_def wrq_round_def wrq_store_def
        create_call_def Let_def CHUNK_SIZE_def packet_opcode_def overwrite_def load16_def
        htons_def u16_of_def low_byte_def high_byte_def byte_of_def)
  from run_execs [OF run] show ?thesis
    by (intro exI [of _ "?t (overwrite (replicate DATA_SIZE NUL) (out ?r))"] exI [of _ ?r])
      (simp add: create_call_def recv_ok_def DATA_SIZE_def)
qed

end
