(* ===== verification/Tftp_Download.thy ===== *)
theory Tftp_Download
  imports Tftp_Upload Monitor
begin

text \<open>
  What a download sends, that it ends, and that uploading what was downloaded gives the file
  back.
\<close>

section \<open>The blocks of a file\<close>

definition file_block :: "buffer \<Rightarrow> nat \<Rightarrow> buffer" where
  "file_block F i = take CHUNK_SIZE (drop (CHUNK_SIZE * i) F)"

definition block_packet :: "buffer \<Rightarrow> nat \<Rightarrow> buffer" where
  "block_packet F i = data_packet (htons (of_nat (Suc i))) (file_block F i)"

text \<open>
  The packets RFC 1350 prescribes for a file: full blocks numbered from 1 (modulo \<open>2 ^ 16\<close>),
  then one short, possibly empty block.
\<close>

definition file_packets :: "buffer \<Rightarrow> buffer list" where
  "file_packets F = map (block_packet F) [0..<Suc (length F div CHUNK_SIZE)]"

lemma payload_data_packet [simp]:
  "packet_payload (data_packet b p) = p" "packet_id (data_packet b p) = b"
  "packet_opcode (data_packet b p) = htons PACKET_TYPE_DATA"
  "length (data_packet b p) = 4 + length p"
  by (simp_all add: packet_payload_def packet_id_def packet_opcode_def data_packet_def)

lemma payload_block_packet [simp]: "packet_payload (block_packet F i) = file_block F i"
  by (simp add: block_packet_def)

lemma concat_blocks: "concat (map (file_block F) [0..<k]) = take (CHUNK_SIZE * k) F"
proof (induction k)
  case (Suc k)
  have "take (CHUNK_SIZE * Suc k) F = take (CHUNK_SIZE * k + CHUNK_SIZE) F"
    by (simp add: add.commute)
  then show ?case using Suc by (simp add: file_block_def take_add del: mult_Suc_right)
qed simp

lemma concat_file_packets: "concat (map packet_payload (file_packets F)) = F"
proof -
  have "length F < CHUNK_SIZE * Suc (length F div CHUNK_SIZE)"
    by (simp add: CHUNK_SIZE_def)
  then have "concat (map (file_block F) [0..<Suc (length F div CHUNK_SIZE)]) = F"
    unfolding concat_blocks by simp
  then show ?thesis by (simp add: file_packets_def comp_def del: upt_Suc)
qed

section \<open>The transfer loop\<close>

definition download_inv :: "fd \<Rightarrow> fd \<Rightarrow> buffer \<Rightarrow> event list \<Rightarrow> nat \<Rightarrow> bool" where
  "download_inv s file F t k \<longleftrightarrow>
     unread file F t = Some (drop (CHUNK_SIZE * k) F) \<and>
     sent s t = map (block_packet F) [0..<k] \<and>
     map (\<lambda>r. packet_id (out r)) (received s t) = map (\<lambda>i. htons (of_nat (Suc i))) [0..<k]"

abbreviation (input) block_round ::
  "fd \<Rightarrow> fd \<Rightarrow> sockaddr \<Rightarrow> u16 \<Rightarrow> reply \<Rightarrow> reply \<Rightarrow> reply \<Rightarrow> event list" where
  "block_round s file address raw_id r d a \<equiv>
     [(File (Read file CHUNK_SIZE), r), (Net (Sendto s (data_packet raw_id (out r)) address), d),
      (Net (Recvfrom s 4), a)]"

lemma download_round:
  assumes "download_inv s file F t k"
    and "unread file F (t @ block_round s file address (htons (of_nat k + 1)) r d a) \<noteq> None"
    and "ret r \<noteq> -1" and "ret a = 4" and "packet_id (out a) = htons (of_nat k + 1)"
  shows "download_inv s file F (t @ block_round s file address (htons (of_nat k + 1)) r d a) (Suc k)"
    and "ret r = int (length (file_block F k))"
  using assms
  by (auto simp: download_inv_def block_packet_def file_block_def add.commute split: if_splits)

lemma length_file_block:
  "length (file_block F k) = CHUNK_SIZE \<Longrightarrow> CHUNK_SIZE * Suc k \<le> length F"
  "CHUNK_SIZE * k \<le> length F \<Longrightarrow> length (file_block F k) \<noteq> CHUNK_SIZE \<Longrightarrow>
     k = length F div CHUNK_SIZE"
proof -
  have *: "length (file_block F k) = min CHUNK_SIZE (length F - CHUNK_SIZE * k)"
    by (simp add: file_block_def)
  show "length (file_block F k) = CHUNK_SIZE \<Longrightarrow> CHUNK_SIZE * Suc k \<le> length F"
    unfolding * by (simp add: CHUNK_SIZE_def)
  assume "CHUNK_SIZE * k \<le> length F" "length (file_block F k) \<noteq> CHUNK_SIZE"
  then have "CHUNK_SIZE * k \<le> length F" "length F < CHUNK_SIZE * Suc k"
    unfolding * by (simp_all add: CHUNK_SIZE_def)
  then show "k = length F div CHUNK_SIZE"
    by (simp add: CHUNK_SIZE_def)
qed

definition loop_inv :: "fd \<Rightarrow> fd \<Rightarrow> buffer \<Rightarrow> event list \<Rightarrow> u16 \<Rightarrow> bool" where
  "loop_inv s file F t block \<longleftrightarrow> (unread file F t \<noteq> None \<longrightarrow>
     (\<exists>k. download_inv s file F t k \<and> CHUNK_SIZE * k \<le> length F \<and> block = of_nat k))"

text \<open>The number of full blocks still to be sent.\<close>

definition blocks_left :: "fd \<Rightarrow> buffer \<Rightarrow> event list \<Rightarrow> nat" where
  "blocks_left file F t = length (the (unread file F t)) div CHUNK_SIZE"

lemma round_full:
  assumes "loop_inv s file F t block" and "ret r + 4 = int DATA_SIZE" and "ret a = 4"
    and id: "htons (block + 1) = packet_id (out a)"
    and ok: "unread file F (t @ block_round s file address (packet_id (out a)) r d a) \<noteq> None"
  shows "loop_inv s file F (t @ block_round s file address (packet_id (out a)) r d a) (block + 1)"
    and "blocks_left file F (t @ block_round s file address (packet_id (out a)) r d a)
       < blocks_left file F t"
proof -
  let ?t = "t @ block_round s file address (packet_id (out a)) r d a"
  from ok have "unread file F t \<noteq> None" by (rule unread_prefix)
  with assms(1) obtain k where k: "download_inv s file F t k" "CHUNK_SIZE * k \<le> length F"
    "block = of_nat k" by (auto simp: loop_inv_def)
  from assms(2) have r: "ret r = int CHUNK_SIZE" by (simp add: CHUNK_SIZE_def DATA_SIZE_def)
  from download_round [OF k(1) ok [folded id, unfolded k(3)]] assms(3) id k(3) r
  have inv: "download_inv s file F ?t (Suc k)" and len: "length (file_block F k) = CHUNK_SIZE"
    by (auto simp: CHUNK_SIZE_def)
  from len have le: "CHUNK_SIZE * Suc k \<le> length F" by (rule length_file_block(1))
  with inv k(3) show "loop_inv s file F ?t (block + 1)"
    by (auto simp: loop_inv_def add.commute intro!: exI [of _ "Suc k"])
  have "blocks_left file F ?t = (length F - CHUNK_SIZE * Suc k) div CHUNK_SIZE"
    using inv by (simp add: blocks_left_def download_inv_def)
  moreover have "blocks_left file F t = (length F - CHUNK_SIZE * k) div CHUNK_SIZE"
    using k(1) by (simp add: blocks_left_def download_inv_def)
  ultimately show "blocks_left file F ?t < blocks_left file F t"
    using le by (simp add: CHUNK_SIZE_def)
qed

lemma round_last:
  assumes "loop_inv s file F t block" and "ret r + 4 \<noteq> int DATA_SIZE" and "ret a = 4"
    and "ret r \<noteq> -1" and id: "htons (block + 1) = packet_id (out a)"
    and ok: "unread file F (t @ block_round s file address (packet_id (out a)) r d a) \<noteq> None"
  shows "download_inv s file F (t @ block_round s file address (packet_id (out a)) r d a)
    (Suc (length F div CHUNK_SIZE))"
proof -
  let ?t = "t @ block_round s file address (packet_id (out a)) r d a"
  from ok have "unread file F t \<noteq> None" by (rule unread_prefix)
  with assms(1) obtain k where k: "download_inv s file F t k" "CHUNK_SIZE * k \<le> length F"
    "block = of_nat k" by (auto simp: loop_inv_def)
  from download_round [OF k(1) ok [folded id, unfolded k(3)]] assms(2-4) id k(3)
  have inv: "download_inv s file F ?t (Suc k)" and "length (file_block F k) \<noteq> CHUNK_SIZE"
    by (auto simp: CHUNK_SIZE_def DATA_SIZE_def)
  with k(2) have "k = length F div CHUNK_SIZE" by (intro length_file_block(2))
  with inv show ?thesis by simp
qed

lemma round_again:
  assumes "loop_inv s file F t block" and "ret r + 4 = int DATA_SIZE" and "ret a = 4"
    and "htons (block + 1) = packet_id (out a)"
  shows "let t' = t @ block_round s file address (packet_id (out a)) r d a in
    loop_inv s file F t' (block + 1) \<and>
    (unread file F t' \<noteq> None \<longrightarrow> unread file F t \<noteq> None \<and>
       blocks_left file F t' < blocks_left file F t)"
proof (cases "unread file F (t @ block_round s file address (packet_id (out a)) r d a) = None")
  case True
  then show ?thesis unfolding Let_def loop_inv_def by simp
next
  case False
  then show ?thesis
    using round_full [OF assms False] unread_prefix [OF False] unfolding Let_def by simp
qed

lemma rrq_round_wp:
  assumes "loop_inv s file F t block"
  shows "wp (rrq_round s file address alen tid (block, atid)) (\<lambda>t' z. case z of
      Returned (Inl (block', atid')) \<Rightarrow> loop_inv s file F t' block' \<and>
        (unread file F t' \<noteq> None \<longrightarrow> unread file F t \<noteq> None \<and>
           blocks_left file F t' < blocks_left file F t)
    | Returned (Inr Finished) \<Rightarrow> unread file F t' \<noteq> None \<longrightarrow>
        download_inv s file F t' (Suc (length F div CHUNK_SIZE))
    | Returned (Inr _) \<Rightarrow> True
    | Halted h \<Rightarrow> h \<noteq> Running) t"
  unfolding rrq_round_def rrq_ack_def send_error_def prod.case
  by (intro wp_intros; simp del: unread_append unread_Cons)
    (use assms round_again round_last in
      \<open>auto simp: Let_def simp del: unread_append unread_Cons\<close>)

definition download_done :: "nat \<Rightarrow> fd \<Rightarrow> fd \<Rightarrow> buffer \<Rightarrow> event list \<Rightarrow> transfer_exit outcome \<Rightarrow> bool" where
  "download_done n s file F t z \<longleftrightarrow> (unread file F t \<noteq> None \<longrightarrow>
     (z = Returned Finished \<longrightarrow> download_inv s file F t (Suc (length F div CHUNK_SIZE))) \<and>
     (length F div CHUNK_SIZE < n \<longrightarrow> z \<noteq> Halted Running))"

lemma rrq_round_done:
  assumes "loop_inv s file F t block"
  shows "wp (rrq_round s file address alen tid (block, atid)) (\<lambda>t' z. case z of
      Returned (Inl st') \<Rightarrow> loop_inv s file F t' (fst st') \<and>
        (unread file F t' \<noteq> None \<longrightarrow> unread file F t \<noteq> None \<and>
           blocks_left file F t' < blocks_left file F t)
    | Returned (Inr x) \<Rightarrow> download_done n s file F t' (Returned x)
    | Halted h \<Rightarrow> download_done n s file F t' (Halted h)) t"
  by (rule wp_mono [OF rrq_round_wp [OF assms]])
    (auto simp: download_done_def split: outcome.splits sum.splits prod.splits transfer_exit.splits)

lemma rrq_loop_wp:
  assumes "unread file F t = Some F" and "sent s t = []" and "received s t = []"
  shows "wp (loop n (rrq_round s file address alen tid) (0, 0)) (download_done n s file F) t"
proof -
  have start: "loop_inv s file F t (fst (0 :: u16, 0 :: u16))"
    using assms by (auto simp: loop_inv_def download_inv_def intro!: exI [of _ 0])
  show ?thesis
  proof (cases "length F div CHUNK_SIZE < n")
    case True
    show ?thesis
    proof (rule wp_loop_measure [where I = "\<lambda>t st. loop_inv s file F t (fst st)"
          and C = "\<lambda>t. unread file F t \<noteq> None" and m = "\<lambda>t st. blocks_left file F t"])
      show "blocks_left file F t < n" if "unread file F t \<noteq> None"
        using True assms by (simp add: blocks_left_def)
    qed (use start rrq_round_done in \<open>auto simp: download_done_def split_paired_all\<close>)
  next
    case False
    show ?thesis
      by (rule wp_loop [where I = "\<lambda>t st. loop_inv s file F t (fst st)"])
        (use start False in \<open>auto simp: download_done_def split_paired_all
          intro!: wp_mono [OF rrq_round_done [where n = n]] split: outcome.splits sum.splits\<close>)
  qed
qed

definition open_call :: "string \<Rightarrow> syscall" where
  "open_call path = File (Open path O_RDONLY 0)"

lemma handle_rrq_wp:
  assumes "execs (handle_rrq n s path address alen tid) t z" and "unread (ret (snd (hd t))) F t \<noteq> None"
  shows "(z = Returned True \<longrightarrow>
       fst (hd t) = open_call path \<and> download_inv s (ret (snd (hd t))) F t (Suc (length F div CHUNK_SIZE)))
     \<and> (length F div CHUNK_SIZE < n \<longrightarrow> z \<noteq> Halted Running)"
proof -
  let ?loop = "\<lambda>f. bind (loop n (rrq_round s (ret f) address alen tid) (0, 0)) (\<lambda>e.
      if e = End then Ret False else Sys (File (Close (ret f))) (\<lambda>_. Ret (e = Finished)))"
  have body: "wp (?loop f) (\<lambda>t z. unread (ret f) F t \<noteq> None \<longrightarrow>
       (z = Returned True \<longrightarrow> download_inv s (ret f) F t (Suc (length F div CHUNK_SIZE))) \<and>
       (length F div CHUNK_SIZE < n \<longrightarrow> z \<noteq> Halted Running)) [(open_call path, f)]" for f
    by (rule wp_bindI [OF rrq_loop_wp [where n = n and F = F]])
      (auto simp: open_call_def download_done_def download_inv_def)
  show ?thesis
  proof (cases "\<exists>f u. t = (open_call path, f) # u \<and> execs (?loop f) u z")
    case True
    then obtain f u where t: "t = (open_call path, f) # u" and ex: "execs (?loop f) u z" by blast
    from wpD [OF ex body] t assms(2) show ?thesis by simp
  next
    case False
    with assms(1) show ?thesis
      by (auto simp: handle_rrq_def open_call_def c_assert_def send_error_def execs_Sys
          split: if_splits errno.splits)
  qed
qed

section \<open>The acknowledgments\<close>

text \<open>What was received while a download goes on: four-byte acknowledgments of the client.\<close>

definition acknowledged :: "fd \<Rightarrow> u16 \<Rightarrow> event list \<Rightarrow> bool" where
  "acknowledged s tid t \<longleftrightarrow> list_all (\<lambda>r. ret r = 4 \<and>
     packet_opcode (out r) = htons PACKET_TYPE_ACK \<and> sa_port (sender r) tid = tid) (received s t)"

lemma rrq_round_acks:
  assumes "acknowledged s tid t" and "atid = 0 \<or> atid = tid"
  shows "wp (rrq_round s file address alen tid (block, atid)) (\<lambda>t' z. case z of
      Returned (Inl (block', atid')) \<Rightarrow> acknowledged s tid t' \<and> (atid' = 0 \<or> atid' = tid)
    | Returned (Inr Finished) \<Rightarrow> acknowledged s tid t' | _ \<Rightarrow> True) t"
  unfolding rrq_round_def rrq_ack_def send_error_def prod.case
  by (intro wp_intros; use assms in \<open>auto simp: acknowledged_def\<close>)

lemma rrq_loop_acks:
  assumes "received s t = []"
  shows "wp (loop n (rrq_round s file address alen tid) (0, 0))
    (\<lambda>t' z. z = Returned Finished \<longrightarrow> acknowledged s tid t') t"
  by (rule wp_loop [where I = "\<lambda>t st. acknowledged s tid t \<and> (snd st = 0 \<or> snd st = tid)"])
    (use assms in \<open>auto simp: acknowledged_def [where t = t]
      intro!: wp_mono [OF rrq_round_acks] split: outcome.splits sum.splits transfer_exit.splits\<close>)

lemma handle_rrq_acks:
  assumes "execs (handle_rrq n s path address alen tid) t (Returned True)"
  shows "acknowledged s tid t"
proof -
  from assms obtain f u where t: "t = (open_call path, f) # u"
    and ex: "execs (bind (loop n (rrq_round s (ret f) address alen tid) (0, 0)) (\<lambda>e.
      if e = End then Ret False else Sys (File (Close (ret f))) (\<lambda>_. Ret (e = Finished)))) u (Returned True)"
    by (auto simp: handle_rrq_def open_call_def c_assert_def send_error_def execs_Sys
        split: if_splits errno.splits)
  have "wp (bind (loop n (rrq_round s (ret f) address alen tid) (0, 0)) (\<lambda>e.
      if e = End then Ret False else Sys (File (Close (ret f))) (\<lambda>_. Ret (e = Finished))))
    (\<lambda>t z. z = Returned True \<longrightarrow> acknowledged s tid t) [(open_call path, f)]"
    by (rule wp_bindI [OF rrq_loop_acks]) (auto simp: open_call_def acknowledged_def)
  from wpD [OF ex this] t show ?thesis by simp
qed

section \<open>The descriptor of the file\<close>

lemma rrq_loop_fds:
  assumes "open_fds t = {f}"
  shows "wp (loop n (rrq_round s file address alen tid) st) (\<lambda>t z. open_fds t = {f} \<and>
    (z = Returned End \<longrightarrow> (\<exists>v p r. t = v @ [(Net (Sendto s p address), r)]))) t"
proof (rule wp_loop [where I = "\<lambda>t st. open_fds t = {f}"])
  show "wp (rrq_round s file address alen tid st) (\<lambda>t' z. case z of
      Returned (Inl s') \<Rightarrow> open_fds t' = {f}
    | Returned (Inr a) \<Rightarrow> open_fds t' = {f} \<and>
        (Returned a = Returned End \<longrightarrow> (\<exists>v p r. t' = v @ [(Net (Sendto s p address), r)]))
    | Halted h \<Rightarrow> open_fds t' = {f} \<and>
        (Halted h = Returned End \<longrightarrow> (\<exists>v p r. t' = v @ [(Net (Sendto s p address), r)]))) t"
    if "open_fds t = {f}" for t st
    unfolding rrq_round_def rrq_ack_def send_error_def
    by (cases st; simp only: prod.case; intro wp_intros; simp add: open_fds_append that)
qed (use assms in simp_all)

text \<open>
  When the upload of what was downloaded succeeds, the file is back: the packets of the first
  transfer are the datagrams of the second.
\<close>

section \<open>Properties\<close>

text \<open>
  C4: when read returns the bytes of the file in order, a download that succeeds has sent
  exactly the packets RFC 1350 prescribes for the contents of the file, blocks numbered from 1
  modulo 2^16 with one short last block, and what it received are exactly the acknowledgments
  of these blocks in turn: four-byte datagrams with the opcode ACK and the number of the block,
  from the client's transfer identifier.
\<close>

theorem rrq_sends_file:
  assumes "execs (handle_rrq n s path address alen tid) t (Returned True)"
    and "unread (ret (snd (hd t))) F t \<noteq> None"
  shows "fst (hd t) = open_call path \<and> sent s t = file_packets F \<and>
    map (\<lambda>r. packet_id (out r)) (received s t) =
      map (\<lambda>i. htons (of_nat (Suc i))) [0..<length (file_packets F)] \<and>
    list_all (\<lambda>r. ret r = 4 \<and> packet_opcode (out r) = htons PACKET_TYPE_ACK \<and>
      sa_port (sender r) tid = tid) (received s t)"
  using handle_rrq_wp [OF assms] handle_rrq_acks [OF assms(1)]
  by (simp add: download_inv_def file_packets_def acknowledged_def del: upt_Suc)

text \<open>
  C5: a download of a file of L bytes always ends: L div 512 + 1 rounds are enough, whatever
  the client does.
\<close>

theorem rrq_terminates:
  assumes "execs (handle_rrq n s path address alen tid) t z"
    and "unread (ret (snd (hd t))) F t \<noteq> None" and "length F div CHUNK_SIZE < n"
  shows "z \<noteq> Halted Running"
  using handle_rrq_wp [OF assms(1,2)] assms(3) by blast

definition download_example :: "event list \<times> bool outcome" where
  "download_example = run (handle_rrq 1 3 ''notes'' (Sin 7 1) 16 7)
     [returns 4, delivers ''hi'', returns 6,
      (delivers (ack_packet (htons 1)))\<lparr>sender := Sin 7 1\<rparr>, returns 0]"

lemma download_example_ok: "snd download_example = Returned True"
  by code_simp

lemma download_example_execs:
  "execs (handle_rrq 1 3 ''notes'' (Sin 7 1) 16 7) (fst download_example) (Returned True)"
  using download_example_ok unfolding download_example_def by (rule run_trace) simp

lemma download_example_unread:
  "unread (ret (snd (hd (fst download_example)))) ''hi'' (fst download_example) \<noteq> None"
  by code_simp

theorem rrq_sends_file_witness:
  "sent 3 (fst download_example) = file_packets ''hi''"
  using rrq_sends_file [OF download_example_execs download_example_unread] by blast

theorem rrq_terminates_witness:
  "snd download_example \<noteq> Halted Running"
proof -
  have "execs (handle_rrq 1 3 ''notes'' (Sin 7 1) 16 7) (fst download_example) (snd download_example)"
    using download_example_execs by (simp only: download_example_ok)
  from rrq_terminates [OF this download_example_unread] show ?thesis
    by (simp add: CHUNK_SIZE_def)
qed

text \<open>
  C6: uploading the packets of a successful download stores the contents of the downloaded
  file, whatever their length.
\<close>

theorem upload_of_download:
  assumes "execs (handle_rrq n s path address alen tid) t (Returned True)"
    and "unread (ret (snd (hd t))) F t \<noteq> None"
    and "execs (handle_wrq n' s' path' address' alen' tid') u (Returned True)"
    and "list_all recv_ok u" and "map out (received s' u) = sent s t"
  shows "written (ret (snd (hd u))) u = F"
proof -
  from handle_rrq_wp [OF assms(1,2)] have sent: "map out (received s' u) = file_packets F"
    using assms(5) by (simp add: download_inv_def file_packets_def)
  from wrq_True [OF assms(3,4)] obtain f v rs r a where u: "u = (create_call path', f) # v"
    and "upload_end s' (ret f) tid' u rs r a" by blast
  then have "written (ret f) u = concat (map packet_payload (map out (received s' u)))"
    by (simp add: upload_end_def comp_def)
  then show ?thesis unfolding sent concat_file_packets by (simp add: u)
qed

theorem upload_of_download_witness:
  "written 4 (fst upload_example) = ''hi''"
proof -
  have up: "execs (handle_wrq 1 3 ''notes'' (Sin 7 1) 16 7) (fst upload_example) (Returned True)"
    using upload_example_ok unfolding upload_example_def by (rule run_trace) simp
  have recv: "list_all recv_ok (fst upload_example)" by code_simp
  have same: "map out (received 3 (fst upload_example)) = sent 3 (fst download_example)" by code_simp
  have "ret (snd (hd (fst upload_example))) = 4" by code_simp
  with upload_of_download [OF download_example_execs download_example_unread up recv same]
  show ?thesis by simp
qed

text \<open>
  C7: a download that returns has closed the file, unless it failed right after a send, the
  only path that leaves the descriptor open.
\<close>

theorem rrq_descriptor:
  assumes "execs (handle_rrq n s path address alen tid) t (Returned b)"
  shows "open_fds t = {} \<or>
    \<not> b \<and> open_fds t = {ret (snd (hd t))} \<and> (\<exists>v p r. t = v @ [(Net (Sendto s p address), r)])"
proof -
  let ?loop = "\<lambda>f. bind (loop n (rrq_round s (ret f) address alen tid) (0, 0)) (\<lambda>e.
      if e = End then Ret False else Sys (File (Close (ret f))) (\<lambda>_. Ret (e = Finished)))"
  let ?Q = "\<lambda>f t z. (\<forall>b. z = Returned b \<longrightarrow> open_fds t = {} \<or>
    \<not> b \<and> open_fds t = {ret f} \<and> (\<exists>v p r. t = v @ [(Net (Sendto s p address), r)]))"
  have start: "open_fds [(open_call path, f)] = {ret f}" if "ret f \<noteq> -1" for f
    using that open_fds_append [of "[]"] by (simp add: open_call_def)
  have body: "wp (?loop f) (?Q f) [(open_call path, f)]" if "ret f \<noteq> -1" for f
    by (rule wp_bindI [OF rrq_loop_fds [OF start [OF that]]]) (auto simp: open_fds_append)
  show ?thesis
  proof (cases "\<exists>f u. t = (open_call path, f) # u \<and> ret f \<noteq> -1 \<and> execs (?loop f) u (Returned b)")
    case True
    then obtain f u where t: "t = (open_call path, f) # u" and f: "ret f \<noteq> -1"
      and ex: "execs (?loop f) u (Returned b)" by blast
    from wpD [OF ex body [OF f]] t show ?thesis by simp
  next
    case False
    with assms open_fds_append [of "[]"] show ?thesis
      by (auto simp: handle_rrq_def open_call_def c_assert_def send_error_def execs_Sys Let_def
          split: if_splits errno.splits)
  qed
qed

theorem rrq_descriptor_witness:
  "open_fds (fst download_example) = {}"
  using rrq_descriptor [OF download_example_execs] by blast

text \<open>The other case does happen: a short send leaves the file open.\<close>

theorem rrq_leaks_descriptor:
  "\<exists>t. execs (handle_rrq 1 3 ''notes'' (Sin 7 1) 16 7) t (Returned False) \<and> open_fds t = {4}"
proof -
  let ?p = "handle_rrq 1 3 ''notes'' (Sin 7 1) 16 7"
  let ?rs = "[returns 4, delivers ''hi'', fails EAGAIN]"
  have "snd (run ?p ?rs) = Returned False" by code_simp
  then have "execs ?p (fst (run ?p ?rs)) (Returned False)" by (rule run_trace) simp
  moreover have "open_fds (fst (run ?p ?rs)) = {4}" by code_simp
  ultimately show ?thesis by blast
qed

end
