(* ===== verification/Tftpd.thy ===== *)
theory Tftpd
  imports Tftp_Download Monitor
begin

text \<open>
  The server half of \<^verbatim>\<open>tftpd.c\<close>: \<open>set_timeout\<close>, \<open>pick_tid\<close>, \<open>handle_request\<close> and \<^verbatim>\<open>main\<close>
  (\<open>tftpd_main\<close>). The request buffer lives as long as the main loop, so what one request
  leaves in it is still there when the next arrives: it is the state of the loop.
\<close>

section \<open>Constants\<close>

definition LISTENING_PORT :: string where "LISTENING_PORT = ''69''"
definition SERVER_ROOT :: string where "SERVER_ROOT = ''/srv/tftp''"
definition USAGE_tftpd :: string where "USAGE_tftpd = ''Usage: tftpd'' @ [CHR 0x0A, NUL]"

definition MIN_REQUEST_SIZE :: nat where
  "MIN_REQUEST_SIZE = 2 + Suc (length ''a'') + Suc (length ''octet'')"

definition MAX_REQUEST_SIZE :: nat where
  "MAX_REQUEST_SIZE = 2 + (1 + NAME_MAX) + Suc (length ''netascii'')"

definition SOCKET_TIMEOUT :: nat where "SOCKET_TIMEOUT = 5"
definition MIN_TID :: int where "MIN_TID = 6996"
definition MAX_CLIENTS :: int where "MAX_CLIENTS = 4"
definition MAX_TID_ATTEMPTS :: nat where "MAX_TID_ATTEMPTS = 2"

text \<open>\<^verbatim>\<open>sizeof(struct sockaddr)\<close>, the size of every address variable in the file.\<close>

definition SOCKADDR_SIZE :: nat where "SOCKADDR_SIZE = 16"

definition RANDOM_PORT :: "int \<Rightarrow> u16" where
  "RANDOM_PORT rand = htons (word_of_int (MIN_TID + rand mod MAX_CLIENTS))"

section \<open>Sockets\<close>

definition set_timeout :: "fd \<Rightarrow> bool prog" where
  "set_timeout s =
     Sys (Net (Setsockopt s ''SO_RCVTIMEO'' SOCKET_TIMEOUT)) (\<lambda>r. if ret r = -1 then Ret False else
     Sys (Net (Setsockopt s ''SO_SNDTIMEO'' SOCKET_TIMEOUT)) (\<lambda>r. if ret r = -1 then Ret False else
     Ret True))"

fun with_port :: "sockaddr \<Rightarrow> u16 \<Rightarrow> sockaddr" where
  "with_port (Sin p a) q = Sin q a"
| "with_port (Sin6 p) q = Sin6 q"
| "with_port x q = x"

primrec pick_tid_attempts :: "nat \<Rightarrow> fd \<Rightarrow> sockaddr \<Rightarrow> bool prog" where
  "pick_tid_attempts 0 s local_address = Ret False"
| "pick_tid_attempts (Suc k) s local_address =
     Sys (Lib Rand) (\<lambda>r.
       let bound_address = with_port local_address (RANDOM_PORT (ret r)) in
       Sys (Net (Bind s bound_address)) (\<lambda>b.
         if ret b = 0 then Ret True
         else if EADDRINUSE \<noteq> errno b then Ret False
         else pick_tid_attempts k s bound_address))"

definition pick_tid :: "fd \<Rightarrow> sockaddr \<Rightarrow> nat \<Rightarrow> bool prog" where
  "pick_tid s local_address address_size =
     c_assert (STDERR_FILENO < s) (c_assert (0 < address_size)
       (Sys (Lib Srand) (\<lambda>_.
          case local_address of
            Sin p a \<Rightarrow> pick_tid_attempts MAX_TID_ATTEMPTS s local_address
          | Sin6 p \<Rightarrow> pick_tid_attempts MAX_TID_ATTEMPTS s local_address
          | _ \<Rightarrow> Ret False)))"

section \<open>One request\<close>

text \<open>
  \<open>mode\<close> is a pointer into the request buffer: the bytes from there to the end of the buffer.
\<close>

definition serve :: "nat \<Rightarrow> fd \<Rightarrow> string \<Rightarrow> u16 \<Rightarrow> sockaddr \<Rightarrow> nat \<Rightarrow> u16 \<Rightarrow> bool prog" where
  "serve n s path opcode client_address address_size tid =
     (if opcode = PACKET_TYPE_RRQ then
        bind (log_request ''GET'' path client_address address_size) (\<lambda>_.
        handle_rrq n s path client_address address_size tid)
      else if opcode = PACKET_TYPE_WRQ then
        bind (log_request ''PUT'' path client_address address_size) (\<lambda>_.
        handle_wrq n s path client_address address_size tid)
      else
        bind (send_error s ERROR_ILLEGAL_OPERATION client_address address_size) (\<lambda>_. Ret False))"

definition check_request ::
  "nat \<Rightarrow> fd \<Rightarrow> string \<Rightarrow> buffer \<Rightarrow> u16 \<Rightarrow> sockaddr \<Rightarrow> nat \<Rightarrow> u16 \<Rightarrow> bool prog" where
  "check_request n s path mode opcode client_address address_size tid =
     (case strcmp_mem ''octet'' mode of
        None \<Rightarrow> Halt Undefined
      | Some False \<Rightarrow>
          bind (send_error s ERROR_ILLEGAL_OPERATION client_address address_size) (\<lambda>_. Ret False)
      | Some True \<Rightarrow>
          (case strrchr path (CHR ''/'') of
             None \<Rightarrow> serve n s path opcode client_address address_size tid
           | Some 0 \<Rightarrow> serve n s (drop 1 path) opcode client_address address_size tid
           | Some (Suc i) \<Rightarrow>
               bind (send_error s ERROR_ACCESS_VIOLATION client_address address_size) (\<lambda>_. Ret False)))"

definition request_socket ::
  "nat \<Rightarrow> string \<Rightarrow> buffer \<Rightarrow> u16 \<Rightarrow> addrinfo \<Rightarrow> sockaddr \<Rightarrow> nat \<Rightarrow> u16 \<Rightarrow> bool prog" where
  "request_socket n path mode opcode local_address client_address address_size tid =
     Sys (Net (Socket (ai_family local_address) (ai_socktype local_address)
       (ai_protocol local_address))) (\<lambda>s. if ret s = -1 then Ret False else
     bind (set_timeout (ret s)) (\<lambda>ok. if \<not> ok then Ret False
       else if SOCKADDR_SIZE < ai_addrlen local_address then Halt Undefined else
     bind (pick_tid (ret s) (ai_addr local_address) (ai_addrlen local_address)) (\<lambda>ok.
       bind (if \<not> ok then Ret False
             else check_request n (ret s) path mode opcode client_address address_size tid)
         (\<lambda>result. Sys (File (Close (ret s))) (\<lambda>_. Ret result)))))"

definition handle_request ::
  "nat \<Rightarrow> string \<Rightarrow> buffer \<Rightarrow> u16 \<Rightarrow> addrinfo \<Rightarrow> sockaddr \<Rightarrow> nat \<Rightarrow> bool prog" where
  "handle_request n path mode opcode local_address client_address address_size =
     c_assert (opcode = PACKET_TYPE_RRQ \<or> opcode = PACKET_TYPE_WRQ) (c_assert (0 < address_size)
       (case client_address of
          Sin p a \<Rightarrow>
            request_socket n path mode opcode local_address client_address address_size p
        | Sin6 p \<Rightarrow>
            request_socket n path mode opcode local_address client_address address_size p
        | _ \<Rightarrow> Ret False))"

section \<open>The server\<close>

text \<open>
  One round of the main loop. \<open>Inr True\<close> is \<^verbatim>\<open>break\<close> or \<^verbatim>\<open>goto success\<close>, \<open>Inr False\<close> is
  \<^verbatim>\<open>goto close_log\<close>.
\<close>

definition dispatch ::
  "nat \<Rightarrow> addrinfo \<Rightarrow> reply \<Rightarrow> u16 \<Rightarrow> buffer \<Rightarrow> (buffer + bool) prog" where
  "dispatch n address r opcode request =
     (let path = drop 2 request in
      case memchr path NUL (1 + NAME_MAX) of
        None \<Rightarrow> Ret (Inl request)
      | Some i \<Rightarrow>
          Sys (Proc Fork) (\<lambda>pid. if ret pid = -1 then Ret (Inr False)
            else if ret pid = 0 then
              bind (handle_request n (take i path) (drop (Suc i) path) opcode address
                (sender r) (sender_len r)) (\<lambda>ok. Ret (Inr ok))
            else Ret (Inl request)))"

definition tftpd_round ::
  "nat \<Rightarrow> daemon_t \<Rightarrow> addrinfo \<Rightarrow> buffer \<Rightarrow> (buffer + bool) prog" where
  "tftpd_round n d address request =
     bind (daemon_wait d) (\<lambda>(ok, received_signal).
       if \<not> ok then Ret (Inr True)
       else if SIGTERM = received_signal then Ret (Inr True) else
     Sys (Net (Recvfrom (daemon_fd d) MAX_REQUEST_SIZE)) (\<lambda>r.
       if ret r = 0 then Ret (Inl request)
       else if ret r = -1 then Ret (Inr False) else
       (let request = overwrite request (out r) in
        if ret r < int MIN_REQUEST_SIZE then Ret (Inl request) else
        (let opcode = ntohs (load16 request); request = store16 opcode @ drop 2 request in
         if opcode \<noteq> PACKET_TYPE_RRQ \<and> opcode \<noteq> PACKET_TYPE_WRQ then Ret (Inl request)
         else dispatch n address r opcode request))))"

definition tftpd_serve :: "nat \<Rightarrow> addrinfo \<Rightarrow> fd \<Rightarrow> int prog" where
  "tftpd_serve n address s =
     Sys (Lib (Openlog ''tftpd'')) (\<lambda>_.
     bind (daemon_init \<lparr>signal_mask = [], daemon_fd = s, io_signal = SIGOTHER 0\<rparr>
       SERVER_ROOT (Some DAEMON_USER)) (\<lambda>(ok, d).
     bind (if \<not> ok then Ret False
           else loop n (tftpd_round n d address) (replicate MAX_REQUEST_SIZE NUL)) (\<lambda>success.
     Sys (Lib Closelog) (\<lambda>_. Ret (if success then EXIT_SUCCESS else EXIT_FAILURE)))))"

definition tftpd_start :: "nat \<Rightarrow> addrinfo \<Rightarrow> int prog" where
  "tftpd_start n address =
     Sys (Net (Socket (ai_family address) (ai_socktype address) (ai_protocol address))) (\<lambda>s.
       if ret s = -1 then Sys (Net Freeaddrinfo) (\<lambda>_. Ret EXIT_FAILURE) else
     bind (set_timeout (ret s)) (\<lambda>ok. if \<not> ok then Ret EXIT_FAILURE else
     Sys (Net (Bind (ret s) (ai_addr address))) (\<lambda>b.
     bind (if ret b = -1 then Ret EXIT_FAILURE else tftpd_serve n address (ret s)) (\<lambda>exit_code.
     Sys (File (Close (ret s))) (\<lambda>_.
     Sys (Net Freeaddrinfo) (\<lambda>_. Ret exit_code))))))"

definition tftpd_main :: "nat \<Rightarrow> int \<Rightarrow> int prog" where
  "tftpd_main n argc =
     (if argc \<noteq> 1 then Sys (Lib (Print USAGE_tftpd)) (\<lambda>_. Ret EXIT_FAILURE) else
     Sys (Net (Getaddrinfo LISTENING_PORT)) (\<lambda>a. if ret a \<noteq> 0 then Ret EXIT_FAILURE else
     tftpd_start n (info a)))"

end
