(* ===== verification/Tftpd_Props.thy ===== *)
theory Tftpd_Props
  imports Tftpd
begin

text \<open>
  What the server as a whole guarantees: where it touches the file system, that a request
  cannot make it read outside its buffer, which ports it uses, what its error packets say, and
  how it stops.
\<close>

section \<open>The files the server touches\<close>

text \<open>
  The calls the server may make: files are named without a slash, besides \<^verbatim>\<open>/dev/null\<close>, the only
  directory it moves to is its root, and it runs no program, lists no directory, looks at no
  file and changes neither mounts nor the root directory.
\<close>

definition confined :: "syscall \<Rightarrow> bool" where
  "confined c \<longleftrightarrow> (case c of
     File (Open p fl m) \<Rightarrow> CHR ''/'' \<notin> set p \<or> p = PATH_DEVNULL
   | File (Unlink p) \<Rightarrow> CHR ''/'' \<notin> set p
   | File (Opendir p) \<Rightarrow> False
   | File (Stat p) \<Rightarrow> False
   | Proc (Chdir d) \<Rightarrow> d = SERVER_ROOT
   | Proc (Chroot d) \<Rightarrow> False
   | Proc (Exec f a) \<Rightarrow> False
   | Kern k \<Rightarrow> False
   | _ \<Rightarrow> True)"

lemma confined_simps [simp]:
  "confined (File (Open p fl m)) \<longleftrightarrow> CHR ''/'' \<notin> set p \<or> p = PATH_DEVNULL"
  "confined (File (Unlink p)) \<longleftrightarrow> CHR ''/'' \<notin> set p"
  "confined (File (Close f))" "confined (File (Read f n))" "confined (File (Write f b n))"
  "confined (File (Dup f))" "confined (File (Fcntl f x))"
  "confined (Net c')" "confined (Signal g)" "confined (Lib l)"
  "confined (Proc (Chdir d)) \<longleftrightarrow> d = SERVER_ROOT"
  "confined (Proc Fork)" "confined (Proc Setsid)" "confined (Proc (Unshare u))"
  "confined (Proc (Setuid i))" "confined (Proc (Seteuid i))" "confined (Proc (Umask k))"
  "confined (Proc Getpid)"
  by (simp_all add: confined_def)

lemma confined_send_error: "issues_only confined (send_error s e a n)"
  by (simp add: send_error_def c_assert_def Let_def)

lemma confined_log_request: "issues_only confined (log_request x p a n)"
  by (simp add: log_request_def log_text_def c_assert_def split: sockaddr.split)

lemma confined_handle_wrq:
  "CHR ''/'' \<notin> set path \<Longrightarrow> issues_only confined (handle_wrq n s path a k tid)"
  unfolding handle_wrq_def wrq_body_def wrq_round_def wrq_store_def
  by (auto intro!: issues_intros confined_send_error split: errno.split prod.split)

lemma confined_handle_rrq:
  "CHR ''/'' \<notin> set path \<Longrightarrow> issues_only confined (handle_rrq n s path a k tid)"
  unfolding handle_rrq_def rrq_round_def rrq_ack_def
  by (auto intro!: issues_intros confined_send_error split: errno.split prod.split)

lemma confined_serve:
  "CHR ''/'' \<notin> set path \<Longrightarrow> issues_only confined (serve n s path opcode a k tid)"
  unfolding serve_def
  by (intro issues_intros confined_log_request confined_handle_rrq confined_handle_wrq
      confined_send_error)

lemma confined_check_request: "issues_only confined (check_request n s path mode opcode a k tid)"
proof -
  have "CHR ''/'' \<notin> set path" if "strrchr path (CHR ''/'') = None"
    using that by (simp add: strrchr_None_iff)
  moreover have "CHR ''/'' \<notin> set (drop 1 path)" if "strrchr path (CHR ''/'') = Some 0"
    using strrchr_SomeD [OF that] by simp
  ultimately show ?thesis
    unfolding check_request_def
    by (auto intro!: issues_intros confined_serve confined_send_error
        split: option.split bool.split nat.split)
qed

lemma confined_pick_tid: "issues_only confined (pick_tid s a k)"
proof -
  have "issues_only confined (pick_tid_attempts m s x)" for m x
    by (induction m arbitrary: x) (simp_all add: Let_def)
  then show ?thesis by (simp add: pick_tid_def c_assert_def split: sockaddr.split)
qed

lemma confined_handle_request: "issues_only confined (handle_request n path mode opcode l a k)"
  unfolding handle_request_def request_socket_def set_timeout_def
  by (auto intro!: issues_intros confined_pick_tid confined_check_request split: sockaddr.split)

lemma confined_daemon_init: "issues_only confined (daemon_init d SERVER_ROOT user)"
  unfolding daemon_init_defs daemonize_defs
  by (auto intro!: issues_intros split: option.split)

lemma confined_tftpd_round: "issues_only confined (tftpd_round n d address request)"
  unfolding tftpd_round_def dispatch_def daemon_wait_def
  by (auto intro!: issues_intros confined_handle_request split: option.split)

lemma confined_tftpd_main: "issues_only confined (tftpd_main n argc)"
  unfolding tftpd_main_def tftpd_start_def tftpd_serve_def set_timeout_def
  by (auto intro!: issues_intros confined_daemon_init confined_tftpd_round)

text \<open>
  \<open>serves\<close>: a call that opens or deletes a file for a client. \<open>settled t\<close>: the server has moved to
  its root directory and taken the identity of its user. \<open>placed t\<close>: it did so before any such
  call.
\<close>

definition serves :: "syscall \<Rightarrow> bool" where
  "serves c \<longleftrightarrow> (case c of File (Open p fl m) \<Rightarrow> p \<noteq> PATH_DEVNULL | File (Unlink p) \<Rightarrow> True | _ \<Rightarrow> False)"

lemma serves_simps [simp]:
  "serves (File (Open p fl m)) \<longleftrightarrow> p \<noteq> PATH_DEVNULL" "\<not> serves (File (Close f))"
  "\<not> serves (File (Dup f))" "\<not> serves (File (Fcntl f x))" "\<not> serves (Net c')" "\<not> serves (Signal g)"
  "\<not> serves (Lib l)" "\<not> serves (Proc p')"
  by (simp_all add: serves_def)

definition settled :: "event list \<Rightarrow> bool" where
  "settled t \<longleftrightarrow> (\<exists>r. (Proc (Chdir SERVER_ROOT), r) \<in> set t \<and> ret r \<noteq> -1) \<and>
     (\<exists>a r. (Lib (Getpwnam DAEMON_USER), a) \<in> set t \<and> (Proc (Setuid (pw_uid (account a))), r) \<in> set t \<and>
        ret r \<noteq> -1)"

lemma settled_append: "settled t \<Longrightarrow> settled (t @ u)"
  by (auto simp: settled_def)

definition placed :: "event list \<Rightarrow> bool" where
  "placed t \<longleftrightarrow> (\<forall>u c r v. t = u @ (c, r) # v \<longrightarrow> serves c \<longrightarrow> settled u)"

lemma placed_append:
  assumes "placed t" and "settled t \<or> (\<forall>e \<in> set w. \<not> serves (fst e))"
  shows "placed (t @ w)"
  unfolding placed_def
proof (intro allI impI)
  fix u c r v assume t: "t @ w = u @ (c, r) # v" and c: "serves c"
  then consider x where "t = u @ (c, r) # x" | x where "u = t @ x" "w = x @ (c, r) # v"
    by (auto simp: append_eq_append_conv2 Cons_eq_append_conv append_eq_Cons_conv)
  then show "settled u"
  proof cases
    case 1
    with assms(1) c show ?thesis unfolding placed_def by blast
  next
    case 2
    with assms(2) c show ?thesis by (auto intro: settled_append)
  qed
qed

lemma placed_more: "placed t \<Longrightarrow> \<forall>e \<in> set w. \<not> serves (fst e) \<Longrightarrow> placed (t @ w)"
  by (rule placed_append) auto

lemma wp_placed: "issues_only (\<lambda>c. \<not> serves c) p \<Longrightarrow> placed t \<Longrightarrow> wp p (\<lambda>t z. placed t) t"
  by (rule wpI) (auto intro!: placed_append dest: issues_onlyD)

lemma wp_settled: "settled t \<Longrightarrow> placed t \<Longrightarrow> wp p (\<lambda>t z. placed t) t"
  by (rule wpI) (auto intro!: placed_append)

lemma init_settles:
  assumes "execs (daemon_init d SERVER_ROOT (Some DAEMON_USER)) t (Returned (True, d'))"
  shows "settled t"
proof -
  from daemon_init_success [OF assms] obtain flags a t1 t2 where
    t: "t = (File (Fcntl (daemon_fd d) F_GETFL), flags) # (Lib (Getpwnam DAEMON_USER), a) # t1 @ t2"
    and calls: "map fst t1 = detach_calls SERVER_ROOT (Some (pw_uid (account a)))"
    and ok: "list_all succeeded t1" by blast
  have "Proc (Chdir SERVER_ROOT) \<in> fst ` set t1" "Proc (Setuid (pw_uid (account a))) \<in> fst ` set t1"
    unfolding set_map [symmetric] calls detach_calls_def by simp_all
  then obtain r r' where "(Proc (Chdir SERVER_ROOT), r) \<in> set t1" "(Proc (Setuid (pw_uid (account a))), r') \<in> set t1"
    by auto
  moreover from this ok have "ret r \<noteq> -1" "ret r' \<noteq> -1" by (auto simp: list_all_iff succeeded_def)
  ultimately show ?thesis unfolding settled_def t by auto
qed

lemma serve_placed:
  assumes "placed t"
  shows "wp (tftpd_serve n l s) (\<lambda>t z. placed t) t"
proof -
  have serves: "issues_only (\<lambda>c. \<not> serves c) (daemon_init d wd user)" for d wd user
    unfolding daemon_init_defs daemonize_defs by (auto intro!: issues_intros split: option.split)
  have init: "wp (daemon_init d SERVER_ROOT (Some DAEMON_USER)) (\<lambda>t z. placed t \<and>
      (\<forall>d'. z = Returned (True, d') \<longrightarrow> settled t)) t" if "placed t" for d t
  proof (rule wpI)
    fix u z assume ex: "execs (daemon_init d SERVER_ROOT (Some DAEMON_USER)) u z"
    have "settled (t @ u)" if "z = Returned (True, d')" for d'
      using init_settles [of d u d'] ex that by (auto simp: settled_def)
    then show "placed (t @ u) \<and> (\<forall>d'. z = Returned (True, d') \<longrightarrow> settled (t @ u))"
      using wpD [OF ex wp_placed [OF serves that]] by blast
  qed
  have "placed (t @ [(Lib (Openlog ''tftpd''), r)])" for r
    using placed_append [OF assms] by simp
  then show ?thesis
    unfolding tftpd_serve_def
    by (intro wp_SysI wp_bindI [OF init])
      (auto intro: wp_settled wp_placed placed_more split: prod.split)
qed

text \<open>
  C8: whatever the clients send, the server opens and deletes only files named without a slash
  (besides /dev/null), and each of them only after it has successfully moved to its root
  directory, the only directory it ever moves to, and taken over the identity of its user; it
  runs no program, lists no directory, and changes neither mounts nor its root directory. A
  name without a slash may still be '..', the parent directory itself.
\<close>

theorem tftpd_confined:
  assumes "execs (tftpd_main n argc) (u @ (c, r) # v) z"
  shows "confined c \<and> (serves c \<longrightarrow> settled u)"
proof -
  have serve: "wp (bind (if ret b = -1 then Ret EXIT_FAILURE else tftpd_serve n l s) (\<lambda>exit_code.
      Sys (File (Close s)) (\<lambda>_. Sys (Net Freeaddrinfo) (\<lambda>_. Ret exit_code)))) (\<lambda>t z. placed t) t"
    if "placed t" for b :: reply and l s t
    by (rule wp_bindI [where R = "\<lambda>t z. placed t"])
      (use that serve_placed in \<open>auto intro!: placed_more\<close>)
  have "issues_only (\<lambda>c. \<not> serves c) (set_timeout s)" for s
    unfolding set_timeout_def by (intro issues_intros) simp_all
  note timeout = wp_placed [OF this]
  have "placed []" by (simp add: placed_def)
  then have "wp (tftpd_main n argc) (\<lambda>t z. placed t) []"
    unfolding tftpd_main_def tftpd_start_def
    by (intro wp_ifI wp_SysI wp_RetI wp_bindI [OF timeout] serve placed_more) simp_all
  from execs_wp [OF assms this] have "serves c \<longrightarrow> settled u" unfolding placed_def by blast
  moreover have "confined c" using issues_onlyD [OF assms confined_tftpd_main] by force
  ultimately show ?thesis by blast
qed

section \<open>No read or write outside a buffer\<close>

text \<open>
  The address \<^verbatim>\<open>getaddrinfo\<close> returns fits a \<^verbatim>\<open>struct sockaddr\<close> (it is an IPv4 address), and
  every receive obeys its contract.
\<close>

definition small_addresses :: "event list \<Rightarrow> bool" where
  "small_addresses t \<longleftrightarrow> (\<forall>r. (Net (Getaddrinfo LISTENING_PORT), r) \<in> set t \<longrightarrow>
     ai_addrlen (info r) \<le> SOCKADDR_SIZE)"

definition defined_stop :: "stop \<Rightarrow> bool" where
  "defined_stop h \<longleftrightarrow> h \<noteq> Undefined"

lemma defined_stop_simps [simp]:
  "defined_stop Running" "defined_stop Aborted" "defined_stop Replaced" "defined_stop (Exited c)"
  by (simp_all add: defined_stop_def)

lemma defined_send_error: "stops_only defined_stop (send_error s e a n)"
  by (simp add: send_error_def c_assert_def Let_def)

lemma defined_transfers:
  "stops_only defined_stop (handle_wrq n s path a k tid)"
  "stops_only defined_stop (handle_rrq n s path a k tid)"
  unfolding handle_wrq_def wrq_body_def wrq_round_def wrq_store_def
    handle_rrq_def rrq_round_def rrq_ack_def
  by (auto intro!: stops_intros defined_send_error split: errno.split)

lemma defined_serve: "stops_only defined_stop (serve n s path opcode a k tid)"
  unfolding serve_def log_request_def log_text_def
  by (auto intro!: stops_intros defined_send_error defined_transfers split: sockaddr.split)

lemma defined_handle_request:
  assumes "length ''octet'' < length mode" and "ai_addrlen l \<le> SOCKADDR_SIZE"
  shows "stops_only defined_stop (handle_request n path mode opcode l a k)"
proof -
  have "stops_only defined_stop (pick_tid_attempts m s x)" for m s x
    by (induction m arbitrary: x) (simp_all add: Let_def)
  then have pick: "stops_only defined_stop (pick_tid s x j)" for s x j
    by (simp add: pick_tid_def c_assert_def split: sockaddr.split)
  have check: "stops_only defined_stop (check_request n s path mode opcode a k tid)" for s opcode a tid
    using strcmp_mem_inside [OF assms(1)] unfolding check_request_def
    by (auto intro!: stops_intros defined_serve defined_send_error split: bool.split nat.split)
  show ?thesis
    using assms(2) unfolding handle_request_def request_socket_def set_timeout_def
    by (auto intro!: stops_intros pick check split: sockaddr.split)
qed

text \<open>
  The mode string of a request whose name ends within \<^verbatim>\<open>NAME_MAX + 1\<close> bytes leaves room for the
  six bytes the comparison with \<^verbatim>\<open>"octet"\<close> can look at.
\<close>

lemma mode_inside:
  assumes "length request = MAX_REQUEST_SIZE"
    and "memchr (drop 2 request) NUL (1 + NAME_MAX) = Some i"
  shows "length ''octet'' < length (drop (Suc i) (drop 2 request))"
proof -
  from memchr_SomeD [OF assms(2)] have "i < 256" by (simp add: NAME_MAX_def)
  then show ?thesis using assms(1) by (simp add: MAX_REQUEST_SIZE_def NAME_MAX_def)
qed

lemma defined_dispatch:
  assumes "length request = MAX_REQUEST_SIZE" and "ai_addrlen l \<le> SOCKADDR_SIZE"
  shows "stops_only defined_stop (dispatch n l r opcode request)"
  unfolding dispatch_def Let_def
  by (intro stops_intros defined_handle_request mode_inside assms)

lemma length_request:
  assumes "length request = MAX_REQUEST_SIZE" and "length bs \<le> MAX_REQUEST_SIZE"
  shows "length (overwrite request bs) = MAX_REQUEST_SIZE"
    and "length (store16 v @ drop 2 (overwrite request bs)) = MAX_REQUEST_SIZE"
  using assms by (auto simp: buffer_simps MAX_REQUEST_SIZE_def)

lemma request_size [simp]: "Suc (Suc (MAX_REQUEST_SIZE - 2)) = MAX_REQUEST_SIZE"
  by (simp add: MAX_REQUEST_SIZE_def)

lemma dispatch_keeps:
  "execs (dispatch n l r opcode request) t (Returned (Inl request')) \<Longrightarrow> request' = request"
  unfolding dispatch_def Let_def
  by (auto simp: execs_Sys elim!: execs_bindE split: option.splits if_splits)

definition request_ok :: "event list \<Rightarrow> (buffer + bool) outcome \<Rightarrow> bool" where
  "request_ok t z \<longleftrightarrow> (list_all recv_ok t \<longrightarrow> (case z of
      Returned (Inl request') \<Rightarrow> length request' = MAX_REQUEST_SIZE
    | Returned (Inr b) \<Rightarrow> True
    | Halted h \<Rightarrow> h \<noteq> Undefined))"

lemma dispatch_wp:
  assumes "ai_addrlen l \<le> SOCKADDR_SIZE"
    and "list_all recv_ok t \<longrightarrow> length request = MAX_REQUEST_SIZE"
  shows "wp (dispatch n l r opcode request) request_ok t"
proof (rule wpI)
  fix u z
  assume ex: "execs (dispatch n l r opcode request) u z"
  show "request_ok (t @ u) z"
  proof (cases "list_all recv_ok (t @ u)")
    case True
    with assms(2) have len: "length request = MAX_REQUEST_SIZE" by simp
    from stops_onlyD [OF ex defined_dispatch [OF len assms(1)]] dispatch_keeps [of n l r opcode request u]
      ex len
    show ?thesis
      by (auto simp: request_ok_def defined_stop_def split: outcome.split sum.split)
  qed (auto simp: request_ok_def)
qed

lemma tftpd_round_wp:
  assumes "ai_addrlen l \<le> SOCKADDR_SIZE"
    and "list_all recv_ok t \<longrightarrow> length request = MAX_REQUEST_SIZE"
  shows "wp (tftpd_round n d l request) request_ok t"
  unfolding tftpd_round_def daemon_wait_def
  by (intro wp_intros dispatch_wp assms(1))
    (use assms(2) in \<open>auto simp: request_ok_def recv_ok_def length_request\<close>)

lemma tftpd_loop_wp:
  assumes "ai_addrlen l \<le> SOCKADDR_SIZE"
  shows "wp (loop n (tftpd_round n d l) (replicate MAX_REQUEST_SIZE NUL))
    (\<lambda>t z. list_all recv_ok t \<longrightarrow> z \<noteq> Halted Undefined) t"
  by (rule wp_loop [where I = "\<lambda>t q. list_all recv_ok t \<longrightarrow> length q = MAX_REQUEST_SIZE"])
    (auto intro!: wp_mono [OF tftpd_round_wp [OF assms]] simp: request_ok_def
      split: outcome.splits sum.splits)

lemma defined_daemon_init: "stops_only defined_stop (daemon_init d wd user)"
  unfolding daemon_init_defs daemonize_defs
  by (auto intro!: stops_intros split: option.split)

lemma defined_set_timeout: "stops_only defined_stop (set_timeout s)"
  unfolding set_timeout_def by (intro stops_intros)

lemma defined_wp:
  "stops_only defined_stop p \<Longrightarrow> wp p (\<lambda>t z. z \<noteq> Halted Undefined) t"
  by (rule wp_mono [OF stops_only_wp]) (auto simp: defined_stop_def)

lemma tftpd_serve_wp:
  assumes "ai_addrlen l \<le> SOCKADDR_SIZE"
  shows "wp (tftpd_serve n l s) (\<lambda>t z. list_all recv_ok t \<longrightarrow> z \<noteq> Halted Undefined) t"
  unfolding tftpd_serve_def
  by (rule wp_SysI, rule wp_bindI [OF defined_wp [OF defined_daemon_init]];
      auto intro!: wp_bindI [OF tftpd_loop_wp [OF assms]] simp: recv_ok_def)

lemma tftpd_start_wp:
  assumes "ai_addrlen l \<le> SOCKADDR_SIZE"
  shows "wp (tftpd_start n l) (\<lambda>t z. list_all recv_ok t \<longrightarrow> z \<noteq> Halted Undefined) t"
  unfolding tftpd_start_def
  by (intro wp_SysI wp_ifI wp_bindI [OF defined_wp [OF defined_set_timeout]]
      wp_RetI; auto simp: recv_ok_def intro!: wp_bindI [OF tftpd_serve_wp [OF assms]])

text \<open>
  C10: when the listening address fits a struct sockaddr and receives obey their contract, no
  sequence of requests makes the server read outside the request buffer or overflow its copy of
  the address.
\<close>

theorem tftpd_memory_safe:
  assumes "execs (tftpd_main n argc) t z" and "list_all recv_ok t" and "small_addresses t"
  shows "z \<noteq> Halted Undefined"
proof (cases "\<exists>a u. t = (Net (Getaddrinfo LISTENING_PORT), a) # u \<and> execs (tftpd_start n (info a)) u z")
  case True
  then obtain a u where t: "t = (Net (Getaddrinfo LISTENING_PORT), a) # u"
    and ex: "execs (tftpd_start n (info a)) u z" by blast
  from assms(3) t have "ai_addrlen (info a) \<le> SOCKADDR_SIZE" by (auto simp: small_addresses_def)
  from execs_wp [OF ex tftpd_start_wp [OF this]] assms(2) t show ?thesis by simp
next
  case False
  with assms(1) show ?thesis by (auto simp: tftpd_main_def execs_Sys split: if_splits)
qed

section \<open>Transfer identifiers\<close>

text \<open>The ports \<open>pick_tid\<close> binds, in host order, and how its result reads off the attempts.\<close>

definition bound_ports :: "event list \<Rightarrow> u16 list" where
  "bound_ports t = concat (map (\<lambda>e. case e of
     (Net (Bind s a), r) \<Rightarrow> [ntohs (sa_port a 0)] | _ \<Rightarrow> []) t)"

lemma bound_ports_simps [simp]:
  "bound_ports [] = []"
  "bound_ports ((Net (Bind s a), r) # t) = ntohs (sa_port a 0) # bound_ports t"
  "bound_ports ((Lib l, r) # t) = bound_ports t"
  by (simp_all add: bound_ports_def)

definition tid_range :: "u16 set" where
  "tid_range = {6996, 6997, 6998, 6999}"

lemma random_port_range: "ntohs (RANDOM_PORT n) \<in> tid_range"
proof -
  have "n mod 4 \<in> {0, 1, 2, 3}" by auto
  then show ?thesis by (auto simp: RANDOM_PORT_def tid_range_def MIN_TID_def MAX_CLIENTS_def)
qed

definition is_inet :: "sockaddr \<Rightarrow> bool" where
  "is_inet a \<longleftrightarrow> (case a of Sin p x \<Rightarrow> True | Sin6 p \<Rightarrow> True | _ \<Rightarrow> False)"

lemma is_inet_with_port: "is_inet a \<Longrightarrow> is_inet (with_port a q) \<and> sa_port (with_port a q) old = q"
  by (cases a) (auto simp: is_inet_def)

lemma pick_tid_attempts_exec:
  "execs (pick_tid_attempts k s a) t z \<Longrightarrow> is_inet a \<Longrightarrow>
     set (bound_ports t) \<subseteq> tid_range \<and> length (bound_ports t) \<le> k \<and>
     (z = Returned True \<longleftrightarrow> (\<exists>u b r. t = u @ [(Net (Bind s b), r)] \<and> ret r = 0)) \<and>
     (z = Returned True \<or> z = Returned False)"
proof (induction k arbitrary: a t)
  case 0
  then show ?case by simp
next
  case (Suc k)
  let ?a = "\<lambda>r. with_port a (RANDOM_PORT (ret r))"
  from Suc.prems(1) obtain r b u where
    t: "t = (Lib Rand, r) # (Net (Bind s (?a r)), b) # u"
    and rest: "if ret b = 0 then u = [] \<and> z = Returned True
       else if EADDRINUSE \<noteq> errno b then u = [] \<and> z = Returned False
       else execs (pick_tid_attempts k s (?a r)) u z"
    by (auto simp: execs_Sys Let_def split: if_splits)
  from is_inet_with_port [OF Suc.prems(2)] have a: "is_inet (?a r)" "sa_port (?a r) 0 = RANDOM_PORT (ret r)"
    by auto
  show ?case
  proof (cases "ret b \<noteq> 0 \<and> EADDRINUSE = errno b")
    case True
    with rest have "execs (pick_tid_attempts k s (?a r)) u z" by auto
    from Suc.IH [OF this a(1)] show ?thesis
      using t a True random_port_range by (auto simp: Cons_eq_append_conv)
  next
    case False
    then show ?thesis
      using t a rest random_port_range by (auto simp: Cons_eq_append_conv split: if_splits)
  qed
qed

theorem pick_tid_ports:
  assumes "execs (pick_tid s a n) t (Returned b)"
  shows "set (bound_ports t) \<subseteq> tid_range \<and> length (bound_ports t) \<le> 2 \<and>
    (b \<longleftrightarrow> (\<exists>u x r. t = u @ [(Net (Bind s x), r)] \<and> ret r = 0))"
proof (cases "is_inet a")
  case True
  with assms obtain r u where t: "t = (Lib Srand, r) # u"
    and ex: "execs (pick_tid_attempts MAX_TID_ATTEMPTS s a) u (Returned b)"
    by (auto simp: pick_tid_def c_assert_def execs_Sys is_inet_def split: if_splits sockaddr.splits)
  from pick_tid_attempts_exec [OF ex True] t show ?thesis
    by (auto simp: MAX_TID_ATTEMPTS_def Cons_eq_append_conv)
next
  case False
  with assms show ?thesis
    by (auto simp: pick_tid_def c_assert_def execs_Sys is_inet_def Cons_eq_append_conv
        split: if_splits sockaddr.splits)
qed

section \<open>Error packets\<close>

text \<open>An error packet as RFC 1350 defines it: opcode 5, the error number, a null-terminated text.\<close>

definition is_error_packet :: "buffer \<Rightarrow> nat \<Rightarrow> bool" where
  "is_error_packet p code \<longleftrightarrow> 5 \<le> length p \<and>
     ntohs (packet_opcode p) = PACKET_TYPE_ERROR \<and> ntohs (packet_id p) = of_nat code \<and>
     last p = NUL \<and> NUL \<notin> set (butlast (drop 4 p))"

lemma g_errors_packets: "is_error_packet (g_errors ! (error_number e - 1)) (error_number e)"
  by (cases e) (simp_all add: is_error_packet_def g_errors_def g_file_not_found_def
      g_access_violation_def g_disk_full_def g_illegal_operation_def g_unknown_tid_def
      g_file_exists_def packet_opcode_def packet_id_def load16_def u16_of_def ntohs_def
      low_byte_def high_byte_def byte_of_def)

text \<open>The packets a server may send: a block of at most 512 bytes, an acknowledgment, an error.\<close>

definition tftp_packet :: "buffer \<Rightarrow> bool" where
  "tftp_packet p \<longleftrightarrow>
     (let opcode = ntohs (packet_opcode p) in
      if opcode = PACKET_TYPE_DATA then 4 \<le> length p \<and> length p \<le> DATA_SIZE
      else if opcode = PACKET_TYPE_ACK then length p = 4
      else opcode = PACKET_TYPE_ERROR \<and> (\<exists>code \<in> {1..6}. is_error_packet p code))"

lemma tftp_packet_error: "tftp_packet (g_errors ! (error_number e - 1))"
proof -
  have "error_number e \<in> {1..6}" by (cases e) simp_all
  moreover from g_errors_packets [of e] have "ntohs (packet_opcode (g_errors ! (error_number e - 1))) = PACKET_TYPE_ERROR"
    by (simp add: is_error_packet_def)
  ultimately show ?thesis using g_errors_packets [of e] by (auto simp: tftp_packet_def)
qed

lemma tftp_packet_ack [simp]: "tftp_packet (ack_packet i)"
  by (simp add: tftp_packet_def ack_packet_def packet_opcode_def)

lemma tftp_packet_data [simp]: "tftp_packet (data_packet i p) \<longleftrightarrow> length p \<le> CHUNK_SIZE"
  by (simp add: tftp_packet_def DATA_SIZE_def CHUNK_SIZE_def)

definition sends_typed :: "syscall \<Rightarrow> bool" where
  "sends_typed c \<longleftrightarrow> (case c of Net (Sendto s p a) \<Rightarrow> STDERR_FILENO < s \<and> tftp_packet p | _ \<Rightarrow> True)"

lemma sends_typed_simps [simp]:
  "sends_typed (Net d) \<longleftrightarrow> (case d of Sendto s p a \<Rightarrow> STDERR_FILENO < s \<and> tftp_packet p | _ \<Rightarrow> True)"
  "sends_typed (File c)" "sends_typed (Lib l)" "sends_typed (Proc q)" "sends_typed (Signal g)" "sends_typed (Kern k)"
  by (simp_all add: sends_typed_def)

text \<open>\<^verbatim>\<open>read(2)\<close> stores at most as many bytes as it was asked for.\<close>

definition read_ok :: "syscall \<Rightarrow> reply \<Rightarrow> bool" where
  "read_ok c r \<longleftrightarrow> (case c of File (Read f n) \<Rightarrow> length (out r) \<le> n | _ \<Rightarrow> True)"

abbreviation typed :: "'a prog \<Rightarrow> bool" where
  "typed \<equiv> issues_when read_ok sends_typed"

lemma typed_send_error: "typed (send_error s e a n)"
  by (simp add: send_error_def c_assert_def Let_def tftp_packet_error [simplified])

lemma typed_handle_wrq: "typed (handle_wrq n s path a k tid)"
  unfolding handle_wrq_def wrq_body_def wrq_round_def wrq_store_def
  by (auto intro!: issues_when_intros typed_send_error split: errno.split prod.split)

lemma typed_handle_rrq: "typed (handle_rrq n s path a k tid)"
  unfolding handle_rrq_def rrq_round_def rrq_ack_def
  by (auto intro!: issues_when_intros typed_send_error simp: read_ok_def split: errno.split prod.split)

lemma typed_check_request: "typed (check_request n s path mode opcode a k tid)"
  unfolding check_request_def serve_def log_request_def log_text_def
  by (auto intro!: issues_when_intros typed_send_error typed_handle_wrq typed_handle_rrq
      split: bool.split nat.split sockaddr.split)

lemma typed_handle_request: "typed (handle_request n path mode opcode l a k)"
proof -
  have "typed (pick_tid_attempts m s x)" for m s x
    by (induction m arbitrary: x) (simp_all add: Let_def)
  then have "typed (pick_tid s x j)" for s x j
    by (simp add: pick_tid_def c_assert_def split: sockaddr.split)
  then show ?thesis
    unfolding handle_request_def request_socket_def set_timeout_def
    by (auto intro!: issues_when_intros typed_check_request split: sockaddr.split)
qed

lemma typed_tftpd_main: "typed (tftpd_main n argc)"
proof -
  have "typed (daemon_init d wd user)" for d wd user
    unfolding daemon_init_defs daemonize_defs by (auto intro!: issues_when_intros split: option.split)
  moreover have "typed (tftpd_round n d address request)" for d address request
    unfolding tftpd_round_def dispatch_def daemon_wait_def
    by (auto intro!: issues_when_intros typed_handle_request split: option.split)
  ultimately show ?thesis
    unfolding tftpd_main_def tftpd_start_def tftpd_serve_def set_timeout_def
    by (intro issues_when_intros; simp)
qed

text \<open>
  C12: when read returns at most what it was asked for, every datagram the server sends is a
  well-formed TFTP packet of the right size (data of at most 512 bytes, a 4-byte
  acknowledgment, or a null-terminated error packet numbered 1 to 6), on a socket above the
  standard descriptors.
\<close>

theorem sent_packets_typed:
  assumes "execs (tftpd_main n argc) t z" and "\<forall>e \<in> set t. read_ok (fst e) (snd e)"
    and "(Net (Sendto s p a), r) \<in> set t"
  shows "STDERR_FILENO < s \<and> tftp_packet p"
  using issues_whenD [OF assms(1) typed_tftpd_main assms(2,3)] by simp

section \<open>Which requests are served\<close>

definition opens_only :: "(string \<Rightarrow> bool) \<Rightarrow> syscall \<Rightarrow> bool" where
  "opens_only Q c \<longleftrightarrow> (case c of File (Open p fl m) \<Rightarrow> Q p | _ \<Rightarrow> True)"

lemma opens_only_simps [simp]:
  "opens_only Q (File (Open p fl m)) \<longleftrightarrow> Q p" "opens_only Q (File (Close f))"
  "opens_only Q (File (Read f n))" "opens_only Q (File (Write f b n))" "opens_only Q (File (Unlink p))"
  "opens_only Q (Net c)" "opens_only Q (Lib l)"
  by (simp_all add: opens_only_def)

lemma opens_send_error: "issues_only (opens_only Q) (send_error s e a n)"
  by (simp add: send_error_def c_assert_def Let_def)

lemma opens_serve:
  "Q path \<Longrightarrow> issues_only (opens_only Q) (serve n s path opcode a k tid)"
  unfolding serve_def log_request_def log_text_def handle_wrq_def wrq_body_def wrq_round_def
    wrq_store_def handle_rrq_def rrq_round_def rrq_ack_def
  by (auto intro!: issues_intros opens_send_error split: errno.split sockaddr.split)

definition served_path :: "string \<Rightarrow> buffer \<Rightarrow> string \<Rightarrow> bool" where
  "served_path path mode p \<longleftrightarrow> cstr_of mode = ''octet'' \<and> CHR ''/'' \<notin> set p \<and> (p = path \<or> ''/'' @ p = path)"

lemma opens_check_request:
  "issues_only (opens_only (served_path path mode)) (check_request n s path mode opcode a k tid)"
proof -
  have octet: "cstr_of mode = ''octet''" if "strcmp_mem ''octet'' mode = Some True"
    using strcmp_mem_True [OF that] by simp
  have plain: "CHR ''/'' \<notin> set path" if "strrchr path (CHR ''/'') = None"
    using that by (simp add: strrchr_None_iff)
  have rooted: "CHR ''/'' \<notin> set (drop 1 path) \<and> ''/'' @ drop 1 path = path"
    if "strrchr path (CHR ''/'') = Some 0"
    using strrchr_SomeD [OF that] by (cases path) auto
  show ?thesis
    unfolding check_request_def
    by (auto intro!: issues_intros opens_serve opens_send_error octet plain rooted
        simp: served_path_def split: option.split bool.split nat.split dest: octet plain rooted)
qed

text \<open>
  C9: a file is opened for a request only if its mode is exactly octet, and it is the requested
  path itself or the path without its one leading slash.
\<close>

theorem served_requests:
  assumes "execs (handle_request n path mode opcode l a k) t z"
    and "(File (Open p fl m), r) \<in> set t"
  shows "cstr_of mode = ''octet'' \<and> CHR ''/'' \<notin> set p \<and> (p = path \<or> ''/'' @ p = path)"
proof -
  have "issues_only (opens_only (served_path path mode)) (pick_tid_attempts j s x)" for j s x
    by (induction j arbitrary: x) (simp_all add: Let_def)
  then have "issues_only (opens_only (served_path path mode)) (pick_tid s x j)" for s x j
    by (simp add: pick_tid_def c_assert_def split: sockaddr.split)
  then have "issues_only (opens_only (served_path path mode)) (handle_request n path mode opcode l a k)"
    unfolding handle_request_def request_socket_def set_timeout_def
    by (auto intro!: issues_intros opens_check_request split: sockaddr.split)
  from issues_onlyD [OF assms(1) this assms(2)] show ?thesis by (simp add: served_path_def)
qed

section \<open>Stopping\<close>

lemma no_wait_request: "never_waits (handle_request n path mode opcode l a k)"
proof -
  have err: "never_waits (send_error s e x j)" for s e x j
    by (simp add: send_error_def c_assert_def Let_def)
  have "never_waits (pick_tid_attempts m s x)" for m s x
    by (induction m arbitrary: x) (simp_all add: Let_def)
  then have pick: "never_waits (pick_tid s x j)" for s x j
    by (simp add: pick_tid_def c_assert_def split: sockaddr.split)
  have transfers: "never_waits (serve n s path opcode x k tid)" for s path opcode x tid
    unfolding serve_def log_request_def log_text_def handle_wrq_def wrq_body_def wrq_round_def
      wrq_store_def handle_rrq_def rrq_round_def rrq_ack_def
    by (auto intro!: issues_intros err split: errno.split sockaddr.split)
  have check: "never_waits (check_request n s path mode opcode x k tid)"
    for s path mode opcode x tid
    unfolding check_request_def
    by (auto intro!: issues_intros err transfers split: bool.split nat.split)
  show ?thesis
    unfolding handle_request_def request_socket_def set_timeout_def
    by (auto intro!: issues_intros pick check split: sockaddr.split)
qed

lemma no_wait_dispatch: "never_waits (dispatch n l r opcode request)"
  unfolding dispatch_def by (intro issues_intros no_wait_request) simp

interpretation tftpd_service: daemon_service "tftpd_round n d l" True for n d l
proof
  show "\<exists>e u. t = e # u \<and> waits (fst e) \<and> (\<forall>e' \<in> set u. \<not> waits (fst e'))"
    if "execs (tftpd_round n d l s) t z" for s t z
    using that unfolding tftpd_round_def
    by (rule daemon_wait_round) (intro issues_intros no_wait_dispatch; simp)
  show "u = [] \<and> z = Returned (Inr True)"
    if "execs (tftpd_round n d l s) (e # u) z" "terminated e" for s e u z
    using that unfolding tftpd_round_def by (rule daemon_wait_stops) simp
qed

lemma never_waits_set_timeout: "never_waits (set_timeout s)"
  unfolding set_timeout_def by (intro issues_intros) simp_all

lemma tftpd_serve_quits:
  assumes "calm t"
  shows "wp (tftpd_serve n l s) (quits (\<lambda>v z. z = Returned EXIT_SUCCESS \<and> (\<exists>r. v = [(Lib Closelog, r)]))) t"
proof -
  let ?loop = "\<lambda>ok d. if \<not> ok then Ret False else loop n (tftpd_round n d l) (replicate MAX_REQUEST_SIZE NUL)"
  have "wp (?loop ok d) (quits (\<lambda>v z. v = [] \<and> z = Returned True)) t" if "calm t" for ok d t
    using tftpd_service.service_quits [OF that] that by (auto intro: quits_calm)
  then have "wp (bind (?loop ok d) (\<lambda>success. Sys (Lib Closelog) (\<lambda>_. Ret (if success then EXIT_SUCCESS else EXIT_FAILURE))))
      (quits (\<lambda>v z. z = Returned EXIT_SUCCESS \<and> (\<exists>r. v = [(Lib Closelog, r)]))) t" if "calm t" for ok d t
    by (rule quits_bind) (use that in \<open>auto simp: execs_Sys\<close>)
  then show ?thesis
    unfolding tftpd_serve_def using assms
    by (intro wp_SysI wp_bindI [OF wp_calm [OF never_waits_init]]) (auto simp: not_terminated intro: quits_calm)
qed

text \<open>The end of a server whose socket is \<open>s\<close>.\<close>

definition shut_down :: "fd \<Rightarrow> event list \<Rightarrow> int outcome \<Rightarrow> bool" where
  "shut_down s v z \<longleftrightarrow> z = Returned EXIT_SUCCESS \<and>
     (\<exists>r1 r2 r3. v = [(Lib Closelog, r1), (File (Close s), r2), (Net Freeaddrinfo, r3)])"

lemma tftpd_bound_quits:
  assumes "calm t"
  shows "wp (bind (set_timeout s) (\<lambda>ok. if \<not> ok then Ret EXIT_FAILURE else
     Sys (Net (Bind s (ai_addr l))) (\<lambda>b.
     bind (if ret b = -1 then Ret EXIT_FAILURE else tftpd_serve n l s) (\<lambda>exit_code.
     Sys (File (Close s)) (\<lambda>_.
     Sys (Net Freeaddrinfo) (\<lambda>_. Ret exit_code)))))) (quits (shut_down s)) t"
proof -
  have "wp (if ret b = -1 then Ret EXIT_FAILURE else tftpd_serve n l s)
      (quits (\<lambda>v z. z = Returned EXIT_SUCCESS \<and> (\<exists>r. v = [(Lib Closelog, r)]))) t" if "calm t" for b :: reply and s t
    using tftpd_serve_quits [OF that] that by (auto intro: quits_calm)
  then have "wp (bind (if ret b = -1 then Ret EXIT_FAILURE else tftpd_serve n l s) (\<lambda>exit_code.
      Sys (File (Close s)) (\<lambda>_. Sys (Net Freeaddrinfo) (\<lambda>_. Ret exit_code)))) (quits (shut_down s)) t"
    if "calm t" for b :: reply and s t
    by (rule quits_bind) (use that in \<open>auto simp: execs_Sys shut_down_def\<close>)
  then show ?thesis
    using assms by (intro wp_SysI wp_ifI wp_RetI wp_bindI [OF wp_calm [OF never_waits_set_timeout]])
      (auto simp: not_terminated intro: quits_calm)
qed

text \<open>
  C11: once the wait delivers SIGTERM the server handles no further request: it closes the log
  and the socket it had created first of all, frees the address and reports success, and does
  nothing else.
\<close>

theorem tftpd_sigterm:
  assumes "execs (tftpd_start n l) t z" and "e \<in> set t" and "terminated e"
  shows "\<exists>s u r1 r2 r3. z = Returned EXIT_SUCCESS \<and>
    t = (Net (Socket (ai_family l) (ai_socktype l) (ai_protocol l)), s) # u @
      [e, (Lib Closelog, r1), (File (Close (ret s)), r2), (Net Freeaddrinfo, r3)]"
proof -
  let ?socket = "Net (Socket (ai_family l) (ai_socktype l) (ai_protocol l))"
  from assms(1) obtain s u where t: "t = (?socket, s) # u" unfolding tftpd_start_def by (auto simp: execs_Sys)
  from assms(1) have "quits (shut_down (ret s)) t z"
  proof (cases "ret s = -1")
    case True
    with assms(1) t show ?thesis
      by (auto simp: tftpd_start_def execs_Sys not_terminated intro!: quits_calm)
  next
    case False
    from wpD [OF _ tftpd_bound_quits [where t = "[(?socket, s)]"]] assms(1) t False show ?thesis
      by (auto simp: tftpd_start_def execs_Sys not_terminated)
  qed
  from quitsD [OF this assms(2,3)] obtain w v where w: "t = w @ e # v" "shut_down (ret s) v z" by blast
  with t assms(3) obtain w' where "w = (?socket, s) # w'"
    by (cases w) (auto simp: terminated_def)
  with w show ?thesis unfolding shut_down_def by auto
qed

section \<open>Witnesses\<close>

text \<open>
  A server that serves one request: the child answers the read request for a missing file with
  an error packet. And one that is told to stop at once.
\<close>

definition local_address :: addrinfo where
  "local_address = \<lparr>ai_family = 2, ai_socktype = 2, ai_protocol = 0, ai_addr = Sin 0x4500 0,
     ai_addrlen = 16\<rparr>"

definition start_replies :: "reply list" where
  "start_replies = [reply0\<lparr>info := local_address\<rparr>, returns 3, returns 0, returns 0, returns 0,
     returns 0] @ init_replies"

definition request_example :: buffer where
  "request_example = [NUL, CHR 0x01] @ ''notes'' @ [NUL] @ ''octet'' @ [NUL]"

definition child_example :: "event list \<times> int outcome" where
  "child_example = run (tftpd_main 1 1) (start_replies @
     [signalled SIGRTMIN, (delivers request_example)\<lparr>sender := Sin 7 1, sender_len := 16\<rparr>, returns 0,
      returns 5, returns 0, returns 0, returns 0, returns 42, returns 0, returns 0, fails ENOENT,
      returns 19, returns 0, returns 0, returns 0, returns 0])"

lemma child_example_ok: "snd child_example = Returned EXIT_FAILURE"
  by code_simp

lemma child_example_execs: "execs (tftpd_main 1 1) (fst child_example) (Returned EXIT_FAILURE)"
  using child_example_ok unfolding child_example_def by (rule run_trace) simp

theorem tftpd_confined_witness:
  "\<exists>u r v. fst child_example = u @ (File (Open ''notes'' O_RDONLY 0), r) # v \<and> settled u"
proof -
  have "list_ex (\<lambda>e. fst e = File (Open ''notes'' O_RDONLY 0)) (fst child_example)" by code_simp
  then obtain u r v where t: "fst child_example = u @ (File (Open ''notes'' O_RDONLY 0), r) # v"
    unfolding list_ex_iff by (metis prod.collapse split_list)
  from tftpd_confined [OF child_example_execs [unfolded t]] have "settled u"
    by (simp add: PATH_DEVNULL_def)
  with t show ?thesis by blast
qed

theorem tftpd_memory_safe_witness: "snd child_example \<noteq> Halted Undefined"
proof -
  have recv: "list_all recv_ok (fst child_example)" by code_simp
  have "list_all (\<lambda>e. fst e = Net (Getaddrinfo LISTENING_PORT) \<longrightarrow>
      ai_addrlen (info (snd e)) \<le> SOCKADDR_SIZE) (fst child_example)"
    by code_simp
  then have "small_addresses (fst child_example)"
    unfolding small_addresses_def list_all_iff by force
  from tftpd_memory_safe [OF child_example_execs recv this] show ?thesis
    by (simp add: child_example_ok)
qed

definition busy_replies :: "reply list" where
  "busy_replies = [returns 0, returns 6, fails EADDRINUSE, returns 5, returns 0]"

theorem pick_tid_ports_witness:
  "\<exists>t. set (bound_ports t) \<subseteq> tid_range \<and> bound_ports t = [6998, 6997]"
proof -
  let ?p = "pick_tid 5 (Sin 0x4500 0) 16"
  have "snd (run ?p busy_replies) = Returned True" by code_simp
  then have "execs ?p (fst (run ?p busy_replies)) (Returned True)" by (rule run_trace) simp
  from pick_tid_ports [OF this] have "set (bound_ports (fst (run ?p busy_replies))) \<subseteq> tid_range" by blast
  moreover have "bound_ports (fst (run ?p busy_replies)) = [6998, 6997]" by code_simp
  ultimately show ?thesis by blast
qed

theorem sent_packets_typed_witness:
  "\<exists>s p a r. (Net (Sendto s p a), r) \<in> set (fst child_example) \<and> STDERR_FILENO < s \<and> tftp_packet p"
proof -
  have "list_all (\<lambda>e. case fst e of File (Read f n) \<Rightarrow> length (out (snd e)) \<le> n | _ \<Rightarrow> True) (fst child_example)"
    by code_simp
  then have read: "\<forall>e \<in> set (fst child_example). read_ok (fst e) (snd e)"
    unfolding read_ok_def list_all_iff .
  have "list_ex (\<lambda>e. case fst e of Net (Sendto s p a) \<Rightarrow> True | _ \<Rightarrow> False) (fst child_example)"
    by code_simp
  then obtain c r where c: "(c, r) \<in> set (fst child_example)"
    "case c of Net (Sendto s p a) \<Rightarrow> True | _ \<Rightarrow> False"
    unfolding list_ex_iff by auto
  from c(2) obtain s p a where "c = Net (Sendto s p a)"
    by (cases c) (simp_all split: net_call.split_asm)
  with c(1) have e: "(Net (Sendto s p a), r) \<in> set (fst child_example)" by simp
  from sent_packets_typed [OF child_example_execs read e] e show ?thesis by blast
qed

theorem served_requests_witness:
  "\<exists>e p fl m. e \<in> set (fst (run (handle_request 1 ''/notes'' (''octet'' @ [NUL]) 1 local_address (Sin 7 1) 16)
      [returns 5, returns 0, returns 0, returns 0, returns 42, returns 0, returns 0, fails EPERM,
       returns 21, returns 0])) \<and>
     fst e = File (Open p fl m) \<and> CHR ''/'' \<notin> set p"
proof -
  let ?p = "handle_request 1 ''/notes'' (''octet'' @ [NUL]) 1 local_address (Sin 7 1) 16"
  let ?rs = "[returns 5, returns 0, returns 0, returns 0, returns 42, returns 0, returns 0, fails EPERM,
       returns 21, returns 0]"
  have "snd (run ?p ?rs) = Returned False" by code_simp
  then have ex: "execs ?p (fst (run ?p ?rs)) (Returned False)" by (rule run_trace) simp
  have "list_ex (\<lambda>e. fst e = File (Open ''notes'' O_RDONLY 0)) (fst (run ?p ?rs))" by code_simp
  then obtain e where e: "e \<in> set (fst (run ?p ?rs))" "fst e = File (Open ''notes'' O_RDONLY 0)"
    by (auto simp: list_ex_iff)
  then have "(File (Open ''notes'' O_RDONLY 0), snd e) \<in> set (fst (run ?p ?rs))"
    by (metis prod.collapse)
  from served_requests [OF ex this] e show ?thesis by blast
qed

theorem tftpd_sigterm_witness:
  "snd (run (tftpd_start 1 local_address) (drop 1 start_replies @
     [signalled SIGTERM, returns 0, returns 0, returns 0])) = Returned EXIT_SUCCESS"
proof -
  let ?p = "tftpd_start 1 local_address"
  let ?rs = "drop 1 start_replies @ [signalled SIGTERM, returns 0, returns 0, returns 0]"
  have "plays ?p ?rs" by code_simp
  then have ex: "execs ?p (fst (run ?p ?rs)) (snd (run ?p ?rs))" by (rule run_plays)
  have "list_ex terminated (fst (run ?p ?rs))" by code_simp
  then obtain e where "e \<in> set (fst (run ?p ?rs))" "terminated e" by (auto simp: list_ex_iff)
  from tftpd_sigterm [OF ex this] show ?thesis by blast
qed

end
