(* ===== verification/Find.thy ===== *)
theory Find
  imports Sys
begin

text \<open>
  \<^verbatim>\<open>find.c\<close>: walking a directory tree and running a callback on every regular file whose name
  matches a pattern. The callback carries a state of its own (the \<^verbatim>\<open>void *arg\<close>). The model takes
  a bound on the depth of the tree and one on the entries of a directory; the theorems say how
  large they have to be.
\<close>

section \<open>Pattern matching\<close>

text \<open>
  \<^verbatim>\<open>fnmatch(3)\<close>, for the flags the sources pass (0 and \<^verbatim>\<open>FNM_NOESCAPE\<close>): \<open>*\<close>, \<open>?\<close>, bracket
  expressions with ranges and negation, and, unless \<open>noescape\<close>, the backslash. Character classes
  and collating symbols inside brackets are not part of it.
\<close>

fun bracket_items :: "string \<Rightarrow> ((char \<times> char) list \<times> string) option" where
  "bracket_items [] = None"
| "bracket_items [a] = (if a = CHR '']'' then Some ([], []) else None)"
| "bracket_items [a, d] =
     (if a = CHR '']'' then Some ([], [d])
      else map_option (\<lambda>(is, r). ((a, a) # is, r)) (bracket_items [d]))"
| "bracket_items (a # d # b # rest) =
     (if a = CHR '']'' then Some ([], d # b # rest)
      else if d = CHR ''-'' \<and> b \<noteq> CHR '']'' then
        map_option (\<lambda>(is, r). ((a, b) # is, r)) (bracket_items rest)
      else map_option (\<lambda>(is, r). ((a, a) # is, r)) (bracket_items (d # b # rest)))"

lemma bracket_items_shorter: "bracket_items p = Some (is, r) \<Longrightarrow> length r < length p"
  by (induction p arbitrary: "is" r rule: bracket_items.induct) (fastforce split: if_splits)+

text \<open>A closing bracket right after the opening one stands for itself.\<close>

definition bracket :: "string \<Rightarrow> ((char \<times> char) list \<times> string) option" where
  "bracket p = (case p of
     c # rest \<Rightarrow>
       if c = CHR '']'' then map_option (\<lambda>(is, r). ((c, c) # is, r)) (bracket_items rest)
       else bracket_items p
   | [] \<Rightarrow> None)"

lemma bracket_shorter: "bracket p = Some (is, r) \<Longrightarrow> length r < length p"
  by (auto simp: bracket_def split: list.splits if_splits dest!: bracket_items_shorter)

definition in_bracket :: "char \<Rightarrow> (char \<times> char) list \<Rightarrow> bool" where
  "in_bracket c is \<longleftrightarrow> list_ex (\<lambda>(a, b). of_char a \<le> (of_char c :: nat) \<and> of_char c \<le> (of_char b :: nat)) is"

definition bracket_at :: "string \<Rightarrow> (bool \<times> (char \<times> char) list \<times> string) option" where
  "bracket_at p = (case p of
     c # rest \<Rightarrow>
       if c = CHR ''!'' \<or> c = CHR ''^'' then map_option (\<lambda>(is, r). (True, is, r)) (bracket rest)
       else map_option (\<lambda>(is, r). (False, is, r)) (bracket p)
   | [] \<Rightarrow> None)"

lemma bracket_at_shorter: "bracket_at p = Some (neg, is, r) \<Longrightarrow> length r < length p"
  by (auto simp: bracket_at_def split: list.splits if_splits dest!: bracket_shorter)

function fnmatch :: "bool \<Rightarrow> string \<Rightarrow> string \<Rightarrow> bool" where
  "fnmatch noescape [] s \<longleftrightarrow> s = []"
| "fnmatch noescape (c # p) [] \<longleftrightarrow> c = CHR ''*'' \<and> fnmatch noescape p []"
| "fnmatch noescape (c # p) (x # xs) \<longleftrightarrow>
     (if c = CHR ''*'' then fnmatch noescape p (x # xs) \<or> fnmatch noescape (c # p) xs
      else if c = CHR ''?'' then fnmatch noescape p xs
      else if c = CHR ''['' then
        (case bracket_at p of
           None \<Rightarrow> x = c \<and> fnmatch noescape p xs
         | Some (neg, is, rest) \<Rightarrow> in_bracket x is \<noteq> neg \<and> fnmatch noescape rest xs)
      else if c = CHR 0x5C \<and> \<not> noescape then
        (case p of [] \<Rightarrow> False | e # rest \<Rightarrow> x = e \<and> fnmatch noescape rest xs)
      else x = c \<and> fnmatch noescape p xs)"
  by pat_completeness auto
termination
  by (relation "measure (\<lambda>(n, p, s). length p + length s)") (auto dest: bracket_at_shorter)

declare fnmatch.simps [simp del]

text \<open>A pattern \<open>*suffix\<close> without special characters accepts the names with that ending.\<close>

definition plain :: "char \<Rightarrow> bool" where
  "plain c \<longleftrightarrow> c \<noteq> CHR ''*'' \<and> c \<noteq> CHR ''?'' \<and> c \<noteq> CHR ''['' \<and> c \<noteq> CHR 0x5C"

lemma fnmatch_plain: "list_all plain p \<Longrightarrow> fnmatch n p s \<longleftrightarrow> s = p"
  by (induction p arbitrary: s; case_tac s) (auto simp: fnmatch.simps plain_def)

lemma fnmatch_star: "fnmatch n (CHR ''*'' # p) s \<longleftrightarrow> (\<exists>u v. s = u @ v \<and> fnmatch n p v)"
proof (induction s)
  case Nil
  then show ?case by (simp add: fnmatch.simps)
next
  case (Cons x s)
  have "fnmatch n (CHR ''*'' # p) (x # s) \<longleftrightarrow> fnmatch n p (x # s) \<or> fnmatch n (CHR ''*'' # p) s"
    by (simp add: fnmatch.simps)
  also have "\<dots> \<longleftrightarrow> (\<exists>u v. x # s = u @ v \<and> fnmatch n p v)"
    unfolding Cons by (metis append_Cons append_Nil append_eq_Cons_conv)
  finally show ?case .
qed

lemma fnmatch_suffix: "list_all plain p \<Longrightarrow> fnmatch n (CHR ''*'' # p) s \<longleftrightarrow> suffix p s"
  by (auto simp: fnmatch_star fnmatch_plain suffix_def)

section \<open>Walking\<close>

type_synonym 's callback = "string \<Rightarrow> 's \<Rightarrow> (bool \<times> 's) prog"

text \<open>
  One entry of a directory: \<open>Inl\<close> goes on with the next entry, \<open>Inr\<close> leaves the loop with the
  result of the walk. \<open>recurse\<close> is \<open>find_all\<close> itself.
\<close>

definition find_entry ::
  "'s callback \<Rightarrow> 's callback \<Rightarrow> string \<Rightarrow> string \<Rightarrow> dirent_type \<Rightarrow> string \<Rightarrow> 's \<Rightarrow> ('s + bool \<times> 's) prog" where
  "find_entry recurse callback directory pattern type name s =
     (case type of
        DT_REG \<Rightarrow>
          if fnmatch True pattern name then
            if PATH_MAX \<le> length (join_path directory name) then Ret (Inr (False, s)) else
            bind (callback (join_path directory name) s) (\<lambda>(ok, s).
              Ret (if ok then Inl s else Inr (False, s)))
          else Ret (Inl s)
      | DT_DIR \<Rightarrow>
          if name = ''.'' then Ret (Inl s) else
          if name = ''..'' then Ret (Inl s) else
          if PATH_MAX \<le> length (join_path directory name) then Ret (Inr (False, s)) else
          bind (recurse (join_path directory name) s) (\<lambda>(ok, s).
            Ret (if ok then Inl s else Inr (False, s)))
      | DT_OTHER \<Rightarrow> Ret (Inl s))"

definition find_round ::
  "'s callback \<Rightarrow> 's callback \<Rightarrow> string \<Rightarrow> string \<Rightarrow> int \<Rightarrow> 's \<Rightarrow> ('s + bool \<times> 's) prog" where
  "find_round recurse callback directory pattern handle s =
     Sys (File (Readdir handle)) (\<lambda>r. if ret r \<noteq> 0 then Ret (Inr (False, s)) else
       (case dirent r of
          None \<Rightarrow> Ret (Inr (True, s))
        | Some (type, name) \<Rightarrow> find_entry recurse callback directory pattern type name s))"

primrec find_all :: "nat \<Rightarrow> nat \<Rightarrow> 's callback \<Rightarrow> string \<Rightarrow> string \<Rightarrow> 's \<Rightarrow> (bool \<times> 's) prog" where
  "find_all 0 n callback pattern directory s = Halt Running"
| "find_all (Suc d) n callback pattern directory s =
     Sys (File (Opendir directory)) (\<lambda>handle. if ret handle = 0 then Ret (False, s) else
     bind (loop n (find_round (find_all d n callback pattern) callback directory pattern (ret handle)) s)
       (\<lambda>(ok, s). Sys (File (Closedir (ret handle))) (\<lambda>_. Ret (ok, s))))"

section \<open>The directories of a file system\<close>

text \<open>
  What \<^verbatim>\<open>opendir(3)\<close>, \<^verbatim>\<open>readdir_r(3)\<close> and \<^verbatim>\<open>closedir(3)\<close> answer on a file system whose
  directories hold the given entries and do not change during the walk: a handle is not one in
  use, and its entries come in order. \<open>dir_step\<close> is \<open>None\<close> when a reply breaks this.
\<close>

type_synonym directories = "string \<Rightarrow> (dirent_type \<times> string) list option"
type_synonym handles = "int \<Rightarrow> (dirent_type \<times> string) list option"

definition dir_step :: "directories \<Rightarrow> handles \<Rightarrow> event \<Rightarrow> handles option" where
  "dir_step fs H e = (case e of
     (File (Opendir p), r) \<Rightarrow>
       (case fs p of
          None \<Rightarrow> if ret r = 0 then Some H else None
        | Some es \<Rightarrow> if ret r \<noteq> 0 \<and> H (ret r) = None then Some (H(ret r \<mapsto> es)) else None)
   | (File (Readdir h), r) \<Rightarrow>
       (case H h of
          Some (x # es) \<Rightarrow> if ret r = 0 \<and> dirent r = Some x then Some (H(h \<mapsto> es)) else None
        | Some [] \<Rightarrow> if ret r = 0 \<and> dirent r = None then Some H else None
        | None \<Rightarrow> None)
   | (File (Closedir h), r) \<Rightarrow> Some (H(h := None))
   | _ \<Rightarrow> Some H)"

fun dir_ok :: "directories \<Rightarrow> handles \<Rightarrow> event list \<Rightarrow> bool" where
  "dir_ok fs H [] \<longleftrightarrow> True"
| "dir_ok fs H (e # t) \<longleftrightarrow> (case dir_step fs H e of None \<Rightarrow> False | Some H' \<Rightarrow> dir_ok fs H' t)"

definition dir_call :: "syscall \<Rightarrow> bool" where
  "dir_call c \<longleftrightarrow> (case c of File (Opendir p) \<Rightarrow> True | File (Readdir h) \<Rightarrow> True
     | File (Closedir h) \<Rightarrow> True | _ \<Rightarrow> False)"

lemma dir_call_simps [simp]:
  "dir_call (File (Opendir p))" "dir_call (File (Readdir h))" "dir_call (File (Closedir h))"
  "\<not> dir_call (File (Open p fl m))" "\<not> dir_call (File (Close f))" "\<not> dir_call (File (Stat p))"
  "\<not> dir_call (File (Mmap f n))" "\<not> dir_call (File (Munmap n))"
  "\<not> dir_call (Lib l)" "\<not> dir_call (Kern k)" "\<not> dir_call (Net c)" "\<not> dir_call (Proc q)"
  "\<not> dir_call (Signal g)"
  by (simp_all add: dir_call_def)

abbreviation (input) walk_free :: "event list \<Rightarrow> event list" where
  "walk_free t \<equiv> filter (\<lambda>e. \<not> dir_call (fst e)) t"

lemma dir_step_other: "\<not> dir_call (fst e) \<Longrightarrow> dir_step fs H e = Some H"
  by (cases e) (auto simp: dir_step_def dir_call_def split: syscall.splits file_call.splits)

lemma dir_ok_other: "\<forall>e \<in> set t. \<not> dir_call (fst e) \<Longrightarrow> dir_ok fs H (t @ u) \<longleftrightarrow> dir_ok fs H u"
  by (induction t) (auto simp: dir_step_other)

section \<open>The walk as a list\<close>

text \<open>The matching files below a directory, in the order of the walk.\<close>

definition entry_files ::
  "(string \<Rightarrow> string list) \<Rightarrow> string \<Rightarrow> string \<Rightarrow> dirent_type \<times> string \<Rightarrow> string list" where
  "entry_files below pattern directory e = (case e of (type, name) \<Rightarrow> (case type of
       DT_REG \<Rightarrow> if fnmatch True pattern name then [join_path directory name] else []
     | DT_DIR \<Rightarrow> if name = ''.'' \<or> name = ''..'' then [] else below (join_path directory name)
     | DT_OTHER \<Rightarrow> []))"

primrec files_below :: "nat \<Rightarrow> directories \<Rightarrow> string \<Rightarrow> string \<Rightarrow> string list" where
  "files_below 0 fs pattern directory = []"
| "files_below (Suc d) fs pattern directory =
     concat (map (entry_files (files_below d fs pattern) pattern directory)
       (case fs directory of None \<Rightarrow> [] | Some es \<Rightarrow> es))"

text \<open>The bounds are enough for the tree, and no path is too long for the buffer.\<close>

definition entry_ok :: "(string \<Rightarrow> bool) \<Rightarrow> string \<Rightarrow> string \<Rightarrow> dirent_type \<times> string \<Rightarrow> bool" where
  "entry_ok below_ok pattern directory e \<longleftrightarrow> (case e of (type, name) \<Rightarrow> (case type of
       DT_REG \<Rightarrow> \<not> fnmatch True pattern name \<or> length (join_path directory name) < PATH_MAX
     | DT_DIR \<Rightarrow> name = ''.'' \<or> name = ''..'' \<or>
         (length (join_path directory name) < PATH_MAX \<and> below_ok (join_path directory name))
     | DT_OTHER \<Rightarrow> True))"

primrec walkable :: "nat \<Rightarrow> nat \<Rightarrow> directories \<Rightarrow> string \<Rightarrow> string \<Rightarrow> bool" where
  "walkable 0 n fs pattern directory \<longleftrightarrow> False"
| "walkable (Suc d) n fs pattern directory \<longleftrightarrow> (case fs directory of None \<Rightarrow> False | Some es \<Rightarrow>
     length es < n \<and> list_all (entry_ok (walkable d n fs pattern) pattern directory) es)"

text \<open>The callback on a list of paths, stopping at the first that fails.\<close>

primrec visit_all :: "'s callback \<Rightarrow> string list \<Rightarrow> 's \<Rightarrow> (bool \<times> 's) prog" where
  "visit_all callback [] s = Ret (True, s)"
| "visit_all callback (f # fs) s =
     bind (callback f s) (\<lambda>(ok, s). if ok then visit_all callback fs s else Ret (False, s))"

lemma visit_all_append:
  "visit_all callback (xs @ ys) s =
     bind (visit_all callback xs s) (\<lambda>(ok, s). if ok then visit_all callback ys s else Ret (False, s))"
  by (induction xs arbitrary: s) (auto simp: bind_assoc intro!: arg_cong [where f = "bind _"] ext)

text \<open>
  What is to be shown of one walk \<open>p\<close> that starts with the directories \<open>H\<close> open: without its
  directory calls it is the visit of the files, and it leaves no directory of its own open.
\<close>

definition simulates :: "directories \<Rightarrow> 's callback \<Rightarrow> string list \<Rightarrow> (bool \<times> 's) prog \<Rightarrow> 's \<Rightarrow> bool" where
  "simulates fs callback files p s \<longleftrightarrow> (\<forall>t z H u. execs p t z \<longrightarrow> dir_ok fs H (t @ u) \<longrightarrow>
     execs (visit_all callback files s) (walk_free t) z \<and>
     ((\<exists>x. z = Returned x) \<longrightarrow> dir_ok fs H u))"

lemma simulatesD:
  assumes "simulates fs callback files p s" and "execs p t z" and "dir_ok fs H (t @ u)"
  shows "execs (visit_all callback files s) (walk_free t) z" and "z = Returned x \<Longrightarrow> dir_ok fs H u"
  using assms unfolding simulates_def by blast+

lemma simulates_nothing: "simulates fs callback [] (Ret (True, s)) s"
  by (simp add: simulates_def)

text \<open>
  The interface of a callback: it makes no directory calls. Inside it, a walk is the same as
  the visit of a list.
\<close>

locale file_callback =
  fixes callback :: "'s callback"
  assumes no_dir_calls: "issues_only (\<lambda>c. \<not> dir_call c) (callback f s)"
begin

lemma callback_events: "execs (callback f s) t z \<Longrightarrow> \<forall>e \<in> set t. \<not> dir_call (fst e)"
  using issues_onlyD [OF _ no_dir_calls] by blast

lemma simulates_callback: "simulates fs callback [f] (callback f s) s"
proof -
  have "bind (callback f s) (\<lambda>(ok, s). if ok then Ret (True, s) else Ret (False, s)) = bind (callback f s) Ret"
    by (intro arg_cong [where f = "bind _"] ext) auto
  then have "visit_all callback [f] s = callback f s" by (simp cong: if_cong)
  then show ?thesis
    unfolding simulates_def using callback_events by (metis dir_ok_other filter_True)
qed

lemma entry_shape:
  assumes "entry_ok below_ok pattern directory (type, name)"
    and "\<And>sub s. below_ok sub \<Longrightarrow> simulates fs callback (below sub) (recurse sub s) s"
  shows "\<exists>p. find_entry recurse callback directory pattern type name s =
      bind p (\<lambda>(ok, s). Ret (if ok then Inl s else Inr (False, s))) \<and>
    simulates fs callback (entry_files below pattern directory (type, name)) p s"
proof (cases type)
  case DT_REG
  then show ?thesis
    using assms(1) simulates_callback [of fs] simulates_nothing [of fs callback s]
    by (cases "fnmatch True pattern name")
      (auto simp: find_entry_def entry_ok_def entry_files_def intro: exI [of _ "Ret (True, s)"])
next
  case DT_DIR
  show ?thesis
  proof (cases "name = ''.'' \<or> name = ''..''")
    case True
    with DT_DIR simulates_nothing [of fs callback s] show ?thesis
      by (intro exI [of _ "Ret (True, s)"]) (auto simp: find_entry_def entry_files_def)
  next
    case False
    with DT_DIR assms show ?thesis
      by (intro exI [of _ "recurse (join_path directory name) s"])
        (auto simp: find_entry_def entry_files_def entry_ok_def)
  qed
next
  case DT_OTHER
  with simulates_nothing [of fs callback s] show ?thesis
    by (intro exI [of _ "Ret (True, s)"]) (auto simp: find_entry_def entry_files_def)
qed

text \<open>One entry, and the rest of the directory after it.\<close>

lemma entry_step:
  assumes "execs (bind p (\<lambda>(ok, s). if ok then rest s else Ret (False, s))) t z"
    and "dir_ok fs H (t @ u)" and "simulates fs callback xs p s"
    and rest: "\<And>s t. execs (rest s) t z \<Longrightarrow> dir_ok fs H (t @ u) \<Longrightarrow>
      execs (visit_all callback ys s) (walk_free t) z \<and> (\<forall>x. z = Returned x \<longrightarrow> kept)"
    and stop: "dir_ok fs H u \<Longrightarrow> kept"
  shows "execs (visit_all callback (xs @ ys) s) (walk_free t) z \<and> (\<forall>x. z = Returned x \<longrightarrow> kept)"
  using assms(1)
proof (cases rule: execs_bindE)
  case (returned t1 t2 x)
  obtain b s' where x: "x = (b, s')" by (cases x)
  from assms(2) returned(1) have ok1: "dir_ok fs H (t1 @ (t2 @ u))" by simp
  from simulatesD [OF assms(3) returned(2) ok1] x
  have vis: "execs (visit_all callback xs s) (walk_free t1) (Returned (b, s'))" and ok2: "dir_ok fs H (t2 @ u)" by auto
  note append = execs_bindI [OF vis, of "\<lambda>(ok, s). if ok then visit_all callback ys s else Ret (False, s)"]
  show ?thesis
  proof (cases b)
    case True
    with returned x have "execs (rest s') t2 z" by simp
    from rest [OF this ok2] True append [of "walk_free t2" z] show ?thesis
      by (simp add: visit_all_append returned(1))
  next
    case False
    with returned x have t2: "t2 = []" and z: "z = Returned (False, s')" by auto
    from False append [of "[]" z] stop ok2 t2 z show ?thesis
      by (simp add: visit_all_append returned(1))
  qed
next
  case (halted a)
  from simulatesD(1) [OF assms(3) halted(1) assms(2)] halted(2) show ?thesis
    by (simp add: visit_all_append execs_bind_haltI)
qed

lemma loop_simulates:
  assumes "execs (loop n (find_round recurse callback directory pattern h) s) t z"
    and "dir_ok fs H (t @ u)" and "H h = Some es" and "length es < n"
    and "list_all (entry_ok below_ok pattern directory) es"
    and rec: "\<And>sub s. below_ok sub \<Longrightarrow> simulates fs callback (below sub) (recurse sub s) s"
  shows "execs (visit_all callback (concat (map (entry_files below pattern directory) es)) s)
      (walk_free t) z \<and>
    (\<forall>x. z = Returned x \<longrightarrow> (\<exists>H'. dir_ok fs H' u \<and> H'(h := None) = H(h := None)))"
  using assms(1-5)
proof (induction es arbitrary: n s t H)
  case Nil
  then obtain m where n: "n = Suc m" by (cases n) auto
  from Nil.prems(1) obtain r t' where t: "t = (File (Readdir h), r) # t'"
    unfolding n loop.simps find_round_def by (auto simp: execs_Sys)
  with Nil.prems(2,3) have "ret r = 0" "dirent r = None" "dir_ok fs H (t' @ u)"
    by (auto simp: dir_step_def split: if_splits)
  with Nil.prems(1) t show ?case
    unfolding n loop.simps find_round_def by (auto simp: execs_Sys)
next
  case (Cons e es)
  let ?loop = "\<lambda>m. loop m (find_round recurse callback directory pattern h)"
  let ?kept = "\<exists>H'. dir_ok fs H' u \<and> H'(h := None) = H(h := None)"
  obtain type name where e: "e = (type, name)" by (cases e)
  from Cons.prems(4) obtain m where n: "n = Suc m" and m: "length es < m" by (cases n) auto
  from Cons.prems(1) obtain r t' where t: "t = (File (Readdir h), r) # t'"
    unfolding n loop.simps find_round_def by (auto simp: execs_Sys)
  with Cons.prems(2,3) have r: "ret r = 0" "dirent r = Some (type, name)"
    and ok: "dir_ok fs (H(h \<mapsto> es)) (t' @ u)"
    by (auto simp: dir_step_def e split: if_splits)
  have "entry_ok below_ok pattern directory (type, name)" using Cons.prems(5) e by simp
  from entry_shape [OF this, where below = below and recurse = recurse and s = s, OF rec]
  obtain p where
    p: "find_entry recurse callback directory pattern type name s =
        bind p (\<lambda>(ok, s). Ret (if ok then Inl s else Inr (False, s)))"
    and sim: "simulates fs callback (entry_files below pattern directory (type, name)) p s"
    by blast
  have "bind (find_entry recurse callback directory pattern type name s)
      (\<lambda>x. case x of Inl s' \<Rightarrow> ?loop m s' | Inr a \<Rightarrow> Ret a) =
    bind p (\<lambda>(ok, s). if ok then ?loop m s else Ret (False, s))"
    unfolding p bind_assoc by (intro arg_cong [where f = "bind _"] ext) auto
  with Cons.prems(1) t r have ex: "execs (bind p (\<lambda>(ok, s). if ok then ?loop m s else Ret (False, s))) t' z"
    unfolding n loop.simps find_round_def by (auto simp: execs_Sys)
  have "list_all (entry_ok below_ok pattern directory) es" using Cons.prems(5) by simp
  then have rest: "execs (visit_all callback (concat (map (entry_files below pattern directory) es)) s')
      (walk_free t2) z \<and> (\<forall>x. z = Returned x \<longrightarrow> ?kept)"
    if "execs (?loop m s') t2 z" and "dir_ok fs (H(h \<mapsto> es)) (t2 @ u)" for s' t2
    using Cons.IH [OF that fun_upd_same m] unfolding fun_upd_upd by blast
  have stop: "?kept" if "dir_ok fs (H(h \<mapsto> es)) u" using that by (metis fun_upd_upd)
  from entry_step [OF ex ok sim, where kept = ?kept, OF rest stop] show ?case
    unfolding e by (simp add: t fun_upd_def)
qed

text \<open>Every walk is the visit of the files below its directory.\<close>

lemma find_all_simulates:
  "walkable d n fs pattern directory \<Longrightarrow>
     simulates fs callback (files_below d fs pattern directory) (find_all d n callback pattern directory s) s"
proof (induction d arbitrary: directory s)
  case 0
  then show ?case by simp
next
  case (Suc d)
  from Suc.prems obtain es where es: "fs directory = Some es" "length es < n"
    "list_all (entry_ok (walkable d n fs pattern) pattern directory) es"
    by (auto split: option.splits)
  show ?case
    unfolding simulates_def
  proof (intro allI impI)
    fix t z H u
    assume ex: "execs (find_all (Suc d) n callback pattern directory s) t z"
      and ok: "dir_ok fs H (t @ u)"
    from ex obtain r t' where t: "t = (File (Opendir directory), r) # t'" by (auto simp: execs_Sys)
    with ok es(1) have r: "ret r \<noteq> 0" "H (ret r) = None" and ok': "dir_ok fs (H(ret r \<mapsto> es)) (t' @ u)"
      by (auto simp: dir_step_def split: if_splits)
    from ex t r have ex': "execs (bind (loop n (find_round (find_all d n callback pattern) callback
        directory pattern (ret r)) s) (\<lambda>(ok, s). Sys (File (Closedir (ret r))) (\<lambda>_. Ret (ok, s)))) t' z"
      by (auto simp: execs_Sys)
    from ex' show "execs (visit_all callback (files_below (Suc d) fs pattern directory) s) (walk_free t) z \<and>
        ((\<exists>x. z = Returned x) \<longrightarrow> dir_ok fs H u)"
    proof (cases rule: execs_bindE)
      case (returned t1 t2 x)
      from ok' returned(1) have "dir_ok fs (H(ret r \<mapsto> es)) (t1 @ (t2 @ u))" by simp
      from loop_simulates [OF returned(2) this _ es(2,3), where below = "files_below d fs pattern", OF _ Suc.IH]
      obtain H' where vis: "execs (visit_all callback (files_below (Suc d) fs pattern directory) s)
          (walk_free t1) (Returned x)" and H': "dir_ok fs H' (t2 @ u)" "H'(ret r := None) = H(ret r := None)"
        by (auto simp: es(1))
      from returned(3) obtain r' where t2: "t2 = [(File (Closedir (ret r)), r')]" and z: "z = Returned x"
        by (cases x) (auto simp: execs_Sys)
      from H' t2 r(2) have "dir_ok fs H u" by (simp add: dir_step_def fun_upd_idem)
      with vis t2 z show ?thesis by (simp add: t returned(1))
    next
      case (halted a)
      from loop_simulates [OF halted(1) ok' _ es(2,3), where below = "files_below d fs pattern", OF _ Suc.IH]
        halted(2) t es(1) show ?thesis
        by auto
    qed
  qed
qed

lemma find_all_visits:
  assumes "execs (find_all d n callback pattern directory s) t z"
    and "dir_ok fs Map.empty t" and "walkable d n fs pattern directory"
  shows "execs (visit_all callback (files_below d fs pattern directory) s) (walk_free t) z"
  using simulatesD(1) [OF find_all_simulates [OF assms(3)] assms(1), of Map.empty "[]"] assms(2) by simp

end

section \<open>Invariants of a callback\<close>

text \<open>
  A callback that keeps a relation between the calls made so far and its state; a walk keeps
  it too.
\<close>

definition keeps :: "(event list \<Rightarrow> 's \<Rightarrow> bool) \<Rightarrow> (bool \<times> 's) prog \<Rightarrow> event list \<Rightarrow> bool" where
  "keeps I p t \<longleftrightarrow> wp p (\<lambda>t' z. \<forall>ok s'. z = Returned (ok, s') \<longrightarrow> I t' s') t"

lemma keeps_Ret [simp]: "keeps I (Ret (b, s)) t \<longleftrightarrow> I t s"
  by (simp add: keeps_def)

lemma keeps_bind:
  assumes "keeps I p t" and "\<And>t ok s. I t s \<Longrightarrow> keeps J (k (ok, s)) t"
  shows "keeps J (bind p k) t"
  unfolding keeps_def
  by (rule wp_bindI [OF assms(1) [unfolded keeps_def]])
    (use assms(2) in \<open>auto simp: keeps_def\<close>)

lemma visit_all_keeps:
  "(\<And>f t s. I t s \<Longrightarrow> keeps I (callback f s) t) \<Longrightarrow> I t s \<Longrightarrow> keeps I (visit_all callback fs s) t"
  by (induction fs arbitrary: s t) (auto intro!: keeps_bind [where I = I])

lemma keeps_Sys: "(\<And>r. keeps I (f r) (t @ [(c, r)])) \<Longrightarrow> keeps I (Sys c f) t"
  by (simp add: keeps_def)

locale callback_invariant =
  fixes callback :: "'s callback" and I :: "event list \<Rightarrow> 's \<Rightarrow> bool"
  assumes callback_keeps: "I t s \<Longrightarrow> keeps I (callback f s) t"
    and walk_keeps: "I t s \<Longrightarrow> dir_call c \<Longrightarrow> I (t @ [(c, r)]) s"
begin

lemma entry_keeps:
  assumes "\<And>sub t s. I t s \<Longrightarrow> keeps I (recurse sub s) t" and "I t s"
  shows "wp (find_entry recurse callback directory pattern type name s) (\<lambda>t' z. case z of
      Returned (Inl s') \<Rightarrow> I t' s' | Returned (Inr (ok, s')) \<Rightarrow> I t' s' | Halted h \<Rightarrow> True) t"
proof -
  have pass: "wp (bind p (\<lambda>(ok, s). Ret (if ok then Inl s else Inr (False, s)))) (\<lambda>t' z. case z of
      Returned (Inl s') \<Rightarrow> I t' s' | Returned (Inr (ok, s')) \<Rightarrow> I t' s' | Halted h \<Rightarrow> True) t"
    if "keeps I p t" for p
    by (rule wp_bindI [OF that [unfolded keeps_def]]) auto
  from assms callback_keeps show ?thesis
    by (cases type) (simp_all add: find_entry_def pass)
qed

lemma find_all_keeps: "I t s \<Longrightarrow> keeps I (find_all d n callback pattern directory s) t"
proof (induction d arbitrary: directory s t)
  case 0
  then show ?case by (simp add: keeps_def)
next
  case (Suc d)
  let ?rec = "find_all d n callback pattern"
  have round: "wp (find_round ?rec callback directory pattern h s) (\<lambda>t' z. case z of
      Returned (Inl s') \<Rightarrow> I t' s' | Returned (Inr (ok, s')) \<Rightarrow> I t' s' | Halted h \<Rightarrow> True) t"
    if "I t s" for h t s
    using that walk_keeps [OF that] unfolding find_round_def
    by (auto split: option.split intro!: entry_keeps [OF Suc.IH])
  have "keeps I (loop n (find_round ?rec callback directory pattern h) s) t" if "I t s" for h t s
    unfolding keeps_def
    by (rule wp_loop [where I = I]) (use that round in
      \<open>auto intro!: wp_mono [OF round] split: outcome.splits sum.splits\<close>)
  note loop_keeps = this
  show ?case
    unfolding find_all.simps
  proof (rule keeps_Sys)
    fix r
    have "I (t @ [(File (Opendir directory), r)]) s" using Suc.prems walk_keeps by simp
    then show "keeps I (if ret r = 0 then Ret (False, s) else
        bind (loop n (find_round ?rec callback directory pattern (ret r)) s)
          (\<lambda>(ok, s). Sys (File (Closedir (ret r))) (\<lambda>_. Ret (ok, s)))) (t @ [(File (Opendir directory), r)])"
      by (auto intro!: keeps_bind [where I = I] loop_keeps keeps_Sys walk_keeps)
  qed
qed

end

text \<open>A walk issues its own calls and those of the callback.\<close>

lemma issues_only_find_all:
  assumes "\<And>f s. issues_only P (callback f s)" and "\<And>c. dir_call c \<Longrightarrow> P c"
  shows "issues_only P (find_all d n callback pattern directory s)"
proof (induction d arbitrary: directory s)
  case (Suc d)
  have dir: "P (File (Opendir x))" "P (File (Readdir h))" "P (File (Closedir h))" for x h
    using assms(2) by simp_all
  have entry: "issues_only P (find_entry (find_all d n callback pattern) callback directory pattern type name s)"
    for type name s
    unfolding find_entry_def
    by (cases type; simp; intro impI conjI issues_when_bind Suc.IH assms(1)) (auto split: prod.split)
  have "issues_only P (find_round (find_all d n callback pattern) callback directory pattern h s)" for h s
    unfolding find_round_def by (intro issues_intros dir entry) 
  then show ?case
    by (simp only: find_all.simps) (intro issues_intros dir)
qed simp

section \<open>Properties\<close>

text \<open>
  C14: on a directory tree, walking is nothing but running the callback on the matching files
  of the tree in directory order: the calls that are not the walk's own are those of the visit,
  with the same outcome, given a depth and a directory size large enough for the tree.
\<close>

theorem find_all_refines:
  assumes "execs (find_all d n callback pattern directory s) t z"
    and "dir_ok fs Map.empty t" and "walkable d n fs pattern directory"
    and "\<forall>f s. issues_only (\<lambda>c. \<not> dir_call c) (callback f s)"
  shows "execs (visit_all callback (files_below d fs pattern directory) s)
    (filter (\<lambda>e. \<not> dir_call (fst e)) t) z"
proof -
  have "file_callback callback" using assms(4) by unfold_locales blast
  from file_callback.find_all_visits [OF this assms(1-3)] show ?thesis .
qed

text \<open>A directory with one module, a file of another kind and a directory with a second module.\<close>

definition tree_example :: directories where
  "tree_example p = (if p = ''/m'' then Some [(DT_DIR, ''.''), (DT_REG, ''a.ko''), (DT_REG, ''b.txt''), (DT_DIR, ''s'')]
     else if p = ''/m/s'' then Some [(DT_DIR, ''..''), (DT_REG, ''c.ko'')] else None)"

definition walk_replies :: "reply list" where
  "walk_replies =
     [returns 1, reply0\<lparr>dirent := Some (DT_DIR, ''.'')\<rparr>, reply0\<lparr>dirent := Some (DT_REG, ''a.ko'')\<rparr>, returns 0,
      reply0\<lparr>dirent := Some (DT_REG, ''b.txt'')\<rparr>, reply0\<lparr>dirent := Some (DT_DIR, ''s'')\<rparr>,
      returns 2, reply0\<lparr>dirent := Some (DT_DIR, ''..'')\<rparr>, reply0\<lparr>dirent := Some (DT_REG, ''c.ko'')\<rparr>, returns 0,
      reply0, returns 0, reply0, returns 0]"

definition note_callback :: "string list callback" where
  "note_callback f s = Sys (Lib (Syslog 6 f)) (\<lambda>_. Ret (True, s @ [f]))"

theorem find_all_refines_witness:
  "files_below 2 tree_example ''*.ko'' ''/m'' = [''/m/a.ko'', ''/m/s/c.ko''] \<and>
   (\<exists>t. execs (visit_all note_callback [''/m/a.ko'', ''/m/s/c.ko''] []) t
      (Returned (True, [''/m/a.ko'', ''/m/s/c.ko''])))"
proof -
  let ?p = "find_all 2 5 note_callback ''*.ko'' ''/m'' []"
  have "snd (run ?p walk_replies) = Returned (True, [''/m/a.ko'', ''/m/s/c.ko''])" by code_simp
  then have ex: "execs ?p (fst (run ?p walk_replies)) (Returned (True, [''/m/a.ko'', ''/m/s/c.ko'']))"
    by (rule run_trace) simp
  have files: "files_below 2 tree_example ''*.ko'' ''/m'' = [''/m/a.ko'', ''/m/s/c.ko'']" by code_simp
  have ok: "dir_ok tree_example Map.empty (fst (run ?p walk_replies))" by code_simp
  have walk: "walkable 2 5 tree_example ''*.ko'' ''/m''" by code_simp
  have "\<forall>f s. issues_only (\<lambda>c. \<not> dir_call c) (note_callback f s)" by (simp add: note_callback_def)
  from find_all_refines [OF ex ok walk this] files show ?thesis by auto
qed

end
