(* ===== verification/Module.thy ===== *)
theory Module
  imports Daemon Monitor Find
begin

text \<open>
  \<^verbatim>\<open>module.c\<close> and \<^verbatim>\<open>module.h\<close>: a kernel module file, mapped to memory, and what is read from
  its contents: the list of its dependencies and its aliases.
\<close>

section \<open>Memory-mapped files\<close>

definition PAGE_SIZE :: nat where "PAGE_SIZE = 4096"

text \<open>
  \<^verbatim>\<open>mmap(2)\<close> of the first \<open>n\<close> bytes of a file: the rest of the last page is filled with zeros.
\<close>

definition mapped :: "nat \<Rightarrow> buffer \<Rightarrow> buffer" where
  "mapped n file = overwrite (replicate ((n + PAGE_SIZE - 1) div PAGE_SIZE * PAGE_SIZE) NUL) (take n file)"

text \<open>Evaluation leaves the zeros behind the contents alone.\<close>

definition padding :: "nat \<Rightarrow> nat \<Rightarrow> buffer" where
  "padding n k = drop k (replicate ((n + PAGE_SIZE - 1) div PAGE_SIZE * PAGE_SIZE) NUL)"

declare padding_def [code del]

lemma mapped_code [code]: "mapped n file = take n file @ padding n (length (take n file))"
  by (simp add: mapped_def overwrite_def padding_def)

text \<open>The C string at a pointer; without a null byte before the end of the mapping there is none.\<close>

definition string_at :: "buffer \<Rightarrow> string option" where
  "string_at mem = (if NUL \<in> set mem then Some (cstr_of mem) else None)"

section \<open>Opening and closing\<close>

record module_t =
  module_size :: nat
  module_fd :: fd
  contents :: buffer
  path_ptr :: int
  mod_name :: string

text \<open>
  The name of a module: the file name up to its first dot, with underscores for hyphens.
\<close>

definition module_name_of :: "string \<Rightarrow> string option" where
  "module_name_of path =
     (let name = basename path in
      case strchr name (CHR ''.'') of
        None \<Rightarrow> None
      | Some i \<Rightarrow> Some (map (\<lambda>c. if c = CHR ''-'' then CHR ''_'' else c) (take i name)))"

definition module_map :: "nat \<Rightarrow> int \<Rightarrow> string \<Rightarrow> string \<Rightarrow> module_t option prog" where
  "module_map size0 ptr path name =
     Sys (File (Open path O_RDONLY 0)) (\<lambda>f.
       if ret f = -1 then Sys (Lib (Free ptr)) (\<lambda>_. Ret None) else
     Sys (File (Mmap (ret f) size0)) (\<lambda>m.
       if ret m = -1 then
         Sys (File (Close (ret f))) (\<lambda>_. Sys (Lib (Free ptr)) (\<lambda>_. Ret None))
       else Ret (Some \<lparr>module_size = size0, module_fd = ret f, contents = mapped size0 (out m),
         path_ptr = ptr, mod_name = name\<rparr>)))"

definition module_open :: "string \<Rightarrow> module_t option prog" where
  "module_open path =
     Sys (File (Stat path)) (\<lambda>st. if ret st = -1 then Ret None else
     Sys (Lib (Strdup path)) (\<lambda>p. if ret p = 0 then Ret None else
       (case module_name_of path of
          None \<Rightarrow> Sys (Lib (Free (ret p))) (\<lambda>_. Ret None)
        | Some name \<Rightarrow> module_map (st_size st) (ret p) path name)))"

definition module_close :: "module_t \<Rightarrow> unit prog" where
  "module_close m =
     Sys (File (Munmap (module_size m))) (\<lambda>_.
     Sys (File (Close (module_fd m))) (\<lambda>_.
     Sys (Lib (Free (path_ptr m))) (\<lambda>_. Ret ())))"

definition module_load :: "module_t \<Rightarrow> bool prog" where
  "module_load m =
     c_assert (0 < module_size m)
       (Sys (Kern (Init_module (take (module_size m) (contents m)))) (\<lambda>r.
          if ret r = -1 then
            (if EEXIST \<noteq> errno r then Ret False else Ret True)
          else Ret True))"

section \<open>Dependencies\<close>

text \<open>\<^verbatim>\<open>STRLEN("depends=")\<close> and \<^verbatim>\<open>STRLEN("alias=")\<close>.\<close>

abbreviation (input) STRLEN_depends :: nat where "STRLEN_depends \<equiv> 8"
abbreviation (input) STRLEN_alias :: nat where "STRLEN_alias \<equiv> 6"

lemma STRLEN_literals: "STRLEN_depends = length ''depends=''" "STRLEN_alias = length ''alias=''"
  by simp_all

text \<open>The first of \<open>n\<close> offsets at which a literal starts.\<close>

primrec scan :: "string \<Rightarrow> nat \<Rightarrow> buffer \<Rightarrow> nat option" where
  "scan lit 0 mem = None"
| "scan lit (Suc n) mem =
     (if starts_with mem lit then Some 0 else map_option Suc (scan lit n (drop 1 mem)))"

text \<open>
  The loop over \<^verbatim>\<open>strtok_r\<close>: it stops at the first dependency whose callback fails.
\<close>

function each_token :: "'s callback \<Rightarrow> string \<Rightarrow> 's \<Rightarrow> (bool \<times> 's) prog" where
  "each_token callback position s =
     (case strtok_r (CHR '','') position of
        None \<Rightarrow> Ret (True, s)
      | Some (dependency, rest) \<Rightarrow>
          bind (callback dependency s) (\<lambda>(ok, s).
            if ok then each_token callback rest s else Ret (False, s)))"
  by pat_completeness auto
termination
  by (relation "measure (\<lambda>(cb, p, s). length p)") (auto dest: strtok_r_shorter)

declare each_token.simps [simp del]

definition module_for_each_dependency ::
  "module_t \<Rightarrow> 's callback \<Rightarrow> 's \<Rightarrow> (bool \<times> 's) prog" where
  "module_for_each_dependency m callback s =
     c_assert (STRLEN_depends < module_size m)
       (case scan ''depends='' (module_size m - STRLEN_depends) (contents m) of
          None \<Rightarrow> Ret (False, s)
        | Some offset \<Rightarrow>
            (let dependencies = drop (offset + STRLEN_depends) (contents m) in
             if hd dependencies = NUL then Ret (True, s) else
             (case string_at dependencies of
                None \<Rightarrow> Halt Undefined
              | Some list \<Rightarrow>
                  Sys (Lib (Strdup list)) (\<lambda>copy. if ret copy = 0 then Ret (False, s) else
                  bind (each_token callback list s) (\<lambda>(result, s).
                  Sys (Lib (Free (ret copy))) (\<lambda>_. Ret (result, s)))))))"

section \<open>Aliases\<close>

text \<open>The callback gets the module name and a pointer into the contents.\<close>

type_synonym 's alias_callback = "string \<Rightarrow> buffer \<Rightarrow> 's \<Rightarrow> (bool \<times> 's) prog"

primrec each_alias :: "'s alias_callback \<Rightarrow> string \<Rightarrow> nat \<Rightarrow> buffer \<Rightarrow> 's \<Rightarrow> (bool \<times> 's) prog" where
  "each_alias callback name 0 mem s = Ret (True, s)"
| "each_alias callback name (Suc n) mem s =
     (if starts_with mem ''alias='' then
        bind (callback name (drop (STRLEN_alias) mem) s) (\<lambda>(ok, s).
          if ok then each_alias callback name n (drop 1 mem) s else Ret (False, s))
      else each_alias callback name n (drop 1 mem) s)"

definition module_for_each_alias ::
  "module_t \<Rightarrow> 's alias_callback \<Rightarrow> 's \<Rightarrow> (bool \<times> 's) prog" where
  "module_for_each_alias m callback s =
     c_assert (STRLEN_depends < module_size m)
       (each_alias callback (mod_name m) (module_size m - STRLEN_alias) (contents m) s)"

section \<open>What is found in a module\<close>

lemma scan_Some: "scan lit n mem = Some i \<Longrightarrow>
    i < n \<and> starts_with (drop i mem) lit \<and> (\<forall>j < i. \<not> starts_with (drop j mem) lit)"
proof (induction n arbitrary: mem i)
  case (Suc n)
  show ?case
  proof (cases "starts_with mem lit")
    case True
    with Suc.prems show ?thesis by simp
  next
    case False
    with Suc.prems obtain k where k: "scan lit n (drop 1 mem) = Some k" "i = Suc k" by auto
    from Suc.IH [OF k(1)] k(2) False show ?thesis
      by (auto simp: less_Suc_eq_0_disj)
  qed
qed simp

lemma scan_None: "scan lit n mem = None \<longleftrightarrow> (\<forall>j < n. \<not> starts_with (drop j mem) lit)"
proof (induction n arbitrary: mem)
  case (Suc n)
  then show ?case by (auto simp: less_Suc_eq_0_disj)
qed simp

lemma scan_find: "scan lit n mem = find (\<lambda>i. take (length lit) (drop i mem) = lit) [0..<n]"
proof (cases "scan lit n mem")
  case None
  then have "\<forall>j < n. take (length lit) (drop j mem) \<noteq> lit" by (simp add: scan_None starts_with_def)
  then have "find (\<lambda>i. take (length lit) (drop i mem) = lit) [0..<n] = None" by (simp add: find_None_iff)
  with None show ?thesis by simp
next
  case (Some i)
  with scan_Some [OF Some] show ?thesis
    by (auto simp: starts_with_def find_Some_iff intro!: sym [of _ "Some i"] exI [of _ i])
qed

text \<open>Both loops are the visit of a list.\<close>

lemma each_token_visit: "each_token callback p s = visit_all callback (tokens (CHR '','') p) s"
proof (induction "length p" arbitrary: p s rule: less_induct)
  case less
  show ?case
  proof (cases "strtok_r (CHR '','') p")
    case None
    then show ?thesis by (subst each_token.simps, subst tokens.simps) simp
  next
    case (Some a)
    obtain tok rest where a: "a = (tok, rest)" by (cases a)
    with Some have "length rest < length p" by (auto dest: strtok_r_shorter)
    with less have "each_token callback rest s' = visit_all callback (tokens (CHR '','') rest) s'" for s'
      by simp
    with Some a show ?thesis
      by (subst each_token.simps, subst tokens.simps) (simp cong: if_cong)
  qed
qed

definition alias_pointers :: "nat \<Rightarrow> buffer \<Rightarrow> buffer list" where
  "alias_pointers n mem =
     map (\<lambda>i. drop (i + STRLEN_alias) mem)
       (filter (\<lambda>i. starts_with (drop i mem) ''alias='') [0..<n])"

lemma alias_pointers_Suc:
  "alias_pointers (Suc n) mem =
     (if starts_with mem ''alias='' then [drop (STRLEN_alias) mem] else []) @
     alias_pointers n (drop 1 mem)"
proof -
  have "[0..<Suc n] = 0 # map Suc [0..<n]" by (simp add: map_Suc_upt upt_conv_Cons del: upt_Suc)
  then show ?thesis
    unfolding alias_pointers_def
    by (simp add: filter_map comp_def del: upt_Suc starts_with_Cons)
qed

lemma each_alias_visit:
  "each_alias callback name n mem s = visit_all (callback name) (alias_pointers n mem) s"
proof (induction n arbitrary: mem s)
  case 0
  then show ?case by (simp add: alias_pointers_def)
next
  case (Suc n)
  then show ?case
    by (simp add: alias_pointers_Suc del: starts_with_Cons One_nat_def cong: if_cong)
qed

section \<open>Strings inside the mapping\<close>

lemma mapped_tail:
  assumes "n mod PAGE_SIZE \<noteq> 0" and "k \<le> n"
  shows "NUL \<in> set (drop k (mapped n file))"
proof -
  let ?m = "(n + PAGE_SIZE - 1) div PAGE_SIZE * PAGE_SIZE"
  have "n + PAGE_SIZE - 1 < ?m + PAGE_SIZE"
    using div_mult_mod_eq [of "n + PAGE_SIZE - 1" PAGE_SIZE]
      mod_less_divisor [of PAGE_SIZE "n + PAGE_SIZE - 1"] by (simp add: PAGE_SIZE_def)
  then have "n \<le> ?m" by simp
  moreover have "n \<noteq> ?m" using assms(1) by (metis mod_mult_self2_is_0)
  ultimately have "n < ?m" by simp
  then have "drop n (mapped n file) \<noteq> []" "set (drop n (mapped n file)) \<subseteq> {NUL}"
    by (auto simp: mapped_def overwrite_def)
  then have "NUL \<in> set (drop n (mapped n file))" by (cases "drop n (mapped n file)") auto
  moreover have "set (drop n (mapped n file)) \<subseteq> set (drop k (mapped n file))"
    using assms(2) by (rule set_drop_subset_set_drop)
  ultimately show ?thesis by blast
qed

definition maps_file :: "module_t \<Rightarrow> bool" where
  "maps_file m \<longleftrightarrow> module_size m mod PAGE_SIZE \<noteq> 0 \<and> (\<exists>file. contents m = mapped (module_size m) file)"

lemma string_inside: "maps_file m \<Longrightarrow> k \<le> module_size m \<Longrightarrow> string_at (drop k (contents m)) \<noteq> None"
  using mapped_tail by (auto simp: maps_file_def string_at_def)

section \<open>Properties\<close>

text \<open>
  The dependencies a module declares: the text after the first offset at which \<^verbatim>\<open>depends=\<close>
  stands. The last eight bytes of the file are not such an offset.
\<close>

definition depends_at :: "module_t \<Rightarrow> nat option" where
  "depends_at m = find (\<lambda>i. take STRLEN_depends (drop i (contents m)) = ''depends='')
     [0..<module_size m - STRLEN_depends]"

lemma depends_at_scan: "depends_at m = scan ''depends='' (module_size m - STRLEN_depends) (contents m)"
  by (simp add: depends_at_def scan_find eval_nat_numeral)

definition dependencies :: "module_t \<Rightarrow> string list" where
  "dependencies m = (case depends_at m of None \<Rightarrow> []
     | Some i \<Rightarrow> filter (\<lambda>w. w \<noteq> []) (split_on (CHR '','') (cstr_of (drop (i + STRLEN_depends) (contents m)))))"

text \<open>
  C15: for a file of more than eight bytes that is mapped with a size that is not a multiple of
  the page size, so that a zero byte follows its contents, the scan for the dependencies and
  the loop over strtok_r are equivalent to visiting, in order and once each, the non-empty
  fields between the commas of the text after the first occurrence of depends= that begins
  before the last eight bytes of the file; without one the result is failure.
\<close>

theorem each_dependency_once:
  assumes "STRLEN_depends < module_size m" and "maps_file m"
  shows "module_for_each_dependency m callback s = (case depends_at m of
      None \<Rightarrow> Ret (False, s)
    | Some i \<Rightarrow>
        if cstr_of (drop (i + STRLEN_depends) (contents m)) = [] then Ret (True, s)
        else Sys (Lib (Strdup (cstr_of (drop (i + STRLEN_depends) (contents m))))) (\<lambda>copy.
          if ret copy = 0 then Ret (False, s) else
          bind (visit_all callback (dependencies m) s) (\<lambda>(result, s).
          Sys (Lib (Free (ret copy))) (\<lambda>_. Ret (result, s)))))"
proof (cases "depends_at m")
  case None
  with assms show ?thesis
    by (simp add: module_for_each_dependency_def c_assert_def depends_at_scan)
next
  case (Some i)
  let ?d = "drop (i + STRLEN_depends) (contents m)"
  have "i < module_size m - STRLEN_depends"
    using scan_Some [OF Some [unfolded depends_at_scan]] by blast
  then have i: "i + STRLEN_depends \<le> module_size m" by simp
  from string_inside [OF assms(2) i] have str: "string_at ?d = Some (cstr_of ?d)" "NUL \<in> set ?d"
    by (auto simp: string_at_def split: if_splits)
  then have "hd ?d = NUL \<longleftrightarrow> cstr_of ?d = []" by (cases ?d) (auto simp: cstr_of_def)
  moreover have "each_token callback (cstr_of ?d) s = visit_all callback (dependencies m) s"
    using Some by (simp add: dependencies_def each_token_visit tokens_eq_split)
  ultimately show ?thesis
    using Some assms(1) str
    by (simp add: module_for_each_dependency_def c_assert_def depends_at_scan Let_def cong: if_cong)
qed

text \<open>
  C16: opening a module and closing it again leaves no descriptor open and no memory allocated,
  on every path, the failed ones included.
\<close>

theorem module_open_close:
  assumes "execs (bind (module_open path) (\<lambda>m. case m of
      None \<Rightarrow> Ret False | Some m \<Rightarrow> bind (module_close m) (\<lambda>_. Ret True))) t (Returned b)"
  shows "open_fds t = {} \<and> allocated t = {}"
proof -
  have "wp (bind (module_open path) (\<lambda>m. case m of
      None \<Rightarrow> Ret False | Some m \<Rightarrow> bind (module_close m) (\<lambda>_. Ret True)))
    (\<lambda>t z. open_fds t = {} \<and> allocated t = {}) []"
    unfolding module_open_def module_map_def module_close_def
    using open_fds_append [of "[]"] allocated_append [of "[]"]
    by (intro wp_intros; auto simp: wp_bind)
  from execs_wp [OF assms this] show ?thesis by simp
qed

section \<open>Witnesses\<close>

definition module_file :: buffer where
  "module_file = [CHR 0x7F] @ ''depends=b,,c-d'' @ [NUL] @ ''alias=pci:*'' @ [NUL]"

definition module_example :: module_t where
  "module_example = \<lparr>module_size = length module_file, module_fd = 3,
     contents = mapped (length module_file) module_file, path_ptr = 1, mod_name = ''a''\<rparr>"

lemma module_example_maps: "maps_file module_example"
proof -
  have "module_size module_example mod PAGE_SIZE \<noteq> 0"
    by (simp add: module_example_def module_file_def PAGE_SIZE_def)
  then show ?thesis unfolding maps_file_def by (simp add: module_example_def) blast
qed

lemma module_example_contents:
  "contents module_example = module_file @ replicate (PAGE_SIZE - length module_file) NUL"
  by (simp add: module_example_def mapped_def overwrite_def PAGE_SIZE_def module_file_def)

theorem each_dependency_once_witness:
  "\<exists>k. module_for_each_dependency module_example note_callback [] = Sys (Lib (Strdup ''b,,c-d'')) k \<and>
     dependencies module_example = [''b'', ''c-d'']"
proof -
  have len: "module_size module_example = length module_file" by (simp add: module_example_def)
  have size: "STRLEN_depends < module_size module_example" by (simp add: len module_file_def)
  have at: "depends_at module_example = Some 1"
    by (simp add: depends_at_scan len module_example_contents module_file_def numeral_eq_Suc)
  have str: "cstr_of (drop (1 + STRLEN_depends) (contents module_example)) = ''b,,c-d''"
    by (simp add: module_example_contents module_file_def cstr_of_def)
  have deps: "dependencies module_example = [''b'', ''c-d'']"
    unfolding dependencies_def at option.case str by code_simp
  from each_dependency_once [OF size module_example_maps, of note_callback "[]"] deps
  show ?thesis by (simp only: at str option.case list.distinct if_False) blast
qed

theorem module_open_close_witness:
  "\<exists>t. length t = 6 \<and> open_fds t = {} \<and> allocated t = {}"
proof -
  let ?p = "bind (module_open ''/m/a.ko'') (\<lambda>m. case m of
      None \<Rightarrow> Ret False | Some m \<Rightarrow> bind (module_close m) (\<lambda>_. Ret True))"
  let ?rs = "[reply0\<lparr>st_size := 29\<rparr>, returns 9, returns 3, fails EINVAL, returns 0, returns 0]"
  have "snd (run ?p ?rs) = Returned False" by code_simp
  then have "execs ?p (fst (run ?p ?rs)) (Returned False)" by (rule run_trace) simp
  from module_open_close [OF this] have "open_fds (fst (run ?p ?rs)) = {} \<and> allocated (fst (run ?p ?rs)) = {}" .
  moreover have "length (fst (run ?p ?rs)) = 6" by code_simp
  ultimately show ?thesis by blast
qed

end
