(* ===== verification/Cache.thy ===== *)
theory Cache
  imports Module
begin

text \<open>
  \<^verbatim>\<open>cache.c\<close> and \<^verbatim>\<open>cache.h\<close>: the cache of module names, paths and aliases that \<^verbatim>\<open>modprobed\<close>
  builds once and searches for every request. The arrays are lists; the pointers \<^verbatim>\<open>realloc\<close> and
  \<^verbatim>\<open>strdup\<close> return are kept beside them, so that what is freed can be compared with what was
  allocated. The count of an array is the length of its list.
\<close>

section \<open>Data\<close>

definition KERNEL_MODULES_DIRECTORY :: string where
  "KERNEL_MODULES_DIRECTORY = ''/lib/modules''"

record cache_entry_t =
  entry_path :: string
  entry_name :: string
  aliases_ptr :: int
  aliases :: "(int \<times> string) list"

record cache_t =
  entries_ptr :: int
  entries :: "cache_entry_t list"

text \<open>\<^verbatim>\<open>sizeof(char *)\<close> and \<^verbatim>\<open>sizeof(cache_entry_t)\<close>.\<close>

definition POINTER_SIZE :: nat where "POINTER_SIZE = 8"
definition ENTRY_SIZE :: nat where "ENTRY_SIZE = 4368"

definition new_entry :: cache_entry_t where
  "new_entry = \<lparr>entry_path = [], entry_name = [], aliases_ptr = 0, aliases = []\<rparr>"

section \<open>Building the cache\<close>

definition append_alias :: "string \<Rightarrow> buffer \<Rightarrow> cache_entry_t \<Rightarrow> (bool \<times> cache_entry_t) prog" where
  "append_alias name alias e =
     Sys (Lib (Realloc (aliases_ptr e) (POINTER_SIZE * Suc (length (aliases e))))) (\<lambda>r.
       if ret r = 0 then
         Sys (Lib (Free (aliases_ptr e))) (\<lambda>_. Ret (False, e\<lparr>aliases := []\<rparr>))
       else
         (case string_at alias of
            None \<Rightarrow> Halt Undefined
          | Some text \<Rightarrow>
              Sys (Lib (Strdup text)) (\<lambda>p.
                Ret (ret p \<noteq> 0, e\<lparr>aliases_ptr := ret r, aliases := aliases e @ [(ret p, text)]\<rparr>))))"

definition cache_module :: "string \<Rightarrow> cache_t \<Rightarrow> module_t \<Rightarrow> int \<Rightarrow> (bool \<times> cache_t) prog" where
  "cache_module path cache m new_entries =
     bind (module_for_each_alias m append_alias new_entry) (\<lambda>(result, e).
       if PATH_MAX \<le> length path \<or> NAME_MAX \<le> length (mod_name m) then Halt Undefined else
       bind (module_close m) (\<lambda>_. Ret (result,
         \<lparr>entries_ptr = new_entries,
          entries = entries cache @ [e\<lparr>entry_path := path, entry_name := mod_name m\<rparr>]\<rparr>)))"

definition append_opened :: "string \<Rightarrow> cache_t \<Rightarrow> module_t \<Rightarrow> (bool \<times> cache_t) prog" where
  "append_opened path cache m =
     Sys (Lib (Realloc (entries_ptr cache) (ENTRY_SIZE * Suc (length (entries cache))))) (\<lambda>r.
       if ret r = 0 then bind (module_close m) (\<lambda>_. Ret (False, cache))
       else cache_module path cache m (ret r))"

definition append_module :: "string \<Rightarrow> cache_t \<Rightarrow> (bool \<times> cache_t) prog" where
  "append_module path cache =
     bind (module_open path) (\<lambda>opened. case opened of
       None \<Rightarrow> Ret (False, cache)
     | Some m \<Rightarrow> append_opened path cache m)"

lemmas append_module_defs = append_module_def append_opened_def cache_module_def

primrec free_each :: "int list \<Rightarrow> unit prog" where
  "free_each [] = Ret ()"
| "free_each (p # ps) = Sys (Lib (Free p)) (\<lambda>_. free_each ps)"

primrec free_entries :: "cache_entry_t list \<Rightarrow> unit prog" where
  "free_entries [] = Ret ()"
| "free_entries (e # es) =
     (if length (aliases e) = 0 then free_entries es else
      bind (free_each (map fst (aliases e))) (\<lambda>_.
      Sys (Lib (Free (aliases_ptr e))) (\<lambda>_. free_entries es)))"

definition cache_free :: "cache_t \<Rightarrow> unit prog" where
  "cache_free cache =
     c_assert (entries_ptr cache \<noteq> 0) (c_assert (0 < length (entries cache))
       (bind (free_entries (entries cache)) (\<lambda>_.
        Sys (Lib (Free (entries_ptr cache))) (\<lambda>_. Ret ()))))"

definition cache_generate :: "nat \<Rightarrow> nat \<Rightarrow> cache_t \<Rightarrow> (bool \<times> cache_t) prog" where
  "cache_generate d n cache =
     Sys (Kern Uname) (\<lambda>kernel. if ret kernel = -1 then Ret (True, cache) else
       (let path = join_path KERNEL_MODULES_DIRECTORY (out kernel) in
        if PATH_MAX \<le> length path then Ret (False, cache) else
        bind (find_all d n append_module ''*.ko'' path cache) (\<lambda>(ok, cache).
          if \<not> ok then
            (if entries_ptr cache \<noteq> 0 then bind (cache_free cache) (\<lambda>_. Ret (False, cache))
             else Ret (False, cache))
          else Ret (True, cache))))"

section \<open>Searching\<close>

text \<open>The loop of \<^verbatim>\<open>_module_cmp\<close> over two names of the same length.\<close>

fun same_characters :: "string \<Rightarrow> string \<Rightarrow> bool" where
  "same_characters [] b \<longleftrightarrow> True"
| "same_characters (x # a) [] \<longleftrightarrow> False"
| "same_characters (x # a) (y # b) \<longleftrightarrow>
     (if x = CHR ''-'' \<or> x = CHR ''_'' then
        (if y = CHR ''-'' \<or> y = CHR ''_'' then same_characters a b else False)
      else if x \<noteq> y then False
      else same_characters a b)"

definition module_cmp :: "string \<Rightarrow> string \<Rightarrow> bool prog" where
  "module_cmp a b =
     c_assert (a \<noteq> [])
       (if length b \<noteq> length a then Ret False else Ret (same_characters a b))"

primrec find_module_in :: "string \<Rightarrow> cache_entry_t list \<Rightarrow> cache_entry_t option prog" where
  "find_module_in name [] = Ret None"
| "find_module_in name (e # es) =
     bind (module_cmp name (entry_name e)) (\<lambda>b. if b then Ret (Some e) else find_module_in name es)"

definition cache_find_module :: "cache_t \<Rightarrow> string \<Rightarrow> cache_entry_t option prog" where
  "cache_find_module cache name = find_module_in name (entries cache)"

primrec matching_alias :: "string \<Rightarrow> (int \<times> string) list \<Rightarrow> bool" where
  "matching_alias alias [] \<longleftrightarrow> False"
| "matching_alias alias (a # as) \<longleftrightarrow>
     (if fnmatch False (snd a) alias then True else matching_alias alias as)"

primrec find_alias_in :: "string \<Rightarrow> cache_entry_t list \<Rightarrow> cache_entry_t option" where
  "find_alias_in alias [] = None"
| "find_alias_in alias (e # es) =
     (if matching_alias alias (aliases e) then Some e else find_alias_in alias es)"

definition cache_find_alias :: "cache_t \<Rightarrow> string \<Rightarrow> cache_entry_t option prog" where
  "cache_find_alias cache alias =
     (case find_alias_in alias (entries cache) of
        Some e \<Rightarrow> Ret (Some e)
      | None \<Rightarrow>
          (case strchr alias (CHR '':'') of
             None \<Rightarrow> Ret None
           | Some i \<Rightarrow>
               (let name = drop (Suc i) alias in
                if name \<noteq> [] then cache_find_module cache name else Ret None)))"

section \<open>Names\<close>

text \<open>Two names are the same module when they differ in hyphens and underscores only.\<close>

definition canonical :: "string \<Rightarrow> string" where
  "canonical = map (\<lambda>c. if c = CHR ''-'' then CHR ''_'' else c)"

lemma same_characters_iff:
  "length a = length b \<Longrightarrow> same_characters a b \<longleftrightarrow> canonical a = canonical b"
  by (induction a b rule: same_characters.induct) (auto simp: canonical_def)

lemma module_cmp_eq: "a \<noteq> [] \<Longrightarrow> module_cmp a b = Ret (canonical a = canonical b)"
  using same_characters_iff [of a b]
  by (auto simp: module_cmp_def c_assert_def dest: arg_cong [where f = length])
    (auto simp: canonical_def dest: map_eq_imp_length_eq)

lemma canonical_idem [simp]: "canonical (canonical a) = canonical a"
  by (auto simp: canonical_def)

lemma canonical_Nil [simp]: "canonical a = [] \<longleftrightarrow> a = []"
  by (simp add: canonical_def)

text \<open>
  The interface of the search: a comparison that answers without side effects whether two
  names have the same key.
\<close>

locale name_search =
  fixes compare :: "string \<Rightarrow> string \<Rightarrow> bool prog" and key :: "string \<Rightarrow> string"
  assumes compare_key: "a \<noteq> [] \<Longrightarrow> compare a b = Ret (key a = key b)"
    and key_Nil: "key a = [] \<longleftrightarrow> a = []"
begin

primrec first :: "string \<Rightarrow> cache_entry_t list \<Rightarrow> cache_entry_t option prog" where
  "first name [] = Ret None"
| "first name (e # es) =
     bind (compare name (entry_name e)) (\<lambda>b. if b then Ret (Some e) else first name es)"

lemma first_find: "name \<noteq> [] \<Longrightarrow> first name es = Ret (find (\<lambda>e. key (entry_name e) = key name) es)"
  by (induction es) (auto simp: compare_key)

lemma first_same_key: "a \<noteq> [] \<Longrightarrow> key a = key b \<Longrightarrow> first a es = first b es"
  using first_find key_Nil by metis

lemma first_own_name:
  assumes "name \<noteq> []" and "e \<in> set es" and "entry_name e = name"
    and "\<And>e'. e' \<in> set es \<Longrightarrow> key (entry_name e') = key name \<Longrightarrow> e' = e"
  shows "first name es = Ret (Some e)"
proof -
  from assms obtain e' where "find (\<lambda>e. key (entry_name e) = key name) es = Some e'"
    by (metis (mono_tags, lifting) find_None_iff not_Some_eq)
  moreover from this have "e' = e" using assms(4) by (auto simp: find_Some_iff)
  ultimately show ?thesis using first_find [OF assms(1)] by simp
qed

end

interpretation names: name_search module_cmp canonical
  by unfold_locales (simp_all add: module_cmp_eq)

lemma find_module_in_first: "find_module_in name es = names.first name es"
  by (induction es) (simp_all cong: if_cong)

lemma matching_alias_iff: "matching_alias alias as \<longleftrightarrow> (\<exists>a \<in> set as. fnmatch False (snd a) alias)"
  by (induction as) auto

lemma find_alias_in_find:
  "find_alias_in alias es = find (\<lambda>e. \<exists>a \<in> set (aliases e). fnmatch False (snd a) alias) es"
  by (induction es) (auto simp: matching_alias_iff)

lemma cache_find_module_find:
  "name \<noteq> [] \<Longrightarrow> cache_find_module cache name =
     Ret (find (\<lambda>e. canonical (entry_name e) = canonical name) (entries cache))"
  by (simp add: cache_find_module_def find_module_in_first names.first_find)

lemma cache_find_alias_find:
  "cache_find_alias cache al =
     (case find (\<lambda>e. \<exists>a \<in> set (aliases e). fnmatch False (snd a) al) (entries cache) of
        Some e \<Rightarrow> Ret (Some e)
      | None \<Rightarrow>
          let name = drop 1 (dropWhile (\<lambda>c. c \<noteq> CHR '':'') al) in
          if name = [] then Ret None
          else Ret (find (\<lambda>e. canonical (entry_name e) = canonical name) (entries cache)))"
proof -
  have "strchr al (CHR '':'') = None \<longleftrightarrow> dropWhile (\<lambda>c. c \<noteq> CHR '':'') al = []"
    by (auto simp: strchr_None_iff)
  moreover have "drop 1 (dropWhile (\<lambda>c. c \<noteq> CHR '':'') al) = []"
    if "strchr al (CHR '':'') = None"
  proof -
    from that have "dropWhile (\<lambda>c. c \<noteq> CHR '':'') al = []" by (auto simp: strchr_None_iff)
    then show ?thesis by (simp only: drop_Nil)
  qed
  moreover have "drop (Suc i) al = drop 1 (dropWhile (\<lambda>c. c \<noteq> CHR '':'') al)"
    if "strchr al (CHR '':'') = Some i" for i
    using that by (induction al arbitrary: i) (auto split: if_splits)
  ultimately have name: "(case strchr al (CHR '':'') of None \<Rightarrow> Ret None | Some i \<Rightarrow>
      (let name = drop (Suc i) al in if name \<noteq> [] then cache_find_module cache name else Ret None)) =
    (let name = drop 1 (dropWhile (\<lambda>c. c \<noteq> CHR '':'') al) in if name = [] then Ret None
      else Ret (find (\<lambda>e. canonical (entry_name e) = canonical name) (entries cache)))"
    by (cases "strchr al (CHR '':'')") (simp_all add: cache_find_module_find Let_def del: One_nat_def)
  show ?thesis
    unfolding cache_find_alias_def find_alias_in_find name ..
qed

section \<open>What the cache holds\<close>

lemma no_walk_aliases: "issues_only (\<lambda>c. \<not> dir_call c) (module_for_each_alias m append_alias e)"
proof -
  have "issues_only (\<lambda>c. \<not> dir_call c) (append_alias name al e)" for name al e
    unfolding append_alias_def by (intro issues_intros) simp_all
  then have "issues_only (\<lambda>c. \<not> dir_call c) (each_alias append_alias name n mem e)" for name n mem e
    by (induction n arbitrary: mem e)
      (auto intro!: issues_when_bind simp del: starts_with_Cons split: prod.split)
  then show ?thesis
    unfolding module_for_each_alias_def by (intro issues_intros)
qed

interpretation append: file_callback append_module
proof
  show "issues_only (\<lambda>c. \<not> dir_call c) (append_module f s)" for f s
    unfolding append_module_defs module_open_def module_map_def module_close_def
    by (auto intro!: issues_intros no_walk_aliases split: option.split)
qed

definition cached :: "string \<Rightarrow> cache_entry_t \<Rightarrow> bool" where
  "cached path e \<longleftrightarrow> entry_path e = path \<and> module_name_of path = Some (entry_name e) \<and>
     length (entry_path e) < PATH_MAX \<and> length (entry_name e) < NAME_MAX"

lemma append_module_returns:
  assumes "execs (append_module path cache) t (Returned (True, cache'))"
  shows "\<exists>e. entries cache' = entries cache @ [e] \<and> cached path e"
proof -
  have "wp (append_module path cache) (\<lambda>t z. z = Returned (True, cache') \<longrightarrow>
      (\<exists>e. entries cache' = entries cache @ [e] \<and> cached path e)) []"
    unfolding append_module_defs module_open_def module_map_def module_close_def
    by (intro wp_intros; simp add: wp_bind) (auto intro!: wpI simp: cached_def split: outcome.splits)
  from execs_wp [OF assms this] show ?thesis by simp
qed

lemma visit_append:
  "execs (visit_all append_module paths cache) t (Returned (True, cache')) \<Longrightarrow>
     \<exists>es. entries cache' = entries cache @ es \<and> list_all2 cached paths es"
proof (induction paths arbitrary: cache t)
  case Nil
  then show ?case by simp
next
  case (Cons p ps)
  from Cons.prems obtain t1 t2 c where "execs (append_module p cache) t1 (Returned (True, c))"
    "execs (visit_all append_module ps c) t2 (Returned (True, cache'))"
    by (auto elim!: execs_bindE split: if_splits)
  with append_module_returns Cons.IH show ?case by fastforce
qed

text \<open>A successful build has found the kernel release and walked its directory.\<close>

lemma cache_generate_True:
  assumes "execs (cache_generate d n cache) t (Returned (True, cache'))"
  obtains kernel u where "t = (Kern Uname, kernel) # u"
    "ret kernel \<noteq> -1 \<longrightarrow> execs (find_all d n append_module ''*.ko''
      (join_path KERNEL_MODULES_DIRECTORY (out kernel)) cache) u (Returned (True, cache'))"
proof -
  from assms obtain kernel u where t: "t = (Kern Uname, kernel) # u"
    by (auto simp: cache_generate_def execs_Sys)
  have "execs (find_all d n append_module ''*.ko''
      (join_path KERNEL_MODULES_DIRECTORY (out kernel)) cache) u (Returned (True, cache'))"
    if "ret kernel \<noteq> -1"
    using assms that unfolding t cache_generate_def
    by (auto simp: execs_Sys Let_def elim!: execs_bindE split: if_splits)
  with t that show ?thesis by blast
qed

section \<open>Memory\<close>

text \<open>The addresses a cache owns, and what a build may have lost.\<close>

definition entry_owned :: "cache_entry_t \<Rightarrow> int set" where
  "entry_owned e = (if aliases e = [] then {} else insert (aliases_ptr e) (fst ` set (aliases e)))"

lemma entry_owned_named [simp]:
  "entry_owned (e\<lparr>entry_path := p, entry_name := n\<rparr>) = entry_owned e"
  by (simp add: entry_owned_def)

definition cache_owned :: "cache_t \<Rightarrow> int set" where
  "cache_owned c = insert (entries_ptr c) (\<Union> (entry_owned ` set (entries c)))"

text \<open>No enlargement of an alias array that holds something has failed.\<close>

definition grows :: "event list \<Rightarrow> bool" where
  "grows t \<longleftrightarrow> list_all (\<lambda>e. case e of (Lib (Realloc p n), r) \<Rightarrow> ret r \<noteq> 0 | _ \<Rightarrow> True) t"

lemma grows_simps [simp]:
  "grows []" "grows (t @ u) \<longleftrightarrow> grows t \<and> grows u"
  "grows ((File c, r) # t) \<longleftrightarrow> grows t" "grows ((Kern k, r) # t) \<longleftrightarrow> grows t"
  "grows ((Lib (Free p), r) # t) \<longleftrightarrow> grows t" "grows ((Lib (Strdup s), r) # t) \<longleftrightarrow> grows t"
  "grows ((Lib (Realloc p n), r) # t) \<longleftrightarrow> ret r \<noteq> 0 \<and> grows t"
  by (auto simp: grows_def)

definition owns :: "int set \<Rightarrow> event list \<Rightarrow> bool" where
  "owns A t \<longleftrightarrow> (grows t \<longrightarrow> allocated t - {0} \<subseteq> A)"

definition entry_owns :: "int set \<Rightarrow> event list \<Rightarrow> cache_entry_t \<Rightarrow> bool" where
  "entry_owns X t e \<longleftrightarrow> owns (entry_owned e \<union> X) t \<and> (aliases e = [] \<longrightarrow> grows t \<longrightarrow> aliases_ptr e = 0)"

lemma append_alias_owns:
  "entry_owns X t e \<Longrightarrow> keeps (entry_owns X) (append_alias name al e) t"
  unfolding append_alias_def keeps_def
  by (intro wp_intros; auto simp: entry_owns_def owns_def allocated_append entry_owned_def split: if_splits)

lemma aliases_own:
  assumes "entry_owns X t e"
  shows "keeps (entry_owns X) (module_for_each_alias m append_alias e) t"
proof -
  have "keeps (entry_owns X) (each_alias append_alias (mod_name m) k mem e) t" for k mem
    using assms by (simp add: each_alias_visit visit_all_keeps append_alias_owns)
  then show ?thesis
    by (simp add: module_for_each_alias_def c_assert_def keeps_def)
qed

definition cache_owns :: "event list \<Rightarrow> cache_t \<Rightarrow> bool" where
  "cache_owns t c \<longleftrightarrow> owns (cache_owned c) t \<and> (entries_ptr c = 0 \<longrightarrow> entries c = [])"

lemma module_open_allocates:
  "wp (module_open path) (\<lambda>t' z. grows t' = grows t \<and> (case z of
       Returned None \<Rightarrow> allocated t' \<subseteq> allocated t
     | Returned (Some m) \<Rightarrow> allocated t' \<subseteq> insert (path_ptr m) (allocated t)
     | Halted h \<Rightarrow> True)) t"
  unfolding module_open_def module_map_def
  by (intro wp_intros; auto simp: allocated_append)

lemma module_close_frees:
  "wp (module_close m) (\<lambda>t' z. grows t' = grows t \<and> allocated t' = allocated t - {path_ptr m}) t"
  unfolding module_close_def by (intro wp_intros; auto simp: allocated_append)

lemma close_owns:
  assumes "owns (insert (path_ptr m) (cache_owned c)) t" and "entries_ptr c = 0 \<longrightarrow> entries c = []"
  shows "keeps cache_owns (bind (module_close m) (\<lambda>_. Ret (b, c))) t"
  unfolding keeps_def
  by (rule wp_bindI [OF module_close_frees]) (use assms in \<open>auto simp: cache_owns_def owns_def\<close>)

lemma cache_module_owns:
  assumes "entry_owns (insert (path_ptr m) (insert p (\<Union> (entry_owned ` set (entries c))))) t new_entry" and "p \<noteq> 0"
  shows "keeps cache_owns (cache_module path c m p) t"
  unfolding cache_module_def keeps_def
proof (rule wp_bindI [OF aliases_own [OF assms(1), unfolded keeps_def]])
  let ?X = "insert (path_ptr m) (insert p (\<Union> (entry_owned ` set (entries c))))"
  fix t2 and a :: "bool \<times> cache_entry_t"
  assume "\<forall>ok s'. Returned a = Returned (ok, s') \<longrightarrow> entry_owns ?X t2 s'"
  then have "entry_owns ?X t2 (snd a)" by (cases a) simp
  then have "owns (insert (path_ptr m) (cache_owned \<lparr>entries_ptr = p, entries =
      entries c @ [snd a\<lparr>entry_path := path, entry_name := mod_name m\<rparr>]\<rparr>)) t2"
    by (simp add: entry_owns_def cache_owned_def insert_commute Un_commute)
  from close_owns [OF this] show "wp (case a of (result, e) \<Rightarrow>
       if PATH_MAX \<le> length path \<or> NAME_MAX \<le> length (mod_name m) then Halt Undefined else
       bind (module_close m) (\<lambda>_. Ret (result, \<lparr>entries_ptr = p,
          entries = entries c @ [e\<lparr>entry_path := path, entry_name := mod_name m\<rparr>]\<rparr>)))
    (\<lambda>t' z. \<forall>ok s'. z = Returned (ok, s') \<longrightarrow> cache_owns t' s') t2"
    using assms(2) by (cases a) (auto simp: keeps_def)
qed simp

lemma append_opened_owns:
  assumes "cache_owns t c" and "grows t1 = grows t" and "allocated t1 \<subseteq> insert (path_ptr m) (allocated t)"
  shows "keeps cache_owns (append_opened path c m) t1"
proof -
  let ?t = "\<lambda>r. t1 @ [(Lib (Realloc (entries_ptr c) (ENTRY_SIZE * Suc (length (entries c)))), r)]"
  have "keeps cache_owns (bind (module_close m) (\<lambda>_. Ret (False, c))) (?t r)" if "ret r = 0" for r
    by (rule close_owns) (use that assms in \<open>auto simp: cache_owns_def owns_def grows_def\<close>)
  moreover have "keeps cache_owns (cache_module path c m (ret r)) (?t r)" if "ret r \<noteq> 0" for r
    by (rule cache_module_owns)
      (use that assms in \<open>auto simp: entry_owns_def owns_def cache_owns_def cache_owned_def new_entry_def
        entry_owned_def allocated_append grows_def\<close>)
  ultimately show ?thesis by (simp add: append_opened_def keeps_def)
qed

lemma cache_owns_shrinks:
  "cache_owns t c \<Longrightarrow> grows t1 = grows t \<Longrightarrow> allocated t1 \<subseteq> allocated t \<Longrightarrow> cache_owns t1 c"
  unfolding cache_owns_def owns_def by blast

lemma append_module_owns:
  assumes "cache_owns t c"
  shows "keeps cache_owns (append_module path c) t"
  unfolding append_module_def keeps_def
  by (rule wp_bindI [OF module_open_allocates])
    (auto intro: cache_owns_shrinks [OF assms] append_opened_owns [OF assms, unfolded keeps_def] split: option.split)

interpretation build: callback_invariant append_module cache_owns
proof
  show "keeps cache_owns (append_module f s) t" if "cache_owns t s" for t s f
    using that by (rule append_module_owns)
  show "cache_owns (t @ [(c, r)]) s" if "cache_owns t s" "dir_call c" for t s c r
    using that by (cases c) (auto simp: cache_owns_def owns_def allocated_append grows_def
        dir_call_def split: syscall.splits)
qed

lemma free_each_frees:
  "wp (free_each ps) (\<lambda>t' z. z = Returned () \<and> grows t' = grows t \<and> allocated t' = allocated t - set ps) t"
proof (induction ps arbitrary: t)
  case Nil
  then show ?case by simp
next
  case (Cons p ps)
  show ?case
    unfolding free_each.simps
    by (rule wp_SysI, rule wp_mono [OF Cons.IH]) (auto simp: allocated_append)
qed

lemma free_entries_frees:
  "wp (free_entries es) (\<lambda>t' z. z = Returned () \<and> grows t' = grows t \<and>
     allocated t' = allocated t - \<Union> (entry_owned ` set es)) t"
proof (induction es arbitrary: t)
  case Nil
  then show ?case by simp
next
  case (Cons e es)
  show ?case
  proof (cases "aliases e = []")
    case True
    with Cons show ?thesis by (simp add: entry_owned_def)
  next
    case False
    have rest: "wp (Sys (Lib (Free (aliases_ptr e))) (\<lambda>_. free_entries es)) (\<lambda>t' z. z = Returned () \<and>
        grows t' = grows t \<and> allocated t' = allocated t - \<Union> (entry_owned ` set (e # es))) t1"
      if "grows t1 = grows t" "allocated t1 = allocated t - set (map fst (aliases e))" for t1
      by (rule wp_SysI, rule wp_mono [OF Cons.IH])
        (use that False in \<open>auto simp: allocated_append entry_owned_def\<close>)
    have "wp (bind (free_each (map fst (aliases e))) (\<lambda>_.
        Sys (Lib (Free (aliases_ptr e))) (\<lambda>_. free_entries es))) (\<lambda>t' z. z = Returned () \<and>
        grows t' = grows t \<and> allocated t' = allocated t - \<Union> (entry_owned ` set (e # es))) t"
      by (rule wp_bindI [OF free_each_frees]; (rule rest)?; simp)
    with False show ?thesis by simp
  qed
qed

lemma cache_free_frees:
  assumes "cache_owns t c"
  shows "wp (cache_free c) (\<lambda>t' z. z = Returned () \<longrightarrow> owns {} t') t"
  unfolding cache_free_def
  by (intro wp_assertI wp_bindI [OF free_entries_frees])
    (use assms in \<open>auto simp: cache_owns_def owns_def cache_owned_def allocated_append\<close>)

text \<open>Generating the cache hands over a cache that owns its memory, or none.\<close>

definition generated :: "event list \<Rightarrow> (bool \<times> cache_t) outcome \<Rightarrow> bool" where
  "generated t z \<longleftrightarrow> (\<forall>ok c. z = Returned (ok, c) \<longrightarrow> (if ok then cache_owns t c else owns {} t))"

lemma generate_cleanup:
  assumes "cache_owns t c"
  shows "wp (if \<not> b then if entries_ptr c \<noteq> 0 then bind (cache_free c) (\<lambda>_. Ret (False, c))
      else Ret (False, c) else Ret (True, c)) generated t"
proof (cases "b \<or> entries_ptr c = 0")
  case True
  with assms show ?thesis by (auto simp: generated_def cache_owns_def cache_owned_def owns_def)
next
  case False
  have "wp (bind (cache_free c) (\<lambda>_. Ret (False, c))) generated t"
    by (rule wp_bindI [OF cache_free_frees [OF assms]]) (simp_all add: generated_def)
  with False show ?thesis by simp
qed

lemma generate_owns: "wp (cache_generate d n \<lparr>entries_ptr = 0, entries = []\<rparr>) generated []"
proof -
  let ?c = "\<lparr>entries_ptr = 0, entries = []\<rparr> :: cache_t"
  have start: "cache_owns [(Kern Uname, r)] ?c" "owns {} [(Kern Uname, r)]" for r
    using allocated_append [of "[]"] by (simp_all add: cache_owns_def owns_def)
  have "wp (bind (find_all d n append_module ''*.ko'' path ?c)
        (\<lambda>(ok, cache). if \<not> ok then
            (if entries_ptr cache \<noteq> 0 then bind (cache_free cache) (\<lambda>_. Ret (False, cache))
             else Ret (False, cache))
          else Ret (True, cache))) generated [(Kern Uname, r)]" for r path
    by (rule wp_bindI [OF build.find_all_keeps [OF start(1), unfolded keeps_def]])
      (use generate_cleanup in \<open>auto simp: generated_def split del: if_split\<close>)
  with start show ?thesis
    unfolding cache_generate_def Let_def
    by (intro wp_SysI, unfold append_Nil, intro wp_ifI wp_RetI) (simp_all add: generated_def)
qed

section \<open>Properties\<close>

text \<open>
  C17: the search by name finds the first entry whose name is the same up to hyphens and
  underscores, so two spellings of a name find the same module.
\<close>

theorem find_module_spelling:
  assumes "a \<noteq> []" and "canonical a = canonical b"
  shows "cache_find_module cache a = cache_find_module cache b \<and>
    cache_find_module cache a =
      Ret (find (\<lambda>e. canonical (entry_name e) = canonical a) (entries cache))"
  using names.first_same_key [OF assms] names.first_find [OF assms(1)]
  by (simp add: cache_find_module_def find_module_in_first)

theorem find_alias_order:
  "cache_find_alias cache al =
     (case find (\<lambda>e. \<exists>a \<in> set (aliases e). fnmatch False (snd a) al) (entries cache) of
        Some e \<Rightarrow> Ret (Some e)
      | None \<Rightarrow>
          let name = drop 1 (dropWhile (\<lambda>c. c \<noteq> CHR '':'') al) in
          if name = [] then Ret None
          else Ret (find (\<lambda>e. canonical (entry_name e) = canonical name) (entries cache)))"
  by (rule cache_find_alias_find)

text \<open>
  C18: a cache that was generated has exactly one entry for every file *.ko below the directory
  of the running kernel, in the order of the walk, with its path and its module name.
\<close>

theorem cache_generate_complete:
  assumes "execs (cache_generate d n \<lparr>entries_ptr = 0, entries = []\<rparr>) t (Returned (True, cache))"
    and "ret (snd (hd t)) \<noteq> -1" and "dir_ok fs Map.empty t"
    and "walkable d n fs ''*.ko'' (join_path KERNEL_MODULES_DIRECTORY (out (snd (hd t))))"
  shows "list_all2 cached
    (files_below d fs ''*.ko'' (join_path KERNEL_MODULES_DIRECTORY (out (snd (hd t)))))
    (entries cache)"
proof -
  from assms(1) obtain kernel u where t: "t = (Kern Uname, kernel) # u"
    and ex: "ret kernel \<noteq> -1 \<longrightarrow> execs (find_all d n append_module ''*.ko''
      (join_path KERNEL_MODULES_DIRECTORY (out kernel)) \<lparr>entries_ptr = 0, entries = []\<rparr>) u
      (Returned (True, cache))"
    by (rule cache_generate_True)
  from assms(2-4) t have k: "ret kernel \<noteq> -1" "dir_ok fs Map.empty u"
    "walkable d n fs ''*.ko'' (join_path KERNEL_MODULES_DIRECTORY (out kernel))"
    by (simp_all add: dir_step_other)
  from visit_append [OF append.find_all_visits [OF ex [rule_format, OF k(1)] k(2,3)]] t show ?thesis by simp
qed

text \<open>
  C19: the cache owns what was allocated for it, through every operation that builds it:
  generating and freeing it releases all memory, when growing an array never fails.
\<close>

theorem cache_no_leak:
  assumes "execs (bind (cache_generate d n \<lparr>entries_ptr = 0, entries = []\<rparr>) (\<lambda>(ok, cache).
      if ok then bind (cache_free cache) (\<lambda>_. Ret ok) else Ret ok)) t (Returned b)"
    and "grows t"
  shows "allocated t \<subseteq> {0}"
proof -
  have free: "wp (bind (cache_free c) (\<lambda>_. Ret x)) (\<lambda>t z. (\<exists>x. z = Returned x) \<longrightarrow> owns {} t) t"
    if "cache_owns t c" for t c and x :: bool
    by (rule wp_bindI [OF cache_free_frees [OF that]]) auto
  have "wp (bind (cache_generate d n \<lparr>entries_ptr = 0, entries = []\<rparr>) (\<lambda>(ok, cache).
      if ok then bind (cache_free cache) (\<lambda>_. Ret ok) else Ret ok))
      (\<lambda>t z. (\<exists>x. z = Returned x) \<longrightarrow> owns {} t) []"
    by (rule wp_bindI [OF generate_owns]) (auto simp: generated_def intro!: free)
  from execs_wp [OF assms(1) this] assms(2) show ?thesis by (auto simp: owns_def)
qed

section \<open>Witnesses\<close>

text \<open>A directory with one module file of ten bytes, which declares one alias.\<close>

definition alias_file :: buffer where
  "alias_file = ''xalias=p*'' @ [NUL]"

definition modules_tree :: directories where
  "modules_tree p = (if p = ''/lib/modules/6'' then Some [(DT_REG, ''a-b.ko'')] else None)"

definition generate_replies :: "reply list" where
  "generate_replies =
     [reply0\<lparr>out := ''6''\<rparr>, returns 1, reply0\<lparr>dirent := Some (DT_REG, ''a-b.ko'')\<rparr>,
      reply0\<lparr>st_size := 10\<rparr>, returns 100, returns 3, (returns 500)\<lparr>out := alias_file\<rparr>,
      returns 200, returns 300, returns 400, returns 0, returns 0, returns 0, reply0, returns 0]"

definition empty_cache :: cache_t where
  "empty_cache = \<lparr>entries_ptr = 0, entries = []\<rparr>"

definition cache_example :: cache_t where
  "cache_example = \<lparr>entries_ptr = 200, entries = [\<lparr>entry_path = ''/lib/modules/6/a-b.ko'',
     entry_name = ''a_b'', aliases_ptr = 300, aliases = [(400, ''p*'')]\<rparr>]\<rparr>"

lemma generate_example:
  "snd (run (cache_generate 1 2 empty_cache) generate_replies) = Returned (True, cache_example)"
  by code_simp

theorem find_module_spelling_witness:
  "cache_find_module cache_example ''a-b'' = Ret (Some (hd (entries cache_example)))"
proof -
  have "cache_find_module cache_example ''a_b'' = Ret (Some (hd (entries cache_example)))"
    by (simp add: cache_find_module_def cache_example_def module_cmp_def c_assert_def)
  moreover have "canonical ''a-b'' = canonical ''a_b''" by code_simp
  ultimately show ?thesis using find_module_spelling [of "''a-b''" "''a_b''" cache_example] by simp
qed

theorem cache_generate_complete_witness:
  "list_all2 cached [''/lib/modules/6/a-b.ko''] (entries cache_example)"
proof -
  let ?p = "cache_generate 1 2 \<lparr>entries_ptr = 0, entries = []\<rparr>"
  let ?t = "fst (run ?p generate_replies)"
  have ex: "execs ?p ?t (Returned (True, cache_example))"
    by (rule run_trace [OF generate_example [unfolded empty_cache_def]]) simp
  have hd: "ret (snd (hd ?t)) \<noteq> -1" "out (snd (hd ?t)) = ''6''"
    by (simp_all add: cache_generate_def generate_replies_def split: prod.split)
  have ok: "dir_ok modules_tree Map.empty ?t" by code_simp
  have walk: "walkable 1 2 modules_tree ''*.ko'' (join_path KERNEL_MODULES_DIRECTORY ''6'')" by code_simp
  have files: "files_below 1 modules_tree ''*.ko'' (join_path KERNEL_MODULES_DIRECTORY ''6'') =
      [''/lib/modules/6/a-b.ko'']" by code_simp
  from cache_generate_complete [OF ex hd(1) ok, unfolded hd(2), OF walk] show ?thesis
    unfolding files .
qed

theorem cache_no_leak_witness:
  "\<exists>t. length t = 18 \<and> allocated t \<subseteq> {0}"
proof -
  let ?p = "bind (cache_generate 1 2 \<lparr>entries_ptr = 0, entries = []\<rparr>) (\<lambda>(ok, cache).
      if ok then bind (cache_free cache) (\<lambda>_. Ret ok) else Ret ok)"
  let ?rs = "generate_replies @ replicate 3 (returns 0)"
  have "snd (run ?p ?rs) = Returned True" by code_simp
  then have ex: "execs ?p (fst (run ?p ?rs)) (Returned True)" by (rule run_trace) simp
  have "grows (fst (run ?p ?rs))" by code_simp
  from cache_no_leak [OF ex this] have "allocated (fst (run ?p ?rs)) \<subseteq> {0}" .
  moreover have "length (fst (run ?p ?rs)) = 18" by code_simp
  ultimately show ?thesis by blast
qed

end
