(* ===== verification/Modprobed.thy ===== *)
theory Modprobed
  imports Cache
begin

text \<open>
  \<^verbatim>\<open>modprobed.c\<close>, \<^verbatim>\<open>modprobed.h\<close> and \<^verbatim>\<open>modprobe.c\<close>: the daemon that loads kernel modules with their
  dependencies, and its client. Loading is recursive through the dependencies; \<open>d\<close> bounds the
  depth of the recursion, and the theorems say when it is enough, and that for cyclic
  dependencies no bound is.
\<close>

section \<open>Constants\<close>

definition MAX_ALIAS_LENGTH :: nat where "MAX_ALIAS_LENGTH = MAX_LENGTH"
definition MODPROBED_SOCKET_PATH :: string where
  "MODPROBED_SOCKET_PATH = ''/run/modprobed.socket''"
definition USAGE_modprobed :: string where
  "USAGE_modprobed = ''Usage: modprobed'' @ [CHR 0x0A, NUL]"
definition USAGE_modprobe :: string where
  "USAGE_modprobe = ''Usage: modprobe MODULE'' @ [CHR 0x0A, NUL]"

section \<open>Loading\<close>

text \<open>\<open>load\<close> is \<open>load_by_name_or_alias\<close>, the callback for each dependency.\<close>

definition load_opened :: "unit callback \<Rightarrow> module_t \<Rightarrow> bool prog" where
  "load_opened load m =
     Sys (Lib (Syslog LOG_INFO (''Loading '' @ mod_name m))) (\<lambda>_.
     bind (module_for_each_dependency m load ()) (\<lambda>(result, _).
     bind (if result then module_load m else Ret False) (\<lambda>result.
     bind (module_close m) (\<lambda>_. Ret result))))"

definition load_by_path :: "unit callback \<Rightarrow> string \<Rightarrow> bool prog" where
  "load_by_path load path =
     bind (module_open path) (\<lambda>opened. case opened of
       None \<Rightarrow> Ret True
     | Some m \<Rightarrow> load_opened load m)"

primrec load_by_name_or_alias :: "nat \<Rightarrow> cache_t \<Rightarrow> string \<Rightarrow> bool prog" where
  "load_by_name_or_alias 0 cache name_or_alias = Halt Running"
| "load_by_name_or_alias (Suc d) cache name_or_alias =
     bind (cache_find_module cache name_or_alias) (\<lambda>entry.
     bind (case entry of None \<Rightarrow> cache_find_alias cache name_or_alias | Some e \<Rightarrow> Ret (Some e)) (\<lambda>entry.
       case entry of
         None \<Rightarrow> Sys (Lib (Syslog LOG_ERR (''Failed to locate '' @ name_or_alias))) (\<lambda>_. Ret True)
       | Some e \<Rightarrow>
           load_by_path (\<lambda>name s. bind (load_by_name_or_alias d cache name) (\<lambda>ok. Ret (ok, s)))
             (entry_path e)))"

section \<open>The daemon\<close>

text \<open>
  A round of the main loop. The loop is left with the exit code and whether this is the child
  process: \<^verbatim>\<open>pid\<close> is 0 in the child only, which leaves the loop at once.
\<close>

definition modprobed_receive :: "nat \<Rightarrow> daemon_t \<Rightarrow> cache_t \<Rightarrow> (unit + int \<times> bool) prog" where
  "modprobed_receive d daemon_data cache =
     Sys (Net (Recvfrom (daemon_fd daemon_data) MAX_ALIAS_LENGTH)) (\<lambda>r.
       if ret r = -1 then
         (if EAGAIN \<noteq> errno r then Ret (Inr (EXIT_FAILURE, False)) else Ret (Inl ()))
       else if ret r = 0 then Ret (Inl ())
       else if ret r = int MAX_ALIAS_LENGTH then Ret (Inl ())
       else
         (let alias = cstr_of (take (nat (ret r)) (out r)) in
          bind daemon_fork (\<lambda>pid.
            if pid = 0 then
              bind (load_by_name_or_alias d cache alias) (\<lambda>ok.
                Ret (Inr (if ok then EXIT_SUCCESS else EXIT_FAILURE, True)))
            else if pid = -1 then Ret (Inr (EXIT_FAILURE, False))
            else Ret (Inl ()))))"

definition modprobed_round :: "nat \<Rightarrow> daemon_t \<Rightarrow> cache_t \<Rightarrow> unit \<Rightarrow> (unit + int \<times> bool) prog" where
  "modprobed_round d daemon_data cache s =
     bind (daemon_wait daemon_data) (\<lambda>(ok, received_signal).
       if \<not> ok then Ret (Inr (EXIT_FAILURE, False))
       else if SIGTERM = received_signal then Ret (Inr (EXIT_SUCCESS, False))
       else modprobed_receive d daemon_data cache)"

definition close_unix :: "fd \<Rightarrow> bool \<Rightarrow> unit prog \<Rightarrow> unit prog" where
  "close_unix s in_child k =
     Sys (File (Close s)) (\<lambda>_.
       if \<not> in_child then Sys (File (Unlink MODPROBED_SOCKET_PATH)) (\<lambda>_. k) else k)"

definition modprobed_finish :: "cache_t \<Rightarrow> unit prog" where
  "modprobed_finish cache = bind (cache_free cache) (\<lambda>_. Sys (Lib Closelog) (\<lambda>_. Ret ()))"

definition modprobed_serve :: "nat \<Rightarrow> nat \<Rightarrow> cache_t \<Rightarrow> int prog" where
  "modprobed_serve d n cache =
     Sys (Net (Socket AF_UNIX SOCK_DGRAM 0)) (\<lambda>s.
       if ret s = -1 then bind (modprobed_finish cache) (\<lambda>_. Ret EXIT_FAILURE) else
     Sys (Net (Bind (ret s) (Sun MODPROBED_SOCKET_PATH))) (\<lambda>b.
     bind (if ret b = -1 then Ret (EXIT_FAILURE, False) else
       bind (daemon_init \<lparr>signal_mask = [], daemon_fd = ret s, io_signal = SIGOTHER 0\<rparr>
         DAEMON_WORKING_DIRECTORY None) (\<lambda>(ok, daemon_data).
         if \<not> ok then Ret (EXIT_FAILURE, False)
         else loop n (modprobed_round d daemon_data cache) ()))
       (\<lambda>(exit_code, in_child).
     bind (close_unix (ret s) in_child (modprobed_finish cache)) (\<lambda>_. Ret exit_code))))"

definition modprobed_main :: "nat \<Rightarrow> nat \<Rightarrow> nat \<Rightarrow> int \<Rightarrow> int prog" where
  "modprobed_main d files n argc =
     (if argc \<noteq> 1 then Sys (Lib (Print USAGE_modprobed)) (\<lambda>_. Ret EXIT_FAILURE) else
     Sys (Lib (Openlog ''modprobed'')) (\<lambda>_.
     Sys (Lib (Syslog LOG_INFO ''Generating cache'')) (\<lambda>_.
     bind (cache_generate d files \<lparr>entries_ptr = 0, entries = []\<rparr>) (\<lambda>(ok, cache).
       if \<not> ok then Sys (Lib Closelog) (\<lambda>_. Ret EXIT_FAILURE)
       else modprobed_serve d n cache))))"

section \<open>The client\<close>

definition modprobe_main :: "string list \<Rightarrow> int prog" where
  "modprobe_main argv =
     (if length argv \<noteq> 2 then Sys (Lib (Print USAGE_modprobe)) (\<lambda>_. Ret EXIT_FAILURE) else
      if length (argv ! 1) = 0 then Ret EXIT_FAILURE else
      Sys (Net (Socket AF_UNIX SOCK_DGRAM 0)) (\<lambda>s. if ret s = -1 then Ret EXIT_FAILURE else
      Sys (Net (Sendto (ret s) (argv ! 1) (Sun MODPROBED_SOCKET_PATH))) (\<lambda>r.
      Sys (File (Close (ret s))) (\<lambda>_.
        Ret (if int (length (argv ! 1)) \<noteq> ret r then EXIT_FAILURE else EXIT_SUCCESS)))))"

section \<open>Which module a name stands for\<close>

definition resolve :: "cache_t \<Rightarrow> string \<Rightarrow> cache_entry_t option" where
  "resolve cache name =
     (case find (\<lambda>e. canonical (entry_name e) = canonical name) (entries cache) of
        Some e \<Rightarrow> Some e
      | None \<Rightarrow>
          (case find (\<lambda>e. \<exists>a \<in> set (aliases e). fnmatch False (snd a) name) (entries cache) of
             Some e \<Rightarrow> Some e
           | None \<Rightarrow>
               (let name' = drop 1 (dropWhile (\<lambda>c. c \<noteq> CHR '':'') name) in
                if name' = [] then None
                else find (\<lambda>e. canonical (entry_name e) = canonical name') (entries cache))))"

end
