(* ===== verification/Modprobed_Props.thy ===== *)
theory Modprobed_Props
  imports Modprobed
begin

text \<open>
  What loading a module guarantees: each of its dependencies was handed to the kernel before it,
  reported as missing, or found impossible to open; the recursion ends when they are acyclic
  and never ends on a cycle; and how the daemon stops.
\<close>

section \<open>One step of the recursion\<close>

abbreviation (input) load_dependency :: "nat \<Rightarrow> cache_t \<Rightarrow> unit callback" where
  "load_dependency d cache \<equiv> \<lambda>name s. bind (load_by_name_or_alias d cache name) (\<lambda>ok. Ret (ok, s))"

lemma load_Suc:
  assumes "name \<noteq> []"
  shows "load_by_name_or_alias (Suc d) cache name = (case resolve cache name of
      None \<Rightarrow> Sys (Lib (Syslog LOG_ERR (''Failed to locate '' @ name))) (\<lambda>_. Ret True)
    | Some e \<Rightarrow> load_by_path (load_dependency d cache) (entry_path e))"
  using assms
  by (auto simp: cache_find_module_find cache_find_alias_find resolve_def Let_def split: option.splits)

text \<open>The dependencies of a module of \<open>n\<close> bytes whose file holds \<open>file\<close>.\<close>

definition deps_of :: "nat \<Rightarrow> buffer \<Rightarrow> string list" where
  "deps_of n file = dependencies \<lparr>module_size = n, module_fd = 0, contents = mapped n file,
     path_ptr = 0, mod_name = []\<rparr>"

lemma dependencies_deps_of:
  "contents m = mapped (module_size m) file \<Longrightarrow> dependencies m = deps_of (module_size m) file"
  by (simp add: deps_of_def dependencies_def depends_at_def cong: option.case_cong)

lemma dependencies_nonempty: "[] \<notin> set (dependencies m)"
  by (auto simp: dependencies_def split: option.splits)

section \<open>Visiting dependencies\<close>

lemma wp_extends: "wp p Q t \<Longrightarrow> wp p (\<lambda>t' z. Q t' z \<and> (\<exists>u. t' = t @ u)) t"
  by (auto simp: wp_iff)

text \<open>
  An invariant \<open>I\<close>, for each dependency a fact \<open>A\<close> about its visit that later calls do not
  undo, and what may be said (\<open>H\<close>) when a visit does not return.
\<close>

definition visited ::
  "(event list \<Rightarrow> bool) \<Rightarrow> (string \<Rightarrow> event list \<Rightarrow> bool) \<Rightarrow> (event list \<Rightarrow> stop \<Rightarrow> bool) \<Rightarrow>
     string list \<Rightarrow> event list \<Rightarrow> (bool \<times> unit) outcome \<Rightarrow> bool" where
  "visited I A H fs t z \<longleftrightarrow> (case z of
      Returned x \<Rightarrow> I t \<and> (fst x \<longrightarrow> (\<forall>f \<in> set fs. A f t)) | Halted h \<Rightarrow> H t h)"

lemma visited_simps [simp]:
  "visited I A H fs t (Returned (ok, s)) \<longleftrightarrow> I t \<and> (ok \<longrightarrow> (\<forall>f \<in> set fs. A f t))"
  "visited I A H fs t (Halted h) \<longleftrightarrow> H t h"
  by (simp_all add: visited_def)

definition tried ::
  "(event list \<Rightarrow> bool) \<Rightarrow> (string \<Rightarrow> event list \<Rightarrow> bool) \<Rightarrow> (event list \<Rightarrow> stop \<Rightarrow> bool) \<Rightarrow>
     string \<Rightarrow> event list \<Rightarrow> (bool \<times> unit) outcome \<Rightarrow> bool" where
  "tried I A H f t z \<longleftrightarrow> (case z of Returned x \<Rightarrow> I t \<and> (fst x \<longrightarrow> A f t) | Halted h \<Rightarrow> H t h)"

lemma tried_simps [simp]:
  "tried I A H f t (Returned (ok, s)) \<longleftrightarrow> I t \<and> (ok \<longrightarrow> A f t)" "tried I A H f t (Halted h) \<longleftrightarrow> H t h"
  by (simp_all add: tried_def)

lemma visit_wp:
  assumes "\<And>f t. f \<in> set fs \<Longrightarrow> I t \<Longrightarrow> wp (callback f ()) (tried I A H f) t"
    and mono: "\<And>f t u. A f t \<Longrightarrow> A f (t @ u)"
    and "I t"
  shows "wp (visit_all callback fs ()) (visited I A H fs) t"
  using assms(1,3)
proof (induction fs arbitrary: t)
  case Nil
  then show ?case by simp
next
  case (Cons f fs)
  have first: "wp (callback f ()) (tried I A H f) t"
    by (rule Cons.prems(1)) (use Cons.prems(2) in simp_all)
  have weaken: "visited I A H (f # fs) (t1 @ u) z" if "visited I A H fs (t1 @ u) z" "A f t1" for t1 u z
    using that mono by (cases z) (auto simp: visited_def)
  have rest: "wp (visit_all callback fs ()) (visited I A H (f # fs)) t1" if "I t1" "A f t1" for t1
    by (rule wp_mono [OF wp_extends [OF Cons.IH [OF Cons.prems(1) that(1)]]])
      (use that(2) weaken in auto)
  show ?case
    unfolding visit_all.simps
    by (rule wp_bindI [OF first]) (use rest in \<open>auto split: prod.split\<close>)
qed

lemma each_dependency_wp:
  assumes "\<And>f t. f \<in> set (dependencies m) \<Longrightarrow> I t \<Longrightarrow> wp (callback f ()) (tried I A H f) t"
    and mono: "\<And>f t u. A f t \<Longrightarrow> A f (t @ u)"
    and "I t" and lib: "\<And>t c r. I t \<Longrightarrow> I (t @ [(Lib c, r)])"
    and halts: "\<And>t. I t \<Longrightarrow> H t Aborted" "\<And>t. I t \<Longrightarrow> H t Undefined"
  shows "wp (module_for_each_dependency m callback ()) (visited I A H (dependencies m)) t"
proof (cases "depends_at m")
  case None
  with assms(3) halts show ?thesis
    by (simp add: module_for_each_dependency_def c_assert_def depends_at_scan)
next
  case (Some i)
  let ?d = "drop (i + STRLEN_depends) (contents m)"
  have freed: "visited I A H (dependencies m) (t1 @ [(Lib c, r)]) (Returned x)"
    if "visited I A H (dependencies m) t1 (Returned x)" for t1 c r x
    using that lib mono by (cases x) auto
  have visit: "wp (bind (visit_all callback (dependencies m) ()) (\<lambda>(result, s).
      Sys (Lib (Free p)) (\<lambda>_. Ret (result, s)))) (visited I A H (dependencies m)) t1" if "I t1" for t1 p
    by (rule wp_bindI [OF visit_wp [where callback = callback and I = I and A = A and H = H and
        fs = "dependencies m", OF assms(1) mono that]])
      (use freed in \<open>auto simp: split_paired_all simp del: visited_simps\<close>)
  have none: "dependencies m = []" if "hd ?d = NUL"
    using that Some by (cases ?d) (auto simp: dependencies_def cstr_of_def)
  have toks: "tokens (CHR '','') (cstr_of ?d) = dependencies m"
    using Some by (simp add: dependencies_def tokens_eq_split)
  show ?thesis
    using Some assms(3) halts none visit [OF lib [OF assms(3)]]
    by (simp add: module_for_each_dependency_def c_assert_def depends_at_scan Let_def string_at_def
        each_token_visit toks lib)
qed

section \<open>Dependencies come first\<close>

text \<open>
  \<open>handed_over path t\<close>: the file was opened and mapped, and then its contents were passed to the
  kernel, which accepted them or had the module already. \<open>unusable path t\<close>: an attempt to open
  and map the file failed. \<open>settled_dep cache f t\<close>: a message says that there is no module \<open>f\<close>, its
  file is unusable, or the kernel has it.
\<close>

definition handed_over :: "string \<Rightarrow> event list \<Rightarrow> bool" where
  "handed_over path t \<longleftrightarrow> (\<exists>u v w m r. t = u @ v @ w \<and> execs (module_open path) v (Returned (Some m)) \<and>
     (Kern (Init_module (take (module_size m) (contents m))), r) \<in> set w \<and>
     (ret r \<noteq> -1 \<or> errno r = EEXIST))"

definition unusable :: "string \<Rightarrow> event list \<Rightarrow> bool" where
  "unusable path t \<longleftrightarrow> (\<exists>u v w. t = u @ v @ w \<and> execs (module_open path) v (Returned None))"

definition settled_dep :: "cache_t \<Rightarrow> string \<Rightarrow> event list \<Rightarrow> bool" where
  "settled_dep cache f t \<longleftrightarrow> (case resolve cache f of
      None \<Rightarrow> Lib (Syslog LOG_ERR (''Failed to locate '' @ f)) \<in> fst ` set t
    | Some e \<Rightarrow> handed_over (entry_path e) t \<or> unusable (entry_path e) t)"

definition load_ok :: "cache_t \<Rightarrow> event list \<Rightarrow> event \<Rightarrow> bool" where
  "load_ok cache t e \<longleftrightarrow> (case e of
     (Kern (Init_module img), r) \<Rightarrow> \<exists>n f m. (File (Mmap f n), m) \<in> set t \<and>
        img = take n (mapped n (out m)) \<and> (\<forall>f \<in> set (deps_of n (out m)). settled_dep cache f t)
   | _ \<Rightarrow> True)"

definition ordered :: "cache_t \<Rightarrow> event list \<Rightarrow> bool" where
  "ordered cache t \<longleftrightarrow> (\<forall>u e v. t = u @ e # v \<longrightarrow> load_ok cache u e)"

lemma handed_over_append:
  assumes "handed_over path t"
  shows "handed_over path (x @ t @ y)"
proof -
  from assms obtain u v w m r where "t = u @ v @ w" "execs (module_open path) v (Returned (Some m))"
    "(Kern (Init_module (take (module_size m) (contents m))), r) \<in> set w" "ret r \<noteq> -1 \<or> errno r = EEXIST"
    unfolding handed_over_def by blast
  then show ?thesis
    unfolding handed_over_def
    by (intro exI [of _ "x @ u"] exI [of _ v] exI [of _ "w @ y"] exI [of _ m] exI [of _ r]) simp
qed

lemma unusable_append:
  assumes "unusable path t"
  shows "unusable path (x @ t @ y)"
proof -
  from assms obtain u v w where "t = u @ v @ w" "execs (module_open path) v (Returned None)"
    unfolding unusable_def by blast
  then show ?thesis
    unfolding unusable_def by (intro exI [of _ "x @ u"] exI [of _ v] exI [of _ "w @ y"]) simp
qed

lemma settled_dep_append: "settled_dep cache f t \<Longrightarrow> settled_dep cache f (x @ t @ y)"
  using handed_over_append unusable_append
  by (auto simp: settled_dep_def image_Un split: option.splits)

lemma settled_dep_mono: "settled_dep cache f t \<Longrightarrow> settled_dep cache f (t @ u)"
  using settled_dep_append [of cache f t "[]" u] by simp

text \<open>What it takes for a module and for a name to be reported as loaded.\<close>

lemma load_opened_True:
  assumes "execs (load_opened load m) t (Returned True)"
  shows "\<exists>r. (Kern (Init_module (take (module_size m) (contents m))), r) \<in> set t \<and>
    (ret r \<noteq> -1 \<or> errno r = EEXIST)"
proof -
  let ?Q = "\<lambda>t z. z = Returned True \<longrightarrow> (\<exists>r. (Kern (Init_module (take (module_size m) (contents m))), r) \<in> set t \<and>
    (ret r \<noteq> -1 \<or> errno r = EEXIST))"
  have finish: "wp (bind (if b then module_load m else Ret False) (\<lambda>result. bind (module_close m) (\<lambda>_. Ret result)))
    ?Q t" for b t
    unfolding module_load_def module_close_def by (cases b) (auto simp: c_assert_def)
  have "wp (load_opened load m) ?Q []"
    unfolding load_opened_def
  proof (intro wp_SysI, rule wp_bindI [where R = "\<lambda>t z. True"])
    show "wp (module_for_each_dependency m load ()) (\<lambda>t z. True) ([] @ [(Lib (Syslog LOG_INFO (''Loading '' @ mod_name m)), r)])" for r
      by (rule wpI) simp
  qed (use finish in \<open>auto simp del: bind.simps simp: module_close_def\<close>)
  from execs_wp [OF assms this] show ?thesis by simp
qed

lemma load_settles:
  assumes "execs (load_by_name_or_alias d cache name) t (Returned True)" and "name \<noteq> []"
  shows "settled_dep cache name t"
proof (cases d)
  case (Suc k)
  show ?thesis
  proof (cases "resolve cache name")
    case None
    with assms Suc have "execs (Sys (Lib (Syslog LOG_ERR (''Failed to locate '' @ name))) (\<lambda>_. Ret True)) t (Returned True)"
      by (simp only: load_Suc [OF assms(2)] option.case)
    with None show ?thesis by (auto simp: settled_dep_def execs_Sys)
  next
    case (Some e)
    with assms Suc have "execs (load_by_path (load_dependency k cache) (entry_path e)) t (Returned True)"
      by (simp add: load_Suc del: load_by_name_or_alias.simps)
    then obtain v w opened where t: "t = v @ w" and v: "execs (module_open (entry_path e)) v (Returned opened)"
      and w: "execs (case opened of None \<Rightarrow> Ret True | Some m \<Rightarrow> load_opened (load_dependency k cache) m) w (Returned True)"
      unfolding load_by_path_def by (rule execs_bind_ReturnedE)
    show ?thesis
    proof (cases opened)
      case None
      with v t have "unusable (entry_path e) t"
        unfolding unusable_def by (intro exI [of _ "[]"] exI [of _ v] exI [of _ w]) simp
      with Some show ?thesis by (simp add: settled_dep_def)
    next
      case (Some m)
      with w have "execs (load_opened (load_dependency k cache) m) w (Returned True)" by simp
      from load_opened_True [OF this] v t Some have "handed_over (entry_path e) t"
        unfolding handed_over_def by (metis append_Nil)
      with \<open>resolve cache name = Some e\<close> show ?thesis by (simp add: settled_dep_def)
    qed
  qed
qed (use assms in simp)

lemma ordered_Nil [simp]: "ordered cache []"
  by (simp add: ordered_def)

lemma ordered_snoc: "ordered cache (t @ [e]) \<longleftrightarrow> ordered cache t \<and> load_ok cache t e"
proof
  assume o: "ordered cache (t @ [e])"
  then have "load_ok cache u x" if "t = u @ x # v" for u x v
    using that unfolding ordered_def by (metis append.assoc append_Cons)
  moreover have "load_ok cache t e" using o [unfolded ordered_def, rule_format, of t e "[]"] by simp
  ultimately show "ordered cache t \<and> load_ok cache t e" by (simp add: ordered_def)
next
  assume a: "ordered cache t \<and> load_ok cache t e"
  have "load_ok cache u x" if "t @ [e] = u @ x # v" for u x v
  proof (cases v rule: rev_cases)
    case Nil
    with that a show ?thesis by simp
  next
    case (snoc ys y)
    with that have "t = u @ x # ys" by simp
    with a show ?thesis unfolding ordered_def by blast
  qed
  then show "ordered cache (t @ [e])" by (simp add: ordered_def)
qed

lemma ordered_other [simp]:
  "ordered cache (t @ [(File c, r)]) \<longleftrightarrow> ordered cache t"
  "ordered cache (t @ [(Lib l, r)]) \<longleftrightarrow> ordered cache t"
  "ordered cache (t @ [(Signal g, r)]) \<longleftrightarrow> ordered cache t"
  "ordered cache (t @ [(Proc p, r)]) \<longleftrightarrow> ordered cache t"
  by (simp_all add: ordered_snoc load_ok_def)

text \<open>The module that is being loaded: its contents were mapped.\<close>

definition at_hand :: "module_t \<Rightarrow> event list \<Rightarrow> bool" where
  "at_hand m t \<longleftrightarrow> (\<exists>f x. (File (Mmap f (module_size m)), x) \<in> set t \<and> contents m = mapped (module_size m) (out x))"

lemma at_hand_mono: "at_hand m t \<Longrightarrow> at_hand m (t @ u)"
  unfolding at_hand_def by auto

lemma open_ordered:
  assumes "ordered cache t"
  shows "wp (module_open path) (\<lambda>t' z. ordered cache t' \<and> (\<forall>m. z = Returned (Some m) \<longrightarrow> at_hand m t')) t"
  unfolding module_open_def module_map_def at_hand_def
  by (intro wp_intros) (simp_all only: outcome.case ordered_other assms, auto)

lemma load_ok_Init:
  assumes "(File (Mmap f n), m) \<in> set t" and "\<forall>f \<in> set (deps_of n (out m)). settled_dep cache f t"
  shows "load_ok cache t (Kern (Init_module (take n (mapped n (out m)))), r)"
  using assms by (auto simp: load_ok_def)

lemma module_load_ordered:
  assumes "ordered cache t" and "at_hand m t" and "\<forall>f \<in> set (dependencies m). settled_dep cache f t"
  shows "wp (module_load m) (\<lambda>t' z. ordered cache t') t"
proof -
  from assms(2) obtain f x where map: "(File (Mmap f (module_size m)), x) \<in> set t"
    and mem: "contents m = mapped (module_size m) (out x)" by (auto simp: at_hand_def)
  have "ordered cache (t @ [(Kern (Init_module (take (module_size m) (contents m))), r)])" for r
    using load_ok_Init [OF map] assms(1,3) dependencies_deps_of [OF mem]
    by (simp add: ordered_snoc mem)
  then show ?thesis
    unfolding module_load_def using assms(1) by (intro wp_intros) simp_all
qed

lemma close_ordered:
  "ordered cache t \<Longrightarrow> wp (bind (module_close m) (\<lambda>_. Ret b)) (\<lambda>t z. ordered cache t) t"
  unfolding module_close_def by (intro wp_intros) (simp_all only: bind.simps wp.simps ordered_other)

lemma finish_ordered:
  assumes "ordered cache t" and "at_hand m t" and "b \<longrightarrow> (\<forall>f \<in> set (dependencies m). settled_dep cache f t)"
  shows "wp (bind (if b then module_load m else Ret False) (\<lambda>result.
      bind (module_close m) (\<lambda>_. Ret result))) (\<lambda>t z. ordered cache t) t"
proof (rule wp_bindI [where R = "\<lambda>t z. ordered cache t"])
  show "wp (if b then module_load m else Ret False) (\<lambda>t z. ordered cache t) t"
    using assms module_load_ordered by simp
qed (auto intro: close_ordered)

abbreviation (input) ordered_try :: "cache_t \<Rightarrow> string \<Rightarrow> event list \<Rightarrow> (bool \<times> unit) outcome \<Rightarrow> bool" where
  "ordered_try cache \<equiv> tried (ordered cache) (settled_dep cache) (\<lambda>t h. ordered cache t)"

lemma load_opened_ordered:
  assumes "ordered cache t" and "at_hand m t"
    and deps: "\<And>f t. f \<noteq> [] \<Longrightarrow> ordered cache t \<Longrightarrow> wp (callback f ()) (ordered_try cache f) t"
  shows "wp (load_opened callback m) (\<lambda>t z. ordered cache t) t"
  unfolding load_opened_def
proof (rule wp_SysI)
  fix r
  let ?t = "t @ [(Lib (Syslog LOG_INFO (''Loading '' @ mod_name m)), r)]"
  have dep: "wp (callback f ()) (ordered_try cache f) t"
    if "f \<in> set (dependencies m)" "ordered cache t" for f t
    by (rule deps) (use that dependencies_nonempty [of m] in auto)
  have "wp (module_for_each_dependency m callback ())
      (visited (ordered cache) (settled_dep cache) (\<lambda>t h. ordered cache t) (dependencies m)) ?t"
    by (rule each_dependency_wp [where callback = callback and m = m and I = "ordered cache" and
          A = "settled_dep cache" and H = "\<lambda>t h. ordered cache t", OF dep settled_dep_mono]) (use assms(1) in simp_all)
  from wp_extends [OF this] show "wp (bind (module_for_each_dependency m callback ()) (\<lambda>(result, _).
       bind (if result then module_load m else Ret False) (\<lambda>result.
       bind (module_close m) (\<lambda>_. Ret result)))) (\<lambda>t z. ordered cache t) ?t"
    by (rule wp_bindI)
      (use at_hand_mono [OF assms(2)] in \<open>auto intro!: finish_ordered\<close>)
qed

lemma load_by_path_ordered:
  assumes "ordered cache t"
    and deps: "\<And>f t. f \<noteq> [] \<Longrightarrow> ordered cache t \<Longrightarrow> wp (callback f ()) (ordered_try cache f) t"
  shows "wp (load_by_path callback path) (\<lambda>t z. ordered cache t) t"
  unfolding load_by_path_def
  by (rule wp_bindI [OF open_ordered [OF assms(1)]])
    (auto intro: load_opened_ordered [where callback = callback and cache = cache, OF _ _ deps] split: option.split)

lemma load_ordered:
  "name \<noteq> [] \<Longrightarrow> ordered cache t \<Longrightarrow> wp (load_by_name_or_alias d cache name) (\<lambda>t' z. ordered cache t') t"
proof (induction d arbitrary: name t)
  case 0
  then show ?case by simp
next
  case (Suc d)
  have step: "wp (load_dependency d cache f ()) (ordered_try cache f) t" if "f \<noteq> []" "ordered cache t" for f t
  proof (rule wp_bindI)
    show "wp (load_by_name_or_alias d cache f)
        (\<lambda>t z. ordered cache t \<and> (z = Returned True \<longrightarrow> settled_dep cache f t)) t"
    proof (rule wpI)
      fix u z assume ex: "execs (load_by_name_or_alias d cache f) u z"
      from wpD [OF ex Suc.IH [OF that]] settled_dep_append [of cache f u t "[]"] load_settles [OF _ that(1)] ex
      show "ordered cache (t @ u) \<and> (z = Returned True \<longrightarrow> settled_dep cache f (t @ u))" by auto
    qed
  qed auto
  show ?case
  proof (cases "resolve cache name")
    case None
    show ?thesis
      unfolding load_Suc [OF Suc.prems(1)] None option.case using Suc.prems by simp
  next
    case (Some e)
    show ?thesis
      unfolding load_Suc [OF Suc.prems(1)] Some option.case
      by (rule load_by_path_ordered [where callback = "load_dependency d cache", OF Suc.prems(2) step])
  qed
qed

section \<open>The recursion ends\<close>

text \<open>
  A ranking of the module files: whatever a file that is opened and mapped says, the modules
  its dependencies stand for have a smaller rank than the file itself.
\<close>

definition ranked :: "(string \<Rightarrow> nat) \<Rightarrow> cache_t \<Rightarrow> event list \<Rightarrow> bool" where
  "ranked rank cache t \<longleftrightarrow> (\<forall>u p fl k f s n m v.
     t = u @ (File (Open p fl k), f) # (File (Mmap s n), m) # v \<longrightarrow>
     (\<forall>g \<in> set (deps_of n (out m)). \<forall>e. resolve cache g = Some e \<longrightarrow> rank (entry_path e) < rank p))"

lemma ranked_prefix: "ranked rank cache (t @ u) \<Longrightarrow> ranked rank cache t"
  unfolding ranked_def by (metis append.assoc append_Cons)

definition ends :: "(string \<Rightarrow> nat) \<Rightarrow> cache_t \<Rightarrow> event list \<Rightarrow> 'a outcome \<Rightarrow> bool" where
  "ends rank cache t z \<longleftrightarrow> (ranked rank cache t \<longrightarrow> z \<noteq> Halted Running)"

lemma ends_simps [simp]:
  "ends rank cache t (Returned x)" "h \<noteq> Running \<Longrightarrow> ends rank cache t (Halted h)"
  by (simp_all add: ends_def)

lemma wp_unranked: "\<not> ranked rank cache t \<Longrightarrow> wp p (ends rank cache) t"
  by (auto intro!: wpI simp: ends_def dest: ranked_prefix)

lemma wp_never_running: "stops_only (\<lambda>h. h \<noteq> Running) p \<Longrightarrow> wp p (ends rank cache) t"
  by (rule wp_mono [OF stops_only_wp]) (auto simp: ends_def)

lemma open_ranked:
  "wp (module_open path) (\<lambda>t' z. (\<exists>opened. z = Returned opened) \<and> (\<forall>m. z = Returned (Some m) \<longrightarrow>
     ranked rank cache t' \<longrightarrow> (\<forall>g \<in> set (dependencies m). \<forall>e. resolve cache g = Some e \<longrightarrow>
       rank (entry_path e) < rank path))) t"
proof -
  have mapped: "\<forall>g \<in> set (dependencies m). \<forall>e. resolve cache g = Some e \<longrightarrow> rank (entry_path e) < rank path"
    if "ranked rank cache (t0 @ [(File (Open path 0 0), f), (File (Mmap s (module_size m)), x)])"
      "contents m = mapped (module_size m) (out x)" for t0 f s x and m :: module_t
    using that(1) unfolding ranked_def dependencies_deps_of [OF that(2)] by blast
  show ?thesis
    unfolding module_open_def module_map_def
  proof (intro wp_intros; (simp; fail)?)
    fix r ra name and rb rc :: reply
    let ?t = "t @ [(File (Stat path), r), (Lib (Strdup path), ra)]"
    let ?m = "\<lparr>module_size = st_size r, module_fd = ret rb, contents = mapped (st_size r) (out rc),
      path_ptr = ret ra, mod_name = name\<rparr>"
    show "(\<exists>opened. Returned (Some \<lparr>module_size = st_size r, module_fd = ret rb,
        contents = mapped (st_size r) (out rc), path_ptr = ret ra, mod_name = name\<rparr>) = Returned opened) \<and>
      (\<forall>m. Returned (Some \<lparr>module_size = st_size r, module_fd = ret rb,
        contents = mapped (st_size r) (out rc), path_ptr = ret ra, mod_name = name\<rparr>) = Returned (Some m) \<longrightarrow>
        ranked rank cache ((((t @ [(File (Stat path), r)]) @ [(Lib (Strdup path), ra)]) @
          [(File (Open path O_RDONLY 0), rb)]) @ [(File (Mmap (ret rb) (st_size r)), rc)]) \<longrightarrow>
        (\<forall>g \<in> set (dependencies m). \<forall>e. resolve cache g = Some e \<longrightarrow> rank (entry_path e) < rank path))"
      using mapped [of ?t rb "ret rb" ?m rc] by simp
  qed
qed

lemma load_opened_ends:
  assumes deps: "\<And>f t. f \<in> set (dependencies m) \<Longrightarrow>
      wp (callback f ()) (tried (\<lambda>t. True) (\<lambda>f t. True) (\<lambda>t h. ends rank cache t (Halted h :: bool outcome)) f) t"
  shows "wp (load_opened callback m) (ends rank cache) t"
proof -
  have finish: "wp (bind (if r then module_load m else Ret False) (\<lambda>result.
      bind (module_close m) (\<lambda>_. Ret result))) (ends rank cache) t1" for r t1
    unfolding module_load_def module_close_def by (intro wp_never_running stops_intros; simp)
  show ?thesis
    unfolding load_opened_def
    by (intro wp_SysI, rule wp_bindI [OF each_dependency_wp [where callback = callback and m = m and I = "\<lambda>t. True" and
          A = "\<lambda>f t. True" and H = "\<lambda>t h. ends rank cache t (Halted h :: bool outcome)", OF deps]])
      (auto intro!: finish)
qed

lemma load_by_path_ends:
  assumes deps: "\<And>f t. f \<noteq> [] \<Longrightarrow> (\<forall>e. resolve cache f = Some e \<longrightarrow> rank (entry_path e) < rank path) \<Longrightarrow>
      wp (callback f ()) (tried (\<lambda>t. True) (\<lambda>f t. True) (\<lambda>t h. ends rank cache t (Halted h :: bool outcome)) f) t"
  shows "wp (load_by_path callback path) (ends rank cache) t"
  unfolding load_by_path_def
proof (rule wp_bindI [OF open_ranked [where rank = rank and cache = cache]])
  fix t1 and opened :: "module_t option"
  assume a: "(\<exists>opened'. Returned opened = Returned opened') \<and> (\<forall>m. Returned opened = Returned (Some m) \<longrightarrow>
    ranked rank cache t1 \<longrightarrow> (\<forall>g \<in> set (dependencies m). \<forall>e. resolve cache g = Some e \<longrightarrow>
      rank (entry_path e) < rank path))"
  show "wp (case opened of None \<Rightarrow> Ret True | Some m \<Rightarrow> load_opened callback m) (ends rank cache) t1"
  proof (cases "ranked rank cache t1 \<and> opened \<noteq> None")
    case True
    with a obtain m where m: "opened = Some m" "\<forall>g \<in> set (dependencies m). \<forall>e. resolve cache g = Some e \<longrightarrow>
      rank (entry_path e) < rank path" by auto
    have "wp (load_opened callback m) (ends rank cache) t1"
      by (rule load_opened_ends, rule deps) (use m(2) dependencies_nonempty [of m] in auto)
    with m show ?thesis by simp
  qed (auto intro: wp_unranked)
qed simp

lemma load_ends:
  "name \<noteq> [] \<Longrightarrow> 0 < d \<Longrightarrow> (\<forall>e. resolve cache name = Some e \<longrightarrow> Suc (rank (entry_path e)) < d) \<Longrightarrow>
     wp (load_by_name_or_alias d cache name) (ends rank cache) t"
proof (induction d arbitrary: name t)
  case 0
  then show ?case by simp
next
  case (Suc d)
  show ?case
  proof (cases "resolve cache name")
    case None
    show ?thesis unfolding load_Suc [OF Suc.prems(1)] None option.case by simp
  next
    case (Some e)
    with Suc.prems have d: "rank (entry_path e) < d" by simp
    have step: "wp (load_dependency d cache f ()) (tried (\<lambda>t. True) (\<lambda>f t. True)
        (\<lambda>t h. ends rank cache t (Halted h :: bool outcome)) f) t"
      if "f \<noteq> []" "\<forall>e'. resolve cache f = Some e' \<longrightarrow> rank (entry_path e') < rank (entry_path e)" for f t
      by (rule wp_bindI [OF Suc.IH [OF that(1)]]) (use that(2) d in \<open>auto simp: ends_def\<close>)
    show ?thesis
      unfolding load_Suc [OF Suc.prems(1)] Some option.case
      by (rule load_by_path_ends [where callback = "load_dependency d cache"]) (rule step)
  qed
qed

section \<open>Stopping\<close>

lemma no_wait_each_token:
  assumes "\<And>f s. issues_only P (callback f s)"
  shows "issues_only P (each_token callback p s)"
proof -
  have "issues_only P (visit_all callback fs s)" for fs
    using assms by (induction fs arbitrary: s) (auto intro!: issues_when_bind)
  then show ?thesis by (simp add: each_token_visit)
qed

lemma no_wait_load: "never_waits (load_by_name_or_alias d cache name)"
proof (induction d arbitrary: name)
  case 0
  then show ?case by simp
next
  case (Suc d)
  have "never_waits (find_module_in n es)" for n es
    by (induction es) (auto simp: module_cmp_def c_assert_def intro!: issues_when_bind)
  then have find: "never_waits (cache_find_module cache n)" "never_waits (cache_find_alias cache n)" for n
    unfolding cache_find_module_def cache_find_alias_def Let_def
    by (auto split: option.split)
  show ?case
    unfolding load_by_name_or_alias.simps load_by_path_def load_opened_def module_for_each_dependency_def
      module_open_def module_map_def module_close_def module_load_def
    by (intro issues_intros find no_wait_each_token Suc.IH) simp_all
qed

interpretation modprobed_service: daemon_service "modprobed_round d daemon_data cache" "(EXIT_SUCCESS, False)"
  for d daemon_data cache
proof
  show "\<exists>e u. t = e # u \<and> waits (fst e) \<and> (\<forall>e' \<in> set u. \<not> waits (fst e'))"
    if "execs (modprobed_round d daemon_data cache s) t z" for s t z
    using that unfolding modprobed_round_def
  proof (rule daemon_wait_round)
    show "never_waits (case x of (ok, g) \<Rightarrow> if \<not> ok then Ret (Inr (EXIT_FAILURE, False))
       else if SIGTERM = g then Ret (Inr (EXIT_SUCCESS, False))
       else modprobed_receive d daemon_data cache)" for x
      unfolding modprobed_receive_def
      by (intro issues_intros no_wait_load never_waits_fork) simp_all
  qed
  show "u = [] \<and> z = Returned (Inr (EXIT_SUCCESS, False))"
    if "execs (modprobed_round d daemon_data cache s) (e # u) z" "terminated e" for s e u z
    using that unfolding modprobed_round_def by (rule daemon_wait_stops) simp
qed

text \<open>The blocks a cache is made of, in the order in which they are freed.\<close>

definition entry_blocks :: "cache_entry_t \<Rightarrow> int list" where
  "entry_blocks e = (if aliases e = [] then [] else map fst (aliases e) @ [aliases_ptr e])"

definition cache_blocks :: "cache_t \<Rightarrow> int list" where
  "cache_blocks cache = concat (map entry_blocks (entries cache)) @ [entries_ptr cache]"

lemma free_each_execs:
  "execs (free_each ps) t z \<longleftrightarrow> map fst t = map (\<lambda>p. Lib (Free p)) ps \<and> z = Returned ()"
proof (induction ps arbitrary: t)
  case (Cons p ps)
  then show ?case by (cases t) (auto simp: execs_Sys)
qed auto

lemma free_entries_execs:
  "execs (free_entries es) t z \<Longrightarrow>
     map fst t = map (\<lambda>p. Lib (Free p)) (concat (map entry_blocks es)) \<and> z = Returned ()"
proof (induction es arbitrary: t)
  case (Cons e es)
  from Cons.prems show ?case
  proof (cases "aliases e = []")
    case False
    with Cons.prems have "execs (bind (free_each (map fst (aliases e))) (\<lambda>_.
      Sys (Lib (Free (aliases_ptr e))) (\<lambda>_. free_entries es))) t z" by simp
    then show ?thesis
    proof (cases rule: execs_bindE)
      case (returned t1 t2 a)
      with Cons.IH False show ?thesis by (auto simp: free_each_execs execs_Sys entry_blocks_def)
    qed (simp add: free_each_execs)
  qed (use Cons in \<open>auto simp: entry_blocks_def\<close>)
qed auto

text \<open>What follows the main loop, apart from the socket; an empty cache fails an assertion.\<close>

definition finished :: "cache_t \<Rightarrow> syscall list \<Rightarrow> int outcome \<Rightarrow> bool" where
  "finished cache cs z \<longleftrightarrow>
     (if entries_ptr cache \<noteq> 0 \<and> entries cache \<noteq> []
      then cs = map (\<lambda>p. Lib (Free p)) (cache_blocks cache) @ [Lib Closelog] \<and> z = Returned EXIT_SUCCESS
      else cs = [] \<and> z = Halted Aborted)"

lemma finish_execs:
  assumes "execs (bind (modprobed_finish cache) (\<lambda>_. Ret EXIT_SUCCESS)) t z"
  shows "finished cache (map fst t) z"
proof (cases "entries_ptr cache \<noteq> 0 \<and> entries cache \<noteq> []")
  case True
  with assms have "execs (bind (free_entries (entries cache)) (\<lambda>_. Sys (Lib (Free (entries_ptr cache)))
      (\<lambda>_. Sys (Lib Closelog) (\<lambda>_. Ret EXIT_SUCCESS)))) t z"
    by (simp add: modprobed_finish_def cache_free_def c_assert_def bind_assoc)
  then show ?thesis
  proof (cases rule: execs_bindE)
    case (returned t1 t2 a)
    with True free_entries_execs [OF returned(2)] show ?thesis
      by (auto simp: finished_def cache_blocks_def execs_Sys)
  qed (auto dest: free_entries_execs)
next
  case False
  with assms show ?thesis
    by (auto simp: finished_def modprobed_finish_def cache_free_def c_assert_def split: if_split_asm)
qed

lemma no_wait_free_entries: "never_waits (free_entries es)"
proof -
  have "never_waits (free_each ps)" for ps by (induction ps) simp_all
  then show ?thesis by (induction es) (auto intro!: issues_when_bind)
qed

lemma finish_never_waits: "never_waits (modprobed_finish cache)"
  unfolding modprobed_finish_def cache_free_def
  by (intro issues_intros no_wait_free_entries) simp_all

text \<open>What the daemon with the socket \<open>s\<close> does after the signal.\<close>

definition cleaned_up :: "cache_t \<Rightarrow> fd \<Rightarrow> event list \<Rightarrow> int outcome \<Rightarrow> bool" where
  "cleaned_up cache s v z \<longleftrightarrow> (\<exists>cs. finished cache cs z \<and>
     map fst v = File (Close s) # File (Unlink MODPROBED_SOCKET_PATH) # cs)"

lemma close_unix_cleans_up:
  assumes "execs (bind (close_unix s False (modprobed_finish cache)) (\<lambda>_. Ret EXIT_SUCCESS)) v z"
  shows "cleaned_up cache s v z"
proof -
  from assms obtain r1 r2 w where v: "v = (File (Close s), r1) # (File (Unlink MODPROBED_SOCKET_PATH), r2) # w"
    and w: "execs (bind (modprobed_finish cache) (\<lambda>_. Ret EXIT_SUCCESS)) w z"
    by (auto simp: close_unix_def execs_Sys)
  from finish_execs [OF w] show ?thesis unfolding cleaned_up_def v by auto
qed

lemma modprobed_bound_quits:
  assumes "calm t"
  shows "wp (Sys (Net (Bind s (Sun MODPROBED_SOCKET_PATH))) (\<lambda>b.
     bind (if ret b = -1 then Ret (EXIT_FAILURE, False) else
       bind (daemon_init \<lparr>signal_mask = [], daemon_fd = s, io_signal = SIGOTHER 0\<rparr>
         DAEMON_WORKING_DIRECTORY None) (\<lambda>(ok, daemon_data).
         if \<not> ok then Ret (EXIT_FAILURE, False)
         else loop n (modprobed_round d daemon_data cache) ()))
       (\<lambda>(exit_code, in_child).
     bind (close_unix s in_child (modprobed_finish cache)) (\<lambda>_. Ret exit_code)))) (quits (cleaned_up cache s)) t"
proof -
  let ?R = "\<lambda>v z. v = [] \<and> z = Returned (EXIT_SUCCESS, False)"
  let ?serve = "\<lambda>b. if ret b = -1 then Ret (EXIT_FAILURE, False) else
      bind (daemon_init \<lparr>signal_mask = [], daemon_fd = s, io_signal = SIGOTHER 0\<rparr>
         DAEMON_WORKING_DIRECTORY None) (\<lambda>(ok, daemon_data).
         if \<not> ok then Ret (EXIT_FAILURE, False) else loop n (modprobed_round d daemon_data cache) ())"
  have serve: "wp (?serve b) (quits ?R) t" if "calm t" for b :: reply and t
    using that by (auto intro!: wp_bindI [OF wp_calm [OF never_waits_init]]
      modprobed_service.service_quits quits_calm)
  have tail: "never_waits (case x of (exit_code, in_child) \<Rightarrow>
      bind (close_unix s in_child (modprobed_finish cache)) (\<lambda>_. Ret exit_code))" for x
    unfolding close_unix_def by (intro issues_intros finish_never_waits) simp_all
  have "wp (bind (?serve b) (\<lambda>(exit_code, in_child).
      bind (close_unix s in_child (modprobed_finish cache)) (\<lambda>_. Ret exit_code))) (quits (cleaned_up cache s)) t"
    if "calm t" for b :: reply and t
    by (rule quits_bind [OF serve [OF that] tail]) (auto intro: close_unix_cleans_up)
  then show ?thesis using assms by (intro wp_SysI) (simp add: not_terminated)
qed

lemma modprobed_serve_quits:
  assumes "execs (modprobed_serve d n cache) t z"
  shows "\<exists>s u. t = (Net (Socket AF_UNIX SOCK_DGRAM 0), s) # u \<and> quits (cleaned_up cache (ret s)) t z"
proof -
  let ?socket = "Net (Socket AF_UNIX SOCK_DGRAM 0)"
  from assms obtain s u where t: "t = (?socket, s) # u" unfolding modprobed_serve_def by (auto simp: execs_Sys)
  have calm: "calm [(?socket, s)]" by (simp add: not_terminated)
  have "quits (cleaned_up cache (ret s)) t z"
  proof (cases "ret s = -1")
    case True
    with assms t have ex: "execs (bind (modprobed_finish cache) (\<lambda>_. Ret EXIT_FAILURE)) u z"
      by (simp add: modprobed_serve_def execs_Sys)
    have "never_waits (bind (modprobed_finish cache) (\<lambda>_. Ret EXIT_FAILURE))"
      by (intro issues_intros finish_never_waits)
    from calm_execs [OF ex this] t calm show ?thesis by (intro quits_calm) simp
  next
    case False
    from wpD [OF _ modprobed_bound_quits [OF calm]] assms t False show ?thesis
      by (auto simp: modprobed_serve_def execs_Sys)
  qed
  with t show ?thesis by blast
qed

section \<open>Properties\<close>

text \<open>
  C20: the kernel is handed a module only when each of its dependencies, as its file lists
  them, is settled before: a message says that no such module is known, or the module's file
  could not be opened and mapped, or the kernel was handed its contents and accepted them or
  had the module already.
\<close>

theorem dependencies_before_module:
  assumes "execs (load_by_name_or_alias d cache name) (u @ (Kern (Init_module img), r) # v) z"
    and "name \<noteq> []"
  shows "\<exists>n f m. (File (Mmap f n), m) \<in> set u \<and> img = take n (mapped n (out m)) \<and>
    list_all (\<lambda>f. settled_dep cache f u) (deps_of n (out m))"
proof -
  from wpD [OF assms(1) load_ordered [OF assms(2), of cache "[]"]]
  have "ordered cache (u @ (Kern (Init_module img), r) # v)" by simp
  then have "load_ok cache u (Kern (Init_module img), r)" unfolding ordered_def by blast
  then show ?thesis by (auto simp: load_ok_def list_all_iff)
qed

text \<open>
  C21: loading ends when the dependencies found in the files are acyclic (each dependency has a
  smaller rank): a depth of at least the rank of the module plus two is enough, and of one for
  a name that is not in the cache.
\<close>

theorem acyclic_load_ends:
  assumes "execs (load_by_name_or_alias d cache name) t z" and "name \<noteq> []"
    and "ranked rank cache t" and "\<forall>e. resolve cache name = Some e \<longrightarrow> Suc (rank (entry_path e)) < d"
    and "0 < d"
  shows "z \<noteq> Halted Running"
  using wpD [OF assms(1) load_ends [OF assms(2,5,4), of "[]"]] assms(3) by (simp add: ends_def)

text \<open>A module that names itself as its dependency.\<close>

definition self_cache :: cache_t where
  "self_cache = \<lparr>entries_ptr = 1, entries = [\<lparr>entry_path = ''/a.ko'', entry_name = ''a'', aliases_ptr = 0,
     aliases = []\<rparr>]\<rparr>"

definition self_file :: buffer where
  "self_file = ''depends=a'' @ [NUL]"

lemma self_resolve: "resolve self_cache ''a'' = Some (hd (entries self_cache))"
  by (simp add: resolve_def self_cache_def)

lemma self_mapped: "mapped 10 self_file = self_file @ replicate 4086 NUL"
  by (simp add: mapped_def overwrite_def PAGE_SIZE_def self_file_def)

lemma self_for_each:
  assumes "contents m = mapped 10 self_file" and "module_size m = 10"
  shows "module_for_each_dependency m callback () = Sys (Lib (Strdup ''a'')) (\<lambda>copy.
    if ret copy = 0 then Ret (False, ()) else bind (visit_all callback [''a''] ()) (\<lambda>(result, s).
    Sys (Lib (Free (ret copy))) (\<lambda>_. Ret (result, s))))"
proof -
  have "scan ''depends='' (10 - 8) (mapped 10 self_file) = Some 0"
    unfolding self_mapped unfolding self_file_def by (simp add: numeral_2_eq_2)
  moreover have "drop 8 (mapped 10 self_file) = CHR ''a'' # replicate 4087 NUL"
    unfolding self_mapped unfolding self_file_def by (simp flip: replicate_Suc)
  moreover have "cstr_of (CHR ''a'' # replicate 4087 NUL) = ''a''" by (simp add: cstr_of_def)
  moreover have "each_token callback ''a'' () = visit_all callback [''a''] ()"
    by (simp add: each_token_visit tokens_eq_split)
  ultimately show ?thesis
    using assms
    by (simp add: module_for_each_dependency_def c_assert_def Let_def string_at_def cong: if_cong)
qed

text \<open>
  C22: for a module that lists itself as a dependency no depth is enough: the recursion does
  not end.
\<close>

theorem cyclic_load_never_ends:
  "\<exists>t. execs (load_by_name_or_alias d self_cache ''a'') t (Halted Running)"
proof (induction d)
  case 0
  then show ?case by auto
next
  case (Suc d)
  then obtain t where t: "execs (load_by_name_or_alias d self_cache ''a'') t (Halted Running)" ..
  let ?m = "\<lparr>module_size = 10, module_fd = 3, contents = mapped 10 self_file, path_ptr = 1, mod_name = ''a''\<rparr>"
  let ?r = "(returns 7)\<lparr>out := self_file\<rparr>"
  let ?open = "[(File (Stat ''/a.ko''), reply0\<lparr>st_size := 10\<rparr>), (Lib (Strdup ''/a.ko''), returns 1),
    (File (Open ''/a.ko'' O_RDONLY 0), returns 3), (File (Mmap 3 10), ?r)]"
  have "execs (module_open ''/a.ko'') ?open (Returned (Some ?m))"
    by (simp add: module_open_def module_map_def execs_Sys module_name_of_def Let_def basename_def)
  moreover have "execs (module_for_each_dependency ?m (load_dependency d self_cache) ())
      ((Lib (Strdup ''a''), returns 2) # t) (Halted Running)"
    by (subst self_for_each) (auto simp: execs_Sys intro!: execs_bind_haltI t)
  ultimately have "execs (load_by_path (load_dependency d self_cache) ''/a.ko'')
      (?open @ (Lib (Syslog LOG_INFO (''Loading '' @ ''a'')), reply0) # (Lib (Strdup ''a''), returns 2) # t)
      (Halted Running)"
    unfolding load_by_path_def load_opened_def
    by (intro execs_bindI) (auto simp: execs_Sys intro!: execs_bind_haltI)
  moreover have "entry_path (hd (entries self_cache)) = ''/a.ko''" by (simp add: self_cache_def)
  ultimately show ?case
    unfolding load_Suc [OF list.distinct(2)] self_resolve option.case by (intro exI) simp
qed

text \<open>
  C23: once the wait delivers SIGTERM the daemon loads nothing further: it closes the socket it
  had created first of all and deletes its path, and then, with a non-empty cache, frees every
  block of the cache once and in order, closes the log and reports success; an empty cache
  makes it abort in cache_free instead.
\<close>

theorem modprobed_sigterm:
  assumes "execs (modprobed_serve d n cache) t z" and "e \<in> set t" and "terminated e"
  shows "\<exists>s u v. t = (Net (Socket AF_UNIX SOCK_DGRAM 0), s) # u @ e # v \<and>
    (if entries_ptr cache \<noteq> 0 \<and> entries cache \<noteq> []
     then map fst v = [File (Close (ret s)), File (Unlink MODPROBED_SOCKET_PATH)] @
         map (\<lambda>p. Lib (Free p)) (cache_blocks cache) @ [Lib Closelog] \<and> z = Returned EXIT_SUCCESS
     else map fst v = [File (Close (ret s)), File (Unlink MODPROBED_SOCKET_PATH)] \<and> z = Halted Aborted)"
proof -
  from modprobed_serve_quits [OF assms(1)] obtain s u where
    t: "t = (Net (Socket AF_UNIX SOCK_DGRAM 0), s) # u" and "quits (cleaned_up cache (ret s)) t z" by blast
  from quitsD [OF this(2) assms(2,3)] obtain w v where w: "t = w @ e # v" "cleaned_up cache (ret s) v z" by blast
  with t assms(3) obtain w' where "w = (Net (Socket AF_UNIX SOCK_DGRAM 0), s) # w'"
    by (cases w) (auto simp: terminated_def)
  with w show ?thesis
    by (intro exI [of _ s] exI [of _ w'] exI [of _ v]) (auto simp: cleaned_up_def finished_def)
qed

text \<open>
  When the kernel release cannot be read the cache stays empty and the daemon can end in a
  failed assertion of cache_free.
\<close>

theorem empty_cache_aborts:
  "\<exists>t. execs (modprobed_main 1 1 1 1) t (Halted Aborted)"
proof -
  let ?p = "modprobed_main 1 1 1 1"
  let ?rs = "[returns 0, returns 0, fails EINVAL, fails EINVAL]"
  have "snd (run ?p ?rs) = Halted Aborted" by code_simp
  then have "execs ?p (fst (run ?p ?rs)) (Halted Aborted)" by (rule run_trace) simp
  then show ?thesis by blast
qed

section \<open>From the client to the module\<close>

lemma fork_ordered: "execs daemon_fork t z \<Longrightarrow> ordered cache t"
proof (rule execs_wp [where Q = "\<lambda>t z. ordered cache t"], assumption)
  show "wp daemon_fork (\<lambda>t z. ordered cache t) []"
    unfolding daemon_fork_def by (intro wp_intros) (simp_all only: ordered_other ordered_Nil)
qed

lemma receive_child:
  assumes "execs (modprobed_receive d x cache)
      ((Net (Recvfrom (daemon_fd x) MAX_ALIAS_LENGTH), delivers name) # u) (Returned (Inr (code, True)))"
    and "NUL \<notin> set name"
  obtains t1 t2 ok where "u = t1 @ t2" "execs daemon_fork t1 (Returned 0)"
    "execs (load_by_name_or_alias d cache name) t2 (Returned ok)"
    "code = (if ok then EXIT_SUCCESS else EXIT_FAILURE)"
  using assms
proof -
  have "cstr_of name = name" using assms(2) by (auto simp: cstr_of_def takeWhile_eq_all_conv)
  with assms(1) have "execs (bind daemon_fork (\<lambda>pid.
      if pid = 0 then
        bind (load_by_name_or_alias d cache name) (\<lambda>ok. Ret (Inr (if ok then EXIT_SUCCESS else EXIT_FAILURE, True)))
      else if pid = -1 then Ret (Inr (EXIT_FAILURE, False))
      else Ret (Inl ()))) u (Returned (Inr (code, True)))"
    unfolding modprobed_receive_def by (simp add: execs_Sys Let_def split: if_split_asm)
  then show thesis
    by (elim execs_bind_ReturnedE) (auto split: if_split_asm elim!: execs_bind_ReturnedE intro: that)
qed

text \<open>
  C24: from the client to the module: when modprobe reports success it has sent its argument,
  all of it, to the daemon's socket. A child of the daemon that receives this datagram (the
  argument of a program has no null byte) and ends with success has handed the module the name
  stands for to the kernel, which accepted it or had it already, unless no such module is
  known, which is logged, or its file could not be opened and mapped; and each module it hands
  to the kernel on the way has its dependencies settled in the same sense before.
\<close>

theorem modprobe_request_loaded:
  assumes "execs (modprobe_main [''modprobe'', name]) t (Returned EXIT_SUCCESS)"
    and "NUL \<notin> set name"
    and "execs (modprobed_receive d x cache)
      ((Net (Recvfrom (daemon_fd x) MAX_ALIAS_LENGTH), delivers name) # u) (Returned (Inr (code, True)))"
  shows "(\<exists>s r. (Net (Sendto s name (Sun MODPROBED_SOCKET_PATH)), r) \<in> set t \<and> ret r = int (length name)) \<and>
    (code = EXIT_SUCCESS \<longrightarrow> settled_dep cache name u) \<and>
    (\<forall>u1 img r u2. u = u1 @ (Kern (Init_module img), r) # u2 \<longrightarrow>
       (\<exists>n f m. (File (Mmap f n), m) \<in> set u1 \<and> img = take n (mapped n (out m)) \<and>
          list_all (\<lambda>f. settled_dep cache f u1) (deps_of n (out m))))"
proof -
  have name: "name \<noteq> []" using assms(1) by (auto simp: modprobe_main_def)
  from assms(1) name obtain s r c where
    "t = [(Net (Socket AF_UNIX SOCK_DGRAM 0), s), (Net (Sendto (ret s) name (Sun MODPROBED_SOCKET_PATH)), r),
      (File (Close (ret s)), c)]" and "ret r = int (length name)"
    unfolding modprobe_main_def by (auto simp: execs_Sys split: if_split_asm)
  then have sent: "\<exists>s r. (Net (Sendto s name (Sun MODPROBED_SOCKET_PATH)), r) \<in> set t \<and> ret r = int (length name)"
    by (intro exI [of _ "ret s"] exI [of _ r]) simp
  obtain t1 t2 ok where u: "u = t1 @ t2"
    and t1: "execs daemon_fork t1 (Returned 0)" and t2: "execs (load_by_name_or_alias d cache name) t2 (Returned ok)"
    and code: "code = (if ok then EXIT_SUCCESS else EXIT_FAILURE)"
    by (rule receive_child [OF assms(3,2)])
  from wpD [OF t2 load_ordered [OF name fork_ordered [OF t1]]] u have "ordered cache u" by simp
  then have "\<exists>n f m. (File (Mmap f n), m) \<in> set u1 \<and> img = take n (mapped n (out m)) \<and>
      list_all (\<lambda>f. settled_dep cache f u1) (deps_of n (out m))" if "u = u1 @ (Kern (Init_module img), r) # u2" for u1 img r u2
    using that unfolding ordered_def by (fastforce simp: load_ok_def list_all_iff)
  moreover have "settled_dep cache name u" if "code = EXIT_SUCCESS"
  proof -
    from that code have ok by (simp split: if_split_asm)
    with load_settles [OF _ name] t2 have "settled_dep cache name t2" by simp
    from settled_dep_append [OF this, of t1 "[]"] u show ?thesis by simp
  qed
  ultimately show ?thesis using sent by blast
qed

section \<open>Witnesses\<close>

text \<open>A module whose one dependency is not in the cache.\<close>

definition needy_file :: buffer where
  "needy_file = ''depends=b'' @ [NUL]"

definition load_replies :: "reply list" where
  "load_replies = [reply0\<lparr>st_size := 10\<rparr>, returns 1, returns 3, (returns 7)\<lparr>out := needy_file\<rparr>, returns 0,
     returns 2, returns 0, returns 0, returns 0, returns 0, returns 0, returns 0]"

definition load_example :: "event list \<times> bool outcome" where
  "load_example = run (load_by_name_or_alias 2 self_cache ''a'') load_replies"

lemma load_example_ok: "snd load_example = Returned True"
  by code_simp

lemma load_example_execs:
  "execs (load_by_name_or_alias 2 self_cache ''a'') (fst load_example) (Returned True)"
  using load_example_ok unfolding load_example_def by (rule run_trace) simp

theorem dependencies_before_module_witness:
  "\<exists>u f n m. (File (Mmap f n), m) \<in> set u \<and> list_all (\<lambda>f. settled_dep self_cache f u) (deps_of n (out m))"
proof -
  let ?t = "fst load_example"
  have len: "8 < length ?t" by code_simp
  have "case fst (?t ! 8) of Kern (Init_module img) \<Rightarrow> True | _ \<Rightarrow> False" by code_simp
  then obtain img where "fst (?t ! 8) = Kern (Init_module img)"
    by (auto split: syscall.splits system_call.splits)
  then have "?t = take 8 ?t @ (Kern (Init_module img), snd (?t ! 8)) # drop (Suc 8) ?t"
    using id_take_nth_drop [OF len] by (metis prod.collapse)
  then have "execs (load_by_name_or_alias 2 self_cache ''a'')
      (take 8 ?t @ (Kern (Init_module img), snd (?t ! 8)) # drop (Suc 8) ?t) (Returned True)"
    using load_example_execs by simp
  from dependencies_before_module [OF this] show ?thesis by blast
qed

theorem acyclic_load_ends_witness: "snd load_example \<noteq> Halted Running"
proof -
  have "list_all (\<lambda>e. case fst e of File (Mmap s n) \<Rightarrow> n = 10 \<and> out (snd e) = needy_file | _ \<Rightarrow> True)
      (fst load_example)" by code_simp
  then have maps: "n = 10 \<and> out m = needy_file" if "(File (Mmap s n), m) \<in> set (fst load_example)" for s n m
    using that by (fastforce simp: list_all_iff)
  have "mapped 10 needy_file = needy_file @ replicate 4086 NUL"
    by (simp add: mapped_def overwrite_def PAGE_SIZE_def needy_file_def)
  then have deps: "deps_of 10 needy_file = [''b'']"
    by (simp add: deps_of_def dependencies_def depends_at_scan numeral_2_eq_2 needy_file_def cstr_of_def)
  have "resolve self_cache ''b'' = None"
    by (simp add: resolve_def self_cache_def canonical_def)
  with deps have "\<forall>g \<in> set (deps_of 10 needy_file). resolve self_cache g = None" by simp
  note none = this
  have "ranked (\<lambda>p. 0) self_cache (fst load_example)"
    unfolding ranked_def
  proof (intro allI impI ballI)
    fix u p fl k f s n m v g e
    assume t: "fst load_example = u @ (File (Open p fl k), f) # (File (Mmap s n), m) # v"
      and g: "g \<in> set (deps_of n (out m))" "resolve self_cache g = Some e"
    have "(File (Mmap s n), m) \<in> set (fst load_example)" unfolding t by simp
    with maps g none show "0 < (0 :: nat)" by force
  qed
  then have "Returned True \<noteq> Halted Running"
    using acyclic_load_ends [OF load_example_execs, of "\<lambda>p. 0"] self_resolve by simp
  then show ?thesis unfolding load_example_ok .
qed

theorem modprobe_request_loaded_witness:
  "\<exists>u. handed_over ''/a.ko'' u \<or> unusable ''/a.ko'' u"
proof -
  let ?rs = "[returns 0, returns 0, returns 0] @ load_replies"
  have "snd (run (modprobe_main [''modprobe'', ''a'']) [returns 5, returns 1, returns 0]) = Returned EXIT_SUCCESS"
    by code_simp
  then have client: "execs (modprobe_main [''modprobe'', ''a''])
      (fst (run (modprobe_main [''modprobe'', ''a'']) [returns 5, returns 1, returns 0])) (Returned EXIT_SUCCESS)"
    by (rule run_trace) simp
  let ?daemon = "\<lparr>signal_mask = [], daemon_fd = 3, io_signal = SIGRTMIN\<rparr>"
  have "snd (run (modprobed_receive 2 ?daemon self_cache) (delivers ''a'' # ?rs)) = Returned (Inr (EXIT_SUCCESS, True))"
    by code_simp
  then have "execs (modprobed_receive 2 ?daemon self_cache)
      (fst (run (modprobed_receive 2 ?daemon self_cache) (delivers ''a'' # ?rs))) (Returned (Inr (EXIT_SUCCESS, True)))"
    by (rule run_trace) simp
  then obtain u where "execs (modprobed_receive 2 ?daemon self_cache)
      ((Net (Recvfrom (daemon_fd ?daemon) MAX_ALIAS_LENGTH), delivers ''a'') # u) (Returned (Inr (EXIT_SUCCESS, True)))"
    by (auto simp: modprobed_receive_def split: prod.splits)
  from modprobe_request_loaded [OF client _ this] have "settled_dep self_cache ''a'' u" by simp
  then have "handed_over ''/a.ko'' u \<or> unusable ''/a.ko'' u"
    by (simp add: settled_dep_def self_resolve) (simp add: self_cache_def)
  then show ?thesis by blast
qed

theorem modprobed_sigterm_witness:
  "snd (run (modprobed_serve 1 1 self_cache) ([returns 3, returns 0, returns 2] @ detached @
     pipes_replaced @ replicate 10 (returns 0) @ signalled SIGTERM # replicate 4 (returns 0))) = Returned EXIT_SUCCESS"
proof -
  let ?p = "modprobed_serve 1 1 self_cache"
  let ?rs = "[returns 3, returns 0, returns 2] @ detached @ pipes_replaced @
     replicate 10 (returns 0) @ signalled SIGTERM # replicate 4 (returns 0)"
  have "plays ?p ?rs" by code_simp
  then have ex: "execs ?p (fst (run ?p ?rs)) (snd (run ?p ?rs))" by (rule run_plays)
  have "list_ex terminated (fst (run ?p ?rs))" by code_simp
  then obtain e where "e \<in> set (fst (run ?p ?rs))" "terminated e" by (auto simp: list_ex_iff)
  from modprobed_sigterm [OF ex this] show ?thesis by (auto simp: self_cache_def)
qed

end
