(* ===== verification/Syslogd.thy ===== *)
theory Syslogd
  imports Daemon Monitor
begin

text \<open>
  \<^verbatim>\<open>syslogd.c\<close>, \<^verbatim>\<open>syslog.c\<close> and \<^verbatim>\<open>syslog.h\<close>: the daemon that writes messages to an obfuscated log,
  and the program that prints it. What a round leaves in the message buffer is never read
  again: the next receive overwrites as many bytes as are used.
\<close>

section \<open>Constants\<close>

definition LOG_FILE_PATH :: string where "LOG_FILE_PATH = ''/var/log/messages''"
definition MAX_MESSAGE_LENGTH :: nat where "MAX_MESSAGE_LENGTH = MAX_LENGTH"
definition XOR_KEY :: byte where "XOR_KEY = 0xF1"
definition SOCKET_PATH :: string where "SOCKET_PATH = ''/dev/log''"
definition LOG_FILE_PERMISSIONS :: nat where "LOG_FILE_PERMISSIONS = 420"
definition USAGE_syslogd :: string where "USAGE_syslogd = ''Usage: syslogd'' @ [CHR 0x0A, NUL]"
definition USAGE_syslog :: string where "USAGE_syslog = ''Usage: syslog'' @ [CHR 0x0A, NUL]"

text \<open>\<^verbatim>\<open>message[i] ^= XOR_KEY\<close> for each byte.\<close>

definition xor_char :: "char \<Rightarrow> char" where
  "xor_char c = char_of_byte (byte_of c XOR XOR_KEY)"

definition xor_log :: "buffer \<Rightarrow> buffer" where
  "xor_log = map xor_char"

section \<open>The daemon\<close>

definition terminate_line :: "buffer \<Rightarrow> buffer" where
  "terminate_line m = (if last m \<noteq> CHR 0x0A then m @ [CHR 0x0A] else m)"

definition syslogd_receive :: "fd \<Rightarrow> daemon_t \<Rightarrow> (unit + int) prog" where
  "syslogd_receive log_file daemon_data =
     Sys (Net (Recvfrom (daemon_fd daemon_data) MAX_MESSAGE_LENGTH)) (\<lambda>r.
       if ret r = -1 then
         (if EAGAIN \<noteq> errno r then Ret (Inr EXIT_FAILURE) else Ret (Inl ()))
       else if ret r = 0 then Ret (Inl ())
       else
         (let message = terminate_line (take (nat (ret r)) (out r)) in
          Sys (File (Write log_file (xor_log message) (length message))) (\<lambda>w.
            if int (length message) \<noteq> ret w then Ret (Inr EXIT_FAILURE) else Ret (Inl ()))))"

definition syslogd_round :: "fd \<Rightarrow> daemon_t \<Rightarrow> unit \<Rightarrow> (unit + int) prog" where
  "syslogd_round log_file daemon_data s =
     bind (daemon_wait daemon_data) (\<lambda>(ok, received_signal).
       if \<not> ok then Ret (Inr EXIT_FAILURE)
       else if SIGTERM = received_signal then Ret (Inr EXIT_SUCCESS)
       else syslogd_receive log_file daemon_data)"

definition syslogd_serve :: "nat \<Rightarrow> fd \<Rightarrow> fd \<Rightarrow> int prog" where
  "syslogd_serve n log_file s =
     Sys (Net (Bind s (Sun SOCKET_PATH))) (\<lambda>b.
     bind (if ret b = -1 then Ret EXIT_FAILURE else
       bind (daemon_init \<lparr>signal_mask = [], daemon_fd = s, io_signal = SIGOTHER 0\<rparr>
         DAEMON_WORKING_DIRECTORY None) (\<lambda>(ok, daemon_data).
       if \<not> ok then Ret EXIT_FAILURE else loop n (syslogd_round log_file daemon_data) ()))
       (\<lambda>exit_code.
     Sys (File (Close s)) (\<lambda>_.
     Sys (File (Unlink SOCKET_PATH)) (\<lambda>_.
     Sys (File (Close log_file)) (\<lambda>_. Ret exit_code)))))"

definition syslogd_main :: "nat \<Rightarrow> int \<Rightarrow> int prog" where
  "syslogd_main n argc =
     (if argc \<noteq> 1 then Sys (Lib (Print USAGE_syslogd)) (\<lambda>_. Ret EXIT_FAILURE) else
     Sys (File (Open LOG_FILE_PATH (O_WRONLY OR O_APPEND OR O_CREAT) LOG_FILE_PERMISSIONS)) (\<lambda>f.
       if ret f = -1 then Ret EXIT_FAILURE else
     Sys (Net (Socket AF_UNIX SOCK_DGRAM 0)) (\<lambda>s.
       if ret s = -1 then Sys (File (Close (ret f))) (\<lambda>_. Ret EXIT_FAILURE)
       else syslogd_serve n (ret f) (ret s))))"

section \<open>The reader\<close>

definition CHUNK_LENGTH :: nat where
  "CHUNK_LENGTH = 1 + MAX_MESSAGE_LENGTH"

definition syslog_round :: "fd \<Rightarrow> unit \<Rightarrow> (unit + int) prog" where
  "syslog_round log_file s =
     Sys (File (Read log_file CHUNK_LENGTH)) (\<lambda>r.
       if ret r = 0 then Ret (Inr EXIT_SUCCESS)
       else if ret r = -1 then Ret (Inr EXIT_FAILURE)
       else
         Sys (File (Write STDOUT_FILENO (xor_log (take (nat (ret r)) (out r))) (nat (ret r)))) (\<lambda>w.
           if ret r \<noteq> ret w then Ret (Inr EXIT_FAILURE) else Ret (Inl ())))"

definition syslog_main :: "nat \<Rightarrow> int \<Rightarrow> int prog" where
  "syslog_main n argc =
     (if argc \<noteq> 1 then Sys (Lib (Print USAGE_syslog)) (\<lambda>_. Ret EXIT_FAILURE) else
     Sys (File (Open LOG_FILE_PATH O_RDONLY 0)) (\<lambda>f. if ret f = -1 then Ret EXIT_FAILURE else
     bind (loop n (syslog_round (ret f)) ()) (\<lambda>exit_code.
     Sys (File (Close (ret f))) (\<lambda>_. Ret exit_code))))"

section \<open>Obfuscation\<close>

lemma xor_char_involution [simp]: "xor_char (xor_char c) = c"
proof -
  have "(byte_of c XOR XOR_KEY) XOR XOR_KEY = byte_of c" by (simp add: xor.assoc)
  then show ?thesis by (simp add: xor_char_def)
qed

lemma xor_log_involution [simp]: "xor_log (xor_log m) = m"
  by (simp add: xor_log_def comp_def)

lemma xor_log_append [simp]: "xor_log (a @ b) = xor_log a @ xor_log b"
  by (simp add: xor_log_def)

lemma length_xor_log [simp]: "length (xor_log m) = length m"
  by (simp add: xor_log_def)

lemma xor_log_Nil [simp]: "xor_log [] = []"
  by (simp add: xor_log_def)

lemma take_xor_log: "take n (xor_log m) = xor_log (take n m)"
  by (simp add: xor_log_def take_map)

section \<open>What is logged\<close>

text \<open>The line a message becomes; nothing is logged for an empty datagram.\<close>

definition log_line :: "buffer \<Rightarrow> buffer" where
  "log_line m = (if m = [] then [] else terminate_line m)"

lemma log_line_terminated: "log_line m \<noteq> [] \<Longrightarrow> last (log_line m) = CHR 0x0A"
  by (auto simp: log_line_def terminate_line_def)

definition log_of :: "fd \<Rightarrow> event list \<Rightarrow> buffer" where
  "log_of s t = concat (map (\<lambda>r. log_line (out r)) (received s t))"

text \<open>The log after the calls so far: all of it, or, when a write came up short, a prefix.\<close>

definition logs :: "fd \<Rightarrow> fd \<Rightarrow> event list \<Rightarrow> bool" where
  "logs s f t \<longleftrightarrow> (list_all recv_ok t \<longrightarrow> xor_log (written f t) = log_of s t)"

definition logs_prefix :: "fd \<Rightarrow> fd \<Rightarrow> event list \<Rightarrow> bool" where
  "logs_prefix s f t \<longleftrightarrow> (list_all recv_ok t \<longrightarrow> prefix (xor_log (written f t)) (log_of s t))"

lemma logs_prefixI: "logs s f t \<Longrightarrow> logs_prefix s f t"
  by (simp add: logs_def logs_prefix_def)

lemma log_of_append [simp]: "log_of s (t @ u) = log_of s t @ log_of s u"
  by (simp add: log_of_def)

lemma log_of_simps [simp]:
  "log_of s [] = []"
  "log_of s ((Signal g, r) # t) = log_of s t" "log_of s ((File c, r) # t) = log_of s t"
  "log_of s ((Proc p, r) # t) = log_of s t" "log_of s ((Lib l, r) # t) = log_of s t"
  "log_of s ((Net (Recvfrom s n), r) # t) = (if ret r = -1 then [] else log_line (out r)) @ log_of s t"
  "log_of s ((Net (Bind x y), r) # t) = log_of s t"
  by (simp_all add: log_of_def)

lemma syslogd_round_wp:
  assumes "logs (daemon_fd d) f t"
  shows "wp (syslogd_round f d u) (\<lambda>t' z. case z of
      Returned (Inl _) \<Rightarrow> logs (daemon_fd d) f t'
    | Returned (Inr c) \<Rightarrow> logs_prefix (daemon_fd d) f t' \<and> (c = EXIT_SUCCESS \<longrightarrow> logs (daemon_fd d) f t')
    | Halted h \<Rightarrow> False) t"
  using assms unfolding syslogd_round_def syslogd_receive_def daemon_wait_def Let_def
  by (intro wp_intros; simp add: logs_def logs_prefix_def recv_ok_def log_line_def take_xor_log;
      auto simp: take_is_prefix)


text \<open>The loop, then the whole service: nothing else writes to the log or receives.\<close>

lemma syslogd_loop_wp:
  assumes "logs (daemon_fd d) f t"
  shows "wp (loop n (syslogd_round f d) ()) (\<lambda>t z. logs_prefix (daemon_fd d) f t \<and>
      (\<forall>h. z = Halted h \<longrightarrow> h = Running) \<and>
      (z = Returned EXIT_SUCCESS \<or> z = Halted Running \<longrightarrow> logs (daemon_fd d) f t)) t"
  by (rule wp_loop [where I = "\<lambda>t u. logs (daemon_fd d) f t"])
    (use assms in \<open>auto simp: logs_prefixI intro!: wp_mono [OF syslogd_round_wp]
       split: outcome.splits sum.splits\<close>)

lemma quiet_init: "issues_only quiet (daemon_init d wd user)"
  unfolding daemon_init_defs daemonize_defs by (intro issues_intros; simp split: option.split)+

lemma logs_quiet: "logs s f t \<Longrightarrow> written f u = [] \<Longrightarrow> received s u = [] \<Longrightarrow> logs s f (t @ u)"
  by (simp add: logs_def log_of_def)

lemma log_of_File_tail: "log_of s (t @ [(File c, r), (File c', r'), (File c'', r'')]) = log_of s t"
  by simp

lemma syslogd_serve_wp:
  "wp (syslogd_serve n f s) (\<lambda>t z. logs_prefix s f t \<and>
     (z = Returned EXIT_SUCCESS \<or> z = Halted Running \<longrightarrow> logs s f t)) []"
proof -
  let ?d = "\<lparr>signal_mask = [], daemon_fd = s, io_signal = SIGOTHER 0\<rparr> :: daemon_t"
  let ?Q = "\<lambda>t z. logs_prefix s f t \<and> (z = Returned EXIT_SUCCESS \<or> z = Halted Running \<longrightarrow> logs s f t)"
  let ?b = "\<lambda>b. [(Net (Bind s (Sun SOCKET_PATH)), b)]"
  have start: "logs s f (?b b)" for b by (simp add: logs_def)
  have init: "wp (daemon_init ?d DAEMON_WORKING_DIRECTORY None) (\<lambda>t z. logs s f t \<and>
      (\<forall>ok d. z = Returned (ok, d) \<longrightarrow> daemon_fd d = s)) (?b b)" for b
  proof (rule wpI)
    fix t z assume ex: "execs (daemon_init ?d DAEMON_WORKING_DIRECTORY None) t z"
    from logs_quiet [OF start] quiet_execs [OF ex quiet_init] have "logs s f (?b b @ t)" by blast
    with ex show "logs s f (?b b @ t) \<and> (\<forall>ok d. z = Returned (ok, d) \<longrightarrow> daemon_fd d = s)"
      using daemon_init_fd [of ?d] by auto
  qed
  have serve: "wp (bind (daemon_init ?d DAEMON_WORKING_DIRECTORY None) (\<lambda>(ok, d).
      if \<not> ok then Ret EXIT_FAILURE else loop n (syslogd_round f d) ())) ?Q (?b b)" for b
    by (rule wp_bindI [OF init])
      (auto simp: logs_prefixI intro!: wp_mono [OF syslogd_loop_wp])
  have "wp (if ret b = -1 then Ret EXIT_FAILURE else
      bind (daemon_init ?d DAEMON_WORKING_DIRECTORY None) (\<lambda>(ok, d).
      if \<not> ok then Ret EXIT_FAILURE else loop n (syslogd_round f d) ())) ?Q (?b b)" for b
    using serve start by (auto simp: logs_prefixI)
  then show ?thesis
    unfolding syslogd_serve_def
    by (intro wp_SysI, unfold append_Nil, rule wp_bindI)
      (auto simp: logs_def logs_prefix_def)
qed


section \<open>The service\<close>

interpretation syslogd_service: daemon_service "syslogd_round log_file daemon_data" EXIT_SUCCESS
  for log_file daemon_data
proof
  show "\<exists>e u. t = e # u \<and> waits (fst e) \<and> (\<forall>e' \<in> set u. \<not> waits (fst e'))"
    if "execs (syslogd_round log_file daemon_data s) t z" for s t z
    using that unfolding syslogd_round_def
  proof (rule daemon_wait_round)
    show "never_waits (case x of (ok, g) \<Rightarrow> if \<not> ok then Ret (Inr EXIT_FAILURE)
       else if SIGTERM = g then Ret (Inr EXIT_SUCCESS) else syslogd_receive log_file daemon_data)" for x
      unfolding syslogd_receive_def by (intro issues_intros) simp_all
  qed
  show "u = [] \<and> z = Returned (Inr EXIT_SUCCESS)"
    if "execs (syslogd_round log_file daemon_data s) (e # u) z" "terminated e" for s e u z
    using that unfolding syslogd_round_def by (rule daemon_wait_stops) simp
qed

text \<open>After \<^verbatim>\<open>SIGTERM\<close> nothing is logged any more, and nothing that was received is missing.\<close>

lemma syslogd_stops:
  assumes "execs (loop n (syslogd_round f d) ()) t z" and "e \<in> set t" and "terminated e" and "list_all recv_ok t"
  shows "z = Returned EXIT_SUCCESS \<and> (\<exists>u. t = u @ [e] \<and> xor_log (written f u) = log_of (daemon_fd d) u)"
proof -
  from quitsD [OF execs_wp [OF assms(1) syslogd_service.service_quits] assms(2,3)] obtain u where
    u: "t = u @ [e]" and z: "z = Returned EXIT_SUCCESS" by auto
  have "logs (daemon_fd d) f []" by (simp add: logs_def)
  from execs_wp [OF assms(1) syslogd_loop_wp [OF this]] z assms(4)
  have "xor_log (written f t) = log_of (daemon_fd d) t" by (simp add: logs_def)
  moreover have "quiet (fst e)" using assms(3)
    by (cases "fst e") (auto simp: terminated_def waits_def)
  then have "written f [e] = [] \<and> log_of (daemon_fd d) [e] = []"
    using quiet_trace [of "[e]"] by (simp add: log_of_def)
  ultimately show ?thesis using u z by auto
qed

section \<open>What is printed\<close>

text \<open>
  While reading a log with contents \<open>F\<close>: what was printed and what is left to be read make up
  the contents.
\<close>

definition printing :: "fd \<Rightarrow> buffer \<Rightarrow> event list \<Rightarrow> bool" where
  "printing f F t \<longleftrightarrow> (\<forall>R. unread f F t = Some R \<longrightarrow> xor_log F = written STDOUT_FILENO t @ xor_log R)"

definition chunks_left :: "fd \<Rightarrow> buffer \<Rightarrow> event list \<Rightarrow> nat" where
  "chunks_left f F t = (case unread f F t of None \<Rightarrow> 0
     | Some R \<Rightarrow> length R div CHUNK_LENGTH + (if R = [] then 0 else 1))"

lemma CHUNK_LENGTH_pos: "0 < CHUNK_LENGTH"
  by (simp add: CHUNK_LENGTH_def)

lemma chunks_decrease:
  assumes "R \<noteq> []"
  shows "(length R - CHUNK_LENGTH) div CHUNK_LENGTH + (if length R \<le> CHUNK_LENGTH then 0 else 1) <
    Suc (length R div CHUNK_LENGTH)"
  using CHUNK_LENGTH_pos by (auto simp: not_le le_div_geq)

definition printed :: "fd \<Rightarrow> buffer \<Rightarrow> event list \<Rightarrow> bool" where
  "printed f F t \<longleftrightarrow> (unread f F t \<noteq> None \<longrightarrow> written STDOUT_FILENO t = xor_log F)"

abbreviation (input) copied :: "fd \<Rightarrow> reply \<Rightarrow> reply \<Rightarrow> event list" where
  "copied f r w \<equiv> [(File (Read f CHUNK_LENGTH), r),
     (File (Write STDOUT_FILENO (xor_log (take (nat (ret w)) (out r))) (nat (ret w))), w)]"

lemma copied_chunk:
  assumes "printing f F t" and "ret r \<noteq> 0" "ret r \<noteq> -1" "ret r = ret w"
    and "unread f F (t @ copied f r w) = Some R'"
  shows "\<exists>R. unread f F t = Some R \<and> R \<noteq> [] \<and> R' = drop CHUNK_LENGTH R \<and>
    xor_log F = written STDOUT_FILENO (t @ copied f r w) @ xor_log R'"
proof -
  from assms(5,3) obtain R where R: "unread f F t = Some R"
    and r: "ret r = int (length (out r))" "out r = take CHUNK_LENGTH R" "R' = drop CHUNK_LENGTH R"
    by (auto split: bind_splits if_splits)
  have "xor_log R = xor_log (out r) @ xor_log R'"
    unfolding r(2,3) by (simp flip: xor_log_append)
  moreover have "written STDOUT_FILENO (t @ copied f r w) = written STDOUT_FILENO t @ xor_log (out r)"
    using assms(3,4) r(1) by (simp add: take_xor_log)
  moreover have "R \<noteq> []" using r(1,2) assms(2) by auto
  ultimately show ?thesis using assms(1) R r(3) by (auto simp: printing_def)
qed

lemma chunks_drop:
  "R \<noteq> [] \<Longrightarrow> unread f F t = Some R \<Longrightarrow> unread f F t' = Some (drop CHUNK_LENGTH R) \<Longrightarrow>
    chunks_left f F t' < chunks_left f F t"
  using chunks_decrease [of R] by (simp add: chunks_left_def)

lemma syslog_round_wp:
  assumes "printing f F t"
  shows "wp (syslog_round f u) (\<lambda>t' z. case z of
      Returned (Inl _) \<Rightarrow> printing f F t' \<and>
        (unread f F t' \<noteq> None \<longrightarrow> unread f F t \<noteq> None \<and> chunks_left f F t' < chunks_left f F t)
    | Returned (Inr c) \<Rightarrow> c = EXIT_SUCCESS \<longrightarrow> printed f F t'
    | Halted h \<Rightarrow> False) t"
proof -
  have at_end: "printed f F (t @ [(File (Read f CHUNK_LENGTH), r)])" if "ret r = 0" for r
    using assms that CHUNK_LENGTH_pos by (auto simp: printing_def printed_def split: bind_splits if_splits)
  have more: "printing f F (t @ copied f r w) \<and> (unread f F (t @ copied f r w) \<noteq> None \<longrightarrow>
      unread f F t \<noteq> None \<and> chunks_left f F (t @ copied f r w) < chunks_left f F t)"
    if "ret r \<noteq> 0" "ret r \<noteq> -1" "ret r = ret w" for r w
  proof (cases "unread f F (t @ copied f r w)")
    case None
    then show ?thesis unfolding printing_def by simp
  next
    case (Some R')
    from copied_chunk [OF assms that Some] obtain R where
      R: "unread f F t = Some R" "R \<noteq> []" "R' = drop CHUNK_LENGTH R"
      "xor_log F = written STDOUT_FILENO (t @ copied f r w) @ xor_log R'" by blast
    from chunks_drop [OF R(2,1) Some [unfolded R(3)]] R Some show ?thesis
      unfolding printing_def by simp
  qed
  show ?thesis
    unfolding syslog_round_def
    by (intro wp_intros) (use at_end more in \<open>simp_all del: unread_append unread_Cons written_append\<close>)
qed


lemma syslog_loop_wp:
  assumes "printing f F t" and "unread f F t \<noteq> None \<Longrightarrow> chunks_left f F t < n"
  shows "wp (loop n (syslog_round f) ()) (\<lambda>t z. (z = Returned EXIT_SUCCESS \<longrightarrow> printed f F t) \<and>
      (unread f F t \<noteq> None \<longrightarrow> z \<noteq> Halted Running)) t"
  by (rule wp_loop_measure [where I = "\<lambda>t u. printing f F t" and C = "\<lambda>t. unread f F t \<noteq> None"
        and m = "\<lambda>t u. chunks_left f F t"])
    (use assms in \<open>auto intro!: wp_mono [OF syslog_round_wp] split: outcome.splits sum.splits\<close>)

lemma syslog_main_wp:
  assumes "length F div CHUNK_LENGTH + 1 < n"
  shows "wp (syslog_main n 1) (\<lambda>t z. \<forall>f. fst (hd t) = File (Open LOG_FILE_PATH O_RDONLY 0) \<and> f = ret (snd (hd t)) \<longrightarrow>
      (z = Returned EXIT_SUCCESS \<longrightarrow> printed f F t) \<and> (unread f F t \<noteq> None \<longrightarrow> z \<noteq> Halted Running)) []"
proof -
  let ?o = "\<lambda>r. [(File (Open LOG_FILE_PATH O_RDONLY 0), r)]"
  have "printing f F (?o r)" for f r by (simp add: printing_def)
  moreover have "chunks_left f F (?o r) < n" for f r using assms by (simp add: chunks_left_def)
  ultimately have l: "wp (bind (loop n (syslog_round (ret r)) ()) (\<lambda>c. Sys (File (Close (ret r))) (\<lambda>_. Ret c)))
     (\<lambda>t z. (z = Returned EXIT_SUCCESS \<longrightarrow> printed (ret r) F t) \<and>
        (unread (ret r) F t \<noteq> None \<longrightarrow> z \<noteq> Halted Running)) (?o r)" for r
    by (intro wp_bindI [OF syslog_loop_wp]) (auto simp: printed_def split: bind_splits)
  have "wp (bind (loop n (syslog_round (ret r)) ()) (\<lambda>c. Sys (File (Close (ret r))) (\<lambda>_. Ret c)))
     (\<lambda>t z. \<forall>f. fst (hd t) = File (Open LOG_FILE_PATH O_RDONLY 0) \<and> f = ret (snd (hd t)) \<longrightarrow>
      (z = Returned EXIT_SUCCESS \<longrightarrow> printed f F t) \<and> (unread f F t \<noteq> None \<longrightarrow> z \<noteq> Halted Running)) (?o r)" for r
    using l [of r] unfolding wp_iff by simp
  then show ?thesis unfolding syslog_main_def by simp
qed

section \<open>Properties\<close>

text \<open>
  C25: what the log daemon has written, taken out of its obfuscation, is always a beginning of
  the received messages in order, each ended by a line break, and all of them while it runs and
  after it was told to terminate.
\<close>

theorem syslogd_writes_log:
  assumes "execs (syslogd_serve n f s) t z" and "list_all recv_ok t"
  shows "prefix (xor_log (written f t)) (log_of s t) \<and>
    (z = Returned EXIT_SUCCESS \<or> z = Halted Running \<longrightarrow> xor_log (written f t) = log_of s t)"
  using execs_wp [OF assms(1) syslogd_serve_wp] assms(2) by (simp add: logs_def logs_prefix_def)

text \<open>
  C26: reading a log of L bytes ends: L div 2048 + 2 rounds are enough, and when it reports
  success it has printed exactly the contents without the obfuscation.
\<close>

theorem syslog_prints_log:
  assumes "execs (syslog_main n 1) ((File (Open LOG_FILE_PATH O_RDONLY 0), r) # t) z"
    and "unread (ret r) F t \<noteq> None" and "length F div CHUNK_LENGTH + 1 < n"
  shows "z \<noteq> Halted Running \<and> (z = Returned EXIT_SUCCESS \<longrightarrow> written STDOUT_FILENO t = xor_log F)"
  using execs_wp [OF assms(1) syslog_main_wp [OF assms(3)]] assms(2) by (auto simp: printed_def)

text \<open>
  C27: printing the log a terminated daemon has written shows exactly the messages it received,
  in order, each ended by a line break.
\<close>

theorem log_round_trip:
  assumes "execs (syslogd_serve n f s) t (Returned EXIT_SUCCESS)" and "list_all recv_ok t"
    and "execs (syslog_main n' 1) ((File (Open LOG_FILE_PATH O_RDONLY 0), r) # t') (Returned EXIT_SUCCESS)"
    and "unread (ret r) (written f t) t' \<noteq> None" and "length (written f t) div CHUNK_LENGTH + 1 < n'"
  shows "written STDOUT_FILENO t' = concat (map (\<lambda>r. log_line (out r)) (received s t))"
proof -
  have "printed (ret r) (written f t) ((File (Open LOG_FILE_PATH O_RDONLY 0), r) # t')"
    using execs_wp [OF assms(3) syslog_main_wp [OF assms(5)]] by simp
  moreover have "logs s f t"
    using execs_wp [OF assms(1) syslogd_serve_wp] by simp
  ultimately show ?thesis using assms(2,4) by (simp add: printed_def logs_def log_of_def)
qed

section \<open>Witnesses\<close>

text \<open>Two messages, the second with its line break, then \<^verbatim>\<open>SIGTERM\<close>; the log is printed after that.\<close>

definition serve_replies :: "reply list" where
  "serve_replies = [returns 0, returns 2] @ detached @ pipes_replaced @ replicate 10 (returns 0) @
     [signalled SIGRTMIN, delivers ''ab'', returns 3, signalled SIGRTMIN, delivers [CHR ''c'', CHR 0x0A],
      returns 2, signalled SIGTERM, returns 0, returns 0, returns 0]"

definition served :: "event list" where
  "served = fst (run (syslogd_serve 3 9 5) serve_replies)"

lemma served_execs: "execs (syslogd_serve 3 9 5) served (Returned EXIT_SUCCESS)"
  unfolding served_def by (rule run_trace) (code_simp, simp)

lemma served_ok: "list_all recv_ok served"
  by code_simp

lemma served_lines: "log_of 5 served = [CHR ''a'', CHR ''b'', CHR 0x0A, CHR ''c'', CHR 0x0A]"
  by code_simp

lemma served_written: "length (written 9 served) = 5"
  by code_simp

definition print_replies :: "reply list" where
  "print_replies = [returns 4, delivers (written 9 served), returns 5, delivers [], returns 0]"

definition printed_example :: "event list" where
  "printed_example = fst (run (syslog_main 3 1) print_replies)"

lemma printed_open:
  "printed_example = (File (Open LOG_FILE_PATH O_RDONLY 0), returns 4) # tl printed_example"
  by (simp add: printed_example_def print_replies_def syslog_main_def split: prod.split)

lemma printed_execs: "execs (syslog_main 3 1)
    ((File (Open LOG_FILE_PATH O_RDONLY 0), returns 4) # tl printed_example) (Returned EXIT_SUCCESS)"
  unfolding printed_open [symmetric] unfolding printed_example_def
  by (rule run_trace) (code_simp, simp)

lemma printed_unread: "unread (ret (returns 4)) (written 9 served) (tl printed_example) \<noteq> None"
  by code_simp

lemma served_chunks: "length (written 9 served) div CHUNK_LENGTH + 1 < 3"
  by (simp add: served_written CHUNK_LENGTH_def MAX_MESSAGE_LENGTH_def MAX_LENGTH_def)

theorem syslogd_writes_log_witness:
  "xor_log (written 9 served) = [CHR ''a'', CHR ''b'', CHR 0x0A, CHR ''c'', CHR 0x0A]"
  using syslogd_writes_log [OF served_execs served_ok] by (simp add: served_lines)

theorem syslog_prints_log_witness:
  "written STDOUT_FILENO (tl printed_example) = xor_log (written 9 served)"
  using syslog_prints_log [OF printed_execs printed_unread served_chunks] by simp

theorem log_round_trip_witness:
  "written STDOUT_FILENO (tl printed_example) = [CHR ''a'', CHR ''b'', CHR 0x0A, CHR ''c'', CHR 0x0A]"
  using log_round_trip [OF served_execs served_ok printed_execs
      printed_unread served_chunks] served_lines unfolding log_of_def by simp

end
