(* ===== verification/Klogd.thy ===== *)
theory Klogd
  imports Daemon Monitor
begin

text \<open>
  \<^verbatim>\<open>klogd.c\<close>: kernel messages are read one by one, stripped of their priority and passed on to
  the system log. The variable \<^verbatim>\<open>offset\<close> keeps its value from one message to the next and is the
  state of the loop.
\<close>

section \<open>The program\<close>

definition KLOGD_MESSAGE_LENGTH :: nat where "KLOGD_MESSAGE_LENGTH = MAX_LENGTH"
definition USAGE_klogd :: string where "USAGE_klogd = ''Usage: klogd'' @ [CHR 0x0A, NUL]"

text \<open>\<^verbatim>\<open>char\<close> is signed: \<^verbatim>\<open>message[1] - '0'\<close>.\<close>

definition klog_priority :: "char \<Rightarrow> int" where
  "klog_priority c = sint (byte_of c) - 48"

definition klog_parse :: "nat \<Rightarrow> buffer \<Rightarrow> int \<times> nat" where
  "klog_parse offset message =
     (if length message \<le> 3 then (LOG_INFO, 0)
      else if message ! 0 = CHR ''<'' \<and> message ! 2 = CHR ''>'' then (klog_priority (message ! 1), 3)
      else (LOG_INFO, offset))"

text \<open>
  \<^verbatim>\<open>message[size] = '\0'\<close> is a write behind the buffer unless the size is at most
  \<open>KLOGD_MESSAGE_LENGTH\<close>.
\<close>

definition klogd_round :: "nat \<Rightarrow> (nat + unit) prog" where
  "klogd_round offset =
     Sys (Kern (Klogctl 2 (1 + KLOGD_MESSAGE_LENGTH))) (\<lambda>r.
       if ret r = -1 then Ret (Inr ())
       else if ret r = 0 then Ret (Inl offset)
       else if ret r < 0 \<or> int KLOGD_MESSAGE_LENGTH < ret r then Halt Undefined
       else
         (let message = take (nat (ret r)) (out r); (priority, offset) = klog_parse offset message in
          Sys (Lib (Syslog priority (cstr_of (drop offset message)))) (\<lambda>_. Ret (Inl offset))))"

definition klogd_main :: "nat \<Rightarrow> int \<Rightarrow> int prog" where
  "klogd_main n argc =
     (if argc \<noteq> 1 then Sys (Lib (Print USAGE_klogd)) (\<lambda>_. Ret EXIT_FAILURE) else
     Sys (Kern (Klogctl 1 0)) (\<lambda>r. if ret r = -1 then Ret EXIT_FAILURE else
     Sys (Kern (Klogctl 6 0)) (\<lambda>r. if ret r = -1 then Ret EXIT_FAILURE else
     Sys (Lib (Openlog ''kernel'')) (\<lambda>_.
     bind (daemon_daemonize DAEMON_WORKING_DIRECTORY None) (\<lambda>ok.
     bind (if \<not> ok then Ret () else loop n klogd_round 0) (\<lambda>_.
     Sys (Lib Closelog) (\<lambda>_.
     Sys (Kern (Klogctl 7 0)) (\<lambda>_.
     Sys (Kern (Klogctl 0 0)) (\<lambda>_. Ret EXIT_FAILURE)))))))))"

section \<open>What passes through\<close>

definition klog_read :: "event list \<Rightarrow> buffer list" where
  "klog_read t = concat (map (\<lambda>e. case e of
     (Kern (Klogctl c n), r) \<Rightarrow> if c = 2 \<and> 0 < ret r then [out r] else [] | _ \<Rightarrow> []) t)"

definition logged :: "event list \<Rightarrow> (int \<times> string) list" where
  "logged t = concat (map (\<lambda>e. case e of (Lib (Syslog p m), r) \<Rightarrow> [(p, m)] | _ \<Rightarrow> []) t)"

lemma pass_append [simp]:
  "klog_read (t @ u) = klog_read t @ klog_read u" "logged (t @ u) = logged t @ logged u"
  by (simp_all add: klog_read_def logged_def)

lemma pass_Nil [simp]: "klog_read [] = []" "logged [] = []"
  by (simp_all add: klog_read_def logged_def)

lemma pass_Cons [simp]:
  "klog_read ((Lib l, r) # t) = klog_read t" "klog_read ((File f, r) # t) = klog_read t"
  "klog_read ((Proc p, r) # t) = klog_read t"
  "klog_read ((Kern (Klogctl c n), r) # t) = (if c = 2 \<and> 0 < ret r then [out r] else []) @ klog_read t"
  "logged ((Kern k, r) # t) = logged t" "logged ((File f, r) # t) = logged t"
  "logged ((Proc p, r) # t) = logged t"
  "logged ((Lib (Syslog q m), r) # t) = (q, m) # logged t"
  "logged ((Lib (Openlog m), r) # t) = logged t" "logged ((Lib Closelog, r) # t) = logged t"
  "logged ((Lib (Print m), r) # t) = logged t"
  by (simp_all add: klog_read_def logged_def)

text \<open>The records the kernel hands out: a priority in angle brackets, then a text.\<close>

definition klog_record :: "buffer \<Rightarrow> bool" where
  "klog_record m \<longleftrightarrow> 3 < length m \<and> m ! 0 = CHR ''<'' \<and> m ! 2 = CHR ''>''"

text \<open>\<^verbatim>\<open>klogctl(2, ...)\<close> fails with -1 or returns how many bytes it stored.\<close>

definition klog_ok :: "event \<Rightarrow> bool" where
  "klog_ok e = (case e of
     (Kern (Klogctl c n), r) \<Rightarrow> c = 2 \<longrightarrow> ret r = -1 \<or> ret r = int (length (out r)) \<and> length (out r) < n
   | _ \<Rightarrow> True)"

definition forwards :: "event list \<Rightarrow> bool" where
  "forwards t \<longleftrightarrow> (list_all klog_record (klog_read t) \<longrightarrow>
     logged t = map (\<lambda>m. (klog_priority (m ! 1), cstr_of (drop 3 m))) (klog_read t))"

definition klogd_done :: "event list \<Rightarrow> 'a outcome \<Rightarrow> bool" where
  "klogd_done t z \<longleftrightarrow> (list_all klog_ok t \<longrightarrow> forwards t \<and> z \<noteq> Halted Undefined)"

lemma klog_parse_record: "klog_record m \<Longrightarrow> klog_parse k m = (klog_priority (m ! 1), 3)"
  by (simp add: klog_parse_def klog_record_def)

lemma klog_ok_simps [simp]:
  "klog_ok (Lib l, r)" "klog_ok (File f, r)" "klog_ok (Proc p, r)"
  "klog_ok (Kern (Klogctl c n), r) \<longleftrightarrow>
     (c = 2 \<longrightarrow> ret r = -1 \<or> ret r = int (length (out r)) \<and> length (out r) < n)"
  by (simp_all add: klog_ok_def)

lemma klogd_round_wp:
  assumes "list_all klog_ok t \<longrightarrow> forwards t"
  shows "wp (klogd_round k) (\<lambda>t z. klogd_done t z) t"
  using assms unfolding klogd_round_def Let_def
  by (intro wp_intros) (auto simp: klogd_done_def forwards_def klog_parse_record)

lemma klogd_loop_wp:
  assumes "list_all klog_ok t \<longrightarrow> forwards t"
  shows "wp (loop n klogd_round k) klogd_done t"
  by (rule wp_loop [where I = "\<lambda>t k. list_all klog_ok t \<longrightarrow> forwards t"])
    (use assms in \<open>auto intro!: wp_mono [OF klogd_round_wp] simp: klogd_done_def
      split: outcome.splits sum.splits\<close>)


text \<open>What comes before the loop neither reads nor logs.\<close>

definition silent :: "syscall \<Rightarrow> bool" where
  "silent c \<longleftrightarrow> (case c of File f \<Rightarrow> True | Proc p \<Rightarrow> True | _ \<Rightarrow> False)"

lemma silent_simps [simp]: "silent (File f)" "silent (Proc p)"
  by (simp_all add: silent_def)

lemma silent_trace:
  "list_all (\<lambda>e. silent (fst e)) t \<Longrightarrow> klog_read t = [] \<and> logged t = [] \<and> list_all klog_ok t"
proof (induction t)
  case (Cons e t)
  obtain c r where "e = (c, r)" by (cases e)
  with Cons show ?case by (cases c) (auto simp: silent_def)
qed simp

lemma silent_daemonize: "issues_only silent (daemon_daemonize wd None)"
  unfolding daemonize_defs by (intro issues_intros; simp)+

lemma klogd_start_wp:
  assumes "forwards t"
  shows "wp (daemon_daemonize wd None) (\<lambda>t z. forwards t \<and> z \<noteq> Halted Undefined) t"
proof (rule wpI)
  fix u z assume ex: "execs (daemon_daemonize wd None) u z"
  then have "list_all (\<lambda>e. silent (fst e)) u"
    using issues_onlyD [OF ex silent_daemonize] by (simp add: list_all_iff)
  from silent_trace [OF this] have "forwards (t @ u)" using assms by (simp add: forwards_def)
  moreover have "wp (daemon_daemonize wd None) (\<lambda>t z. z \<noteq> Halted Undefined) []"
    unfolding daemonize_defs by (intro wp_intros; simp)
  from execs_wp [OF ex this] have "z \<noteq> Halted Undefined" .
  ultimately show "forwards (t @ u) \<and> z \<noteq> Halted Undefined" ..
qed

lemma klogd_main_wp: "wp (klogd_main n argc) klogd_done []"
proof -
  let ?tail = "\<lambda>_ :: unit. Sys (Lib Closelog) (\<lambda>_. Sys (Kern (Klogctl 7 0)) (\<lambda>_.
     Sys (Kern (Klogctl 0 0)) (\<lambda>_. Ret EXIT_FAILURE)))"
  have tail: "wp (?tail x) klogd_done t" if "klogd_done t (Returned ())" for x t
    using that by (simp add: klogd_done_def forwards_def)
  have serve: "wp (bind (if \<not> ok then Ret () else loop n klogd_round 0) ?tail) klogd_done t"
    if "forwards t" for ok t
  proof (rule wp_bindI [where R = klogd_done])
    show "wp (if \<not> ok then Ret () else loop n klogd_round 0) klogd_done t"
      using that klogd_loop_wp by (simp add: klogd_done_def)
  qed (use tail in \<open>auto simp: klogd_done_def\<close>)
  have "wp (bind (daemon_daemonize DAEMON_WORKING_DIRECTORY None)
      (\<lambda>ok. bind (if \<not> ok then Ret () else loop n klogd_round 0) ?tail)) klogd_done t"
    if "klog_read t = [] \<and> logged t = []" for t
    by (rule wp_bindI [OF klogd_start_wp]) (use that serve in \<open>auto simp: klogd_done_def forwards_def\<close>)
  then show ?thesis
    unfolding klogd_main_def
    by (intro wp_ifI wp_SysI wp_RetI) (simp_all add: forwards_def klogd_done_def)
qed

section \<open>The byte behind the buffer\<close>

text \<open>\<^verbatim>\<open>klogctl(2, ...)\<close> fails with -1 or stores at most as many bytes as it is given room for.\<close>

definition klog_bounded :: "event \<Rightarrow> bool" where
  "klog_bounded e \<longleftrightarrow> (case e of
     (Kern (Klogctl c n), r) \<Rightarrow> c = 2 \<longrightarrow> -1 \<le> ret r \<and> ret r \<le> int n | _ \<Rightarrow> True)"

text \<open>A read that uses all the room it was given.\<close>

definition klog_full :: "event \<Rightarrow> bool" where
  "klog_full e \<longleftrightarrow> (case e of (Kern (Klogctl c n), r) \<Rightarrow> c = 2 \<and> ret r = int n | _ \<Rightarrow> False)"

lemma klog_room_simps [simp]:
  "klog_bounded (Lib l, r)" "\<not> klog_full (Lib l, r)"
  "klog_bounded (Kern (Klogctl c n), r) \<longleftrightarrow> (c = 2 \<longrightarrow> -1 \<le> ret r \<and> ret r \<le> int n)"
  "klog_full (Kern (Klogctl c n), r) \<longleftrightarrow> c = 2 \<and> ret r = int n"
  by (simp_all add: klog_bounded_def klog_full_def)

lemma klog_full_iff: "klog_full e \<longleftrightarrow> (\<exists>k r. e = (Kern (Klogctl 2 k), r) \<and> ret r = int k)"
proof (cases e)
  case (Pair c r)
  then show ?thesis
    by (cases c) (auto simp: klog_full_def split: system_call.split)
qed

definition overflows :: "event list \<Rightarrow> 'a outcome \<Rightarrow> bool" where
  "overflows t z \<longleftrightarrow> (list_all klog_bounded t \<longrightarrow> (z = Halted Undefined \<longleftrightarrow> list_ex klog_full t))"

lemma overflows_silent:
  assumes "execs p u z" and "issues_only silent p"
  shows "\<not> list_ex klog_full u"
  using issues_onlyD [OF assms] by (fastforce simp: list_ex_iff klog_full_iff silent_def)

lemma klogd_loop_overflows:
  assumes "\<not> list_ex klog_full t"
  shows "wp (loop n klogd_round k) overflows t"
proof (rule wp_loop [where I = "\<lambda>t k. list_all klog_bounded t \<longrightarrow> \<not> list_ex klog_full t"])
  show "wp (klogd_round k) (\<lambda>t' z. case z of
      Returned (Inl k') \<Rightarrow> list_all klog_bounded t' \<longrightarrow> \<not> list_ex klog_full t'
    | Returned (Inr a) \<Rightarrow> overflows t' (Returned a) | Halted h \<Rightarrow> overflows t' (Halted h)) t"
    if "list_all klog_bounded t \<longrightarrow> \<not> list_ex klog_full t" for t k
    using that unfolding klogd_round_def Let_def
    by (intro wp_intros) (auto simp: overflows_def KLOGD_MESSAGE_LENGTH_def MAX_LENGTH_def)
qed (use assms in \<open>auto simp: overflows_def\<close>)

lemma klogd_main_overflows: "wp (klogd_main n argc) overflows []"
proof -
  let ?tail = "\<lambda>_ :: unit. Sys (Lib Closelog) (\<lambda>_. Sys (Kern (Klogctl 7 0)) (\<lambda>_.
     Sys (Kern (Klogctl 0 0)) (\<lambda>_. Ret EXIT_FAILURE)))"
  have serve: "wp (bind (if \<not> ok then Ret () else loop n klogd_round 0) ?tail) overflows t"
    if "\<not> list_ex klog_full t" for ok t
  proof (rule wp_bindI [where R = overflows])
    show "wp (if \<not> ok then Ret () else loop n klogd_round 0) overflows t"
      using that klogd_loop_overflows by (simp add: overflows_def)
  qed (auto simp: overflows_def)
  have start: "wp (daemon_daemonize wd None) (\<lambda>t z. \<not> list_ex klog_full t \<and> z \<noteq> Halted Undefined) t"
    if "\<not> list_ex klog_full t" for wd t
  proof (rule wpI)
    fix u z assume ex: "execs (daemon_daemonize wd None) u z"
    have "wp (daemon_daemonize wd None) (\<lambda>t z. z \<noteq> Halted Undefined) []"
      unfolding daemonize_defs by (intro wp_intros; simp)
    from execs_wp [OF ex this] overflows_silent [OF ex silent_daemonize] that
    show "\<not> list_ex klog_full (t @ u) \<and> z \<noteq> Halted Undefined" by simp
  qed
  have "wp (bind (daemon_daemonize DAEMON_WORKING_DIRECTORY None)
      (\<lambda>ok. bind (if \<not> ok then Ret () else loop n klogd_round 0) ?tail)) overflows t"
    if "\<not> list_ex klog_full t" for t
    by (rule wp_bindI [OF start [OF that]]) (use serve in \<open>auto simp: overflows_def\<close>)
  then show ?thesis
    unfolding klogd_main_def by (intro wp_ifI wp_SysI wp_RetI) (simp_all add: overflows_def)
qed

section \<open>Properties\<close>

text \<open>
  C28: as long as no read fills the whole buffer, kernel records of the form <digit>text are
  passed on one for one, in order, with the digit as the priority and without their prefix, and
  nothing is written outside the buffer.
\<close>

theorem klogd_forwards:
  assumes "execs (klogd_main n argc) t z" and "list_all klog_ok t" and "list_all klog_record (klog_read t)"
  shows "logged t = map (\<lambda>m. (klog_priority (m ! 1), cstr_of (drop 3 m))) (klog_read t) \<and>
    z \<noteq> Halted Undefined"
  using execs_wp [OF assms(1) klogd_main_wp] assms(2,3) by (simp add: klogd_done_def forwards_def)

text \<open>
  After any record, a longer message without a priority loses its first three characters: the
  offset of the record is still in use.
\<close>

lemma klogd_stale_offset:
  assumes "3 < length m" and "length m \<le> KLOGD_MESSAGE_LENGTH" and "m ! 0 \<noteq> CHR ''<''"
    and "execs (klogd_round 3) ((Kern (Klogctl 2 (1 + KLOGD_MESSAGE_LENGTH)), delivers m) # t) z"
  shows "logged t = [(LOG_INFO, cstr_of (drop 3 m))] \<and> z = Returned (Inl 3)"
proof -
  have "\<not> length m \<le> 3" "m \<noteq> []" using assms(1) by auto
  with assms show ?thesis by (auto simp: klogd_round_def execs_Sys klog_parse_def)
qed

text \<open>
  C29: when klogctl stores at most as many bytes as it was given room for, the daemon writes
  behind its message buffer exactly when a read uses all of that room.
\<close>

theorem klogd_overflow:
  assumes "execs (klogd_main n argc) t z" and "list_all klog_bounded t"
  shows "z = Halted Undefined \<longleftrightarrow> (\<exists>k r. (Kern (Klogctl 2 k), r) \<in> set t \<and> ret r = int k)"
proof -
  have "list_ex klog_full t \<longleftrightarrow> (\<exists>k r. (Kern (Klogctl 2 k), r) \<in> set t \<and> ret r = int k)"
    unfolding list_ex_iff klog_full_iff by blast
  with execs_wp [OF assms(1) klogd_main_overflows] assms(2) show ?thesis by (simp add: overflows_def)
qed

section \<open>Witnesses\<close>

definition klogd_replies :: "reply list" where
  "klogd_replies = [returns 0, returns 0, returns 0] @ detached @ pipes_replaced @
     [delivers ''<4>usb'', returns 0, fails EINVAL, returns 0, returns 0, returns 0]"

theorem klogd_forwards_witness:
  "logged (fst (run (klogd_main 2 1) klogd_replies)) = [(4, ''usb'')]"
proof -
  let ?t = "fst (run (klogd_main 2 1) klogd_replies)"
  have "snd (run (klogd_main 2 1) klogd_replies) = Returned EXIT_FAILURE" by code_simp
  then have ex: "execs (klogd_main 2 1) ?t (Returned EXIT_FAILURE)" by (rule run_trace) simp
  have ok: "list_all klog_ok ?t" by code_simp
  have rec: "list_all klog_record (klog_read ?t)" by code_simp
  have "map (\<lambda>m. (klog_priority (m ! 1), cstr_of (drop 3 m))) (klog_read ?t) = [(4, ''usb'')]" by code_simp
  with klogd_forwards [OF ex ok rec] show ?thesis by simp
qed

definition full_replies :: "reply list" where
  "full_replies = [returns 0, returns 0, returns 0] @ detached @ pipes_replaced @ [returns 2048]"

theorem klogd_overflow_witness:
  "\<exists>k r. (Kern (Klogctl 2 k), r) \<in> set (fst (run (klogd_main 1 1) full_replies)) \<and> ret r = int k"
proof -
  have halts: "snd (run (klogd_main 1 1) full_replies) = Halted Undefined" by code_simp
  then have ex: "execs (klogd_main 1 1) (fst (run (klogd_main 1 1) full_replies)) (Halted Undefined)"
    by (rule run_trace) simp
  have "list_all klog_bounded (fst (run (klogd_main 1 1) full_replies))" by code_simp
  from klogd_overflow [OF ex this] show ?thesis by simp
qed

end
