(* ===== verification/Devd.thy ===== *)
theory Devd
  imports Find Daemon Monitor
begin

text \<open>
  \<^verbatim>\<open>devd.c\<close>: the daemon that has a kernel module loaded for every device, those that exist when it
  starts and those the kernel announces. An announcement is a sequence of fields, each ended by
  a null byte; the parser walks over them with the arithmetic of the source, and a reference
  parser says what it finds.
\<close>

section \<open>Constants\<close>

definition MAX_MESSAGE_SIZE :: nat where "MAX_MESSAGE_SIZE = 1 + MAX_LENGTH"
definition USAGE_devd :: string where "USAGE_devd = ''Usage: devd'' @ [CHR 0x0A, NUL]"

abbreviation (input) NETLINK_KOBJECT_UEVENT :: int where "NETLINK_KOBJECT_UEVENT \<equiv> 15"

section \<open>Devices that exist\<close>

text \<open>The child of \<^verbatim>\<open>daemon_fork\<close>; it never comes back to its caller.\<close>

definition run_modprobe :: "string \<Rightarrow> 'a prog" where
  "run_modprobe name = exec_or ''modprobe'' [''modprobe'', name] (Halt (Exited EXIT_FAILURE))"

definition existing_alias :: "fd \<Rightarrow> nat \<Rightarrow> bool prog" where
  "existing_alias f size0 =
     Sys (File (Read f size0)) (\<lambda>r.
       if 0 \<ge> ret r then Ret False else
       (let text = cstr_of (take (nat (ret r) - 1) (out r)) in
        bind daemon_fork (\<lambda>pid.
          if pid = 0 then run_modprobe text
          else if pid = -1 then Ret False
          else Ret True)))"

definition handle_existing_device :: "string \<Rightarrow> unit \<Rightarrow> (bool \<times> unit) prog" where
  "handle_existing_device path unused =
     Sys (File (Stat path)) (\<lambda>st. if ret st = -1 then Ret (False, unused) else
     Sys (Lib (Malloc (st_size st))) (\<lambda>m. if ret m = 0 then Ret (False, unused) else
     Sys (File (Open path O_RDONLY 0)) (\<lambda>f.
       if ret f = -1 then Sys (Lib (Free (ret m))) (\<lambda>_. Ret (False, unused)) else
     bind (existing_alias (ret f) (st_size st)) (\<lambda>result.
     Sys (File (Close (ret f))) (\<lambda>_.
     Sys (Lib (Free (ret m))) (\<lambda>_. Ret (result, unused)))))))"

section \<open>Devices that are announced\<close>

record uevent =
  action :: "string option"
  modalias :: "string option"
  driver :: "string option"

definition no_fields :: uevent where
  "no_fields = \<lparr>action = None, modalias = None, driver = None\<rparr>"

text \<open>
  One iteration of the scan at the C string \<open>s\<close>: how far the position advances, and the fields
  after it. A field that is not recognized leaves the delimiter on the equals sign, so the
  position advances by the length of the value and not of the whole field.
\<close>

definition scan_field :: "string \<Rightarrow> uevent \<Rightarrow> nat \<times> uevent" where
  "scan_field s fs =
     (case strchr s (CHR ''='') of
        None \<Rightarrow> (1 + length s, fs)
      | Some i \<Rightarrow>
          (let val = drop (Suc i) s in
           if starts_with s ''MODALIAS='' then (1 + length val, fs\<lparr>modalias := Some val\<rparr>)
           else if starts_with s ''ACTION='' then (1 + length val, fs\<lparr>action := Some val\<rparr>)
           else if starts_with s ''DRIVER='' then (1 + length val, fs\<lparr>driver := Some val\<rparr>)
           else (1 + length (drop i s), fs)))"

lemma scan_field_advances: "scan_field s fs = (k, fs') \<Longrightarrow> 0 < k"
  by (auto simp: scan_field_def Let_def split: option.splits if_splits)

text \<open>The scan ends when the position has passed the length of the message.\<close>

function scan_fields :: "buffer \<Rightarrow> nat \<Rightarrow> uevent \<Rightarrow> uevent" where
  "scan_fields message position fs =
     (case scan_field (cstr_of (drop position message)) fs of
        (k, fs) \<Rightarrow> if position + k \<le> length message then scan_fields message (position + k) fs else fs)"
  by pat_completeness auto
termination
  by (relation "measure (\<lambda>(m, p, fs). Suc (length m) - p)") (auto dest!: scan_field_advances [OF sym])

declare scan_fields.simps [simp del]

text \<open>\<^verbatim>\<open>strcmp("add", action)\<close> reads through a null pointer when there was no \<^verbatim>\<open>ACTION\<close> field.\<close>

definition handle_new_device :: "buffer \<Rightarrow> bool prog" where
  "handle_new_device message =
     c_assert (0 < length message)
       (case strchr (cstr_of message) (CHR ''@'') of
          None \<Rightarrow> Ret True
        | Some position \<Rightarrow>
            (let fs = scan_fields message position no_fields in
             case (if driver fs = None then modalias fs else driver fs) of
               None \<Rightarrow> Ret True
             | Some name \<Rightarrow>
                 (case action fs of
                    None \<Rightarrow> Halt Undefined
                  | Some act \<Rightarrow>
                      if act = ''add'' then
                        bind daemon_fork (\<lambda>pid.
                          if pid = 0 then run_modprobe name
                          else if pid = -1 then Ret True
                          else Ret True)
                      else Ret True)))"

section \<open>The daemon\<close>

definition devd_receive :: "daemon_t \<Rightarrow> (unit + int) prog" where
  "devd_receive daemon_data =
     Sys (Net (Recvfrom (daemon_fd daemon_data) (MAX_MESSAGE_SIZE - 1))) (\<lambda>r.
       if ret r = -1 then
         (if EAGAIN \<noteq> errno r then Ret (Inr EXIT_FAILURE) else Ret (Inl ()))
       else if ret r = 0 then Ret (Inl ())
       else bind (handle_new_device (take (nat (ret r)) (out r))) (\<lambda>_. Ret (Inl ())))"

definition devd_round :: "daemon_t \<Rightarrow> unit \<Rightarrow> (unit + int) prog" where
  "devd_round daemon_data s =
     bind (daemon_wait daemon_data) (\<lambda>(ok, received_signal).
       if \<not> ok then Ret (Inr EXIT_FAILURE)
       else if SIGTERM = received_signal then Ret (Inr EXIT_SUCCESS)
       else devd_receive daemon_data)"

definition devd_serve :: "nat \<Rightarrow> nat \<Rightarrow> nat \<Rightarrow> fd \<Rightarrow> int prog" where
  "devd_serve d files n s =
     Sys (Lib (Openlog ''devd'')) (\<lambda>_.
     Sys (Lib (Syslog LOG_INFO ''Handling existing devices'')) (\<lambda>_.
     bind (find_all d files handle_existing_device ''modalias'' ''/sys/devices'' ()) (\<lambda>(ok, _).
     bind (if \<not> ok then Ret EXIT_FAILURE else
       bind (daemon_init \<lparr>signal_mask = [], daemon_fd = s, io_signal = SIGOTHER 0\<rparr>
         DAEMON_WORKING_DIRECTORY None) (\<lambda>(ok, daemon_data).
       if \<not> ok then Ret EXIT_FAILURE else
       Sys (Lib (Syslog LOG_INFO ''Handling new devices'')) (\<lambda>_.
       loop n (devd_round daemon_data) ()))) (\<lambda>exit_code.
     Sys (Lib Closelog) (\<lambda>_. Ret exit_code)))))"

definition devd_main :: "nat \<Rightarrow> nat \<Rightarrow> nat \<Rightarrow> int \<Rightarrow> int prog" where
  "devd_main d files n argc =
     (if argc \<noteq> 1 then Sys (Lib (Print USAGE_devd)) (\<lambda>_. Ret EXIT_FAILURE) else
     Sys (Net (Socket AF_NETLINK SOCK_DGRAM NETLINK_KOBJECT_UEVENT)) (\<lambda>s.
       if ret s = -1 then Ret EXIT_FAILURE else
     Sys (Proc Getpid) (\<lambda>pid.
     Sys (Net (Bind (ret s) (Snl (ret pid) (- 1)))) (\<lambda>b.
     bind (if ret b = -1 then Ret EXIT_FAILURE else devd_serve d files n (ret s)) (\<lambda>exit_code.
     Sys (File (Close (ret s))) (\<lambda>_. Ret exit_code))))))"

section \<open>What the scan finds\<close>

text \<open>
  The reference: the value of the last field of each name. A field is plain if no field name of
  interest is hidden inside it.
\<close>

definition classify :: "uevent \<Rightarrow> string \<Rightarrow> uevent" where
  "classify fs f =
     (if starts_with f ''MODALIAS='' then fs\<lparr>modalias := Some (drop 9 f)\<rparr>
      else if starts_with f ''ACTION='' then fs\<lparr>action := Some (drop 7 f)\<rparr>
      else if starts_with f ''DRIVER='' then fs\<lparr>driver := Some (drop 7 f)\<rparr>
      else fs)"

definition keyed :: "string \<Rightarrow> bool" where
  "keyed s \<longleftrightarrow> starts_with s ''MODALIAS='' \<or> starts_with s ''ACTION='' \<or> starts_with s ''DRIVER=''"

definition plain_field :: "string \<Rightarrow> bool" where
  "plain_field f \<longleftrightarrow> list_all (\<lambda>k. \<not> keyed (drop k f)) [1..<length f]"


lemma not_keyed_Nil [simp]: "\<not> keyed []"
  by (simp add: keyed_def)

lemma plain_suffix: "plain_field f \<Longrightarrow> 0 < k \<Longrightarrow> \<not> keyed (drop k f)"
  by (cases "k < length f") (auto simp: plain_field_def list_all_iff)

lemma scan_field_other:
  "\<not> keyed s \<Longrightarrow> scan_field s fs =
     (case strchr s (CHR ''='') of None \<Rightarrow> (1 + length s, fs) | Some i \<Rightarrow> (1 + length (drop i s), fs))"
  by (auto simp: scan_field_def keyed_def Let_def simp del: starts_with_Cons split: option.splits)

lemma starts_with_append: "starts_with s l \<Longrightarrow> s = l @ drop (length l) s"
  unfolding starts_with_def by (metis append_take_drop_id)

lemma scan_field_keyed:
  assumes "keyed s"
  obtains k where "scan_field s fs = (k, classify fs s)" "0 < k" "k \<le> length s"
proof -
  consider "starts_with s ''MODALIAS=''" | "starts_with s ''ACTION=''" | "starts_with s ''DRIVER=''"
    using assms by (auto simp: keyed_def)
  then show thesis
  proof cases
    case 1
    from starts_with_append [OF this] obtain r where "s = ''MODALIAS='' @ r" by blast
    then show ?thesis by (intro that [of "1 + length r"]) (simp_all add: scan_field_def classify_def Let_def)
  next
    case 2
    from starts_with_append [OF this] obtain r where "s = ''ACTION='' @ r" by blast
    then show ?thesis by (intro that [of "1 + length r"]) (simp_all add: scan_field_def classify_def Let_def)
  next
    case 3
    from starts_with_append [OF this] obtain r where "s = ''DRIVER='' @ r" by blast
    then show ?thesis by (intro that [of "1 + length r"]) (simp_all add: scan_field_def classify_def Let_def)
  qed
qed

lemma cstr_of_drop: "k \<le> length (cstr_of m) \<Longrightarrow> cstr_of (drop k m) = drop k (cstr_of m)"
proof (induction m arbitrary: k)
  case (Cons c m)
  then show ?case by (cases k) (auto simp: cstr_of_def split: if_splits)
qed (simp add: cstr_of_def)

lemma length_cstr_of: "length (cstr_of m) \<le> length m"
  by (simp add: cstr_of_def length_takeWhile_le)

text \<open>What follows a field: its end is reached, whatever steps the position takes inside it.\<close>

definition after_field :: "buffer \<Rightarrow> nat \<Rightarrow> uevent \<Rightarrow> uevent" where
  "after_field message position fs =
     (if position < length message then scan_fields message (Suc position) fs else fs)"

lemma scan_skip:
  assumes "s = cstr_of (drop p m)" and "p \<le> length m" and "\<forall>k. \<not> keyed (drop k s)"
  shows "scan_fields m p fs = after_field m (p + length s) fs"
  using assms
proof (induction "length s" arbitrary: p s rule: less_induct)
  case less
  have len: "p + length s \<le> length m"
    using less.prems(1,2) length_cstr_of [of "drop p m"] by simp
  from less.prems(3) have "\<not> keyed s" by (metis drop0)
  note field = scan_field_other [OF this, folded less.prems(1)]
  show ?case
  proof (cases "strchr s (CHR ''='')")
    case None
    then show ?thesis
      by (subst scan_fields.simps) (simp add: field less.prems(1) [symmetric] after_field_def Suc_le_eq)
  next
    case (Some i)
    then have i: "i < length s" using strchr_SomeD by blast
    define k where "k = Suc (length s - i)"
    have step: "scan_fields m p fs = (if p + k \<le> length m then scan_fields m (p + k) fs else fs)"
      by (subst scan_fields.simps, fold less.prems(1)) (simp add: field Some k_def)
    show ?thesis
    proof (cases "i = 0")
      case True
      with step show ?thesis by (simp add: k_def after_field_def Suc_le_eq)
    next
      case False
      with i have k: "0 < k" "k \<le> length s" by (auto simp: k_def)
      have s': "drop k s = cstr_of (drop (p + k) m)"
        using cstr_of_drop [of k "drop p m"] k less.prems(1) by (simp add: add.commute)
      have short: "length (drop k s) < length s" using k by (cases s) auto
      have inside: "p + k \<le> length m" using k len by simp
      have other: "\<forall>j. \<not> keyed (drop j (drop k s))" using less.prems(3) by (simp add: drop_drop)
      from less.hyps [OF short s' inside other] k
      have "scan_fields m (p + k) fs = after_field m (p + length s) fs" by simp
      with step k len show ?thesis by simp
    qed
  qed
qed

lemma scan_plain:
  assumes "s = cstr_of (drop p m)" and "p \<le> length m" and "plain_field s"
  shows "scan_fields m p fs = after_field m (p + length s) (classify fs s)"
proof (cases "keyed s")
  case False
  then have "\<forall>k. \<not> keyed (drop k s)"
    using plain_suffix [OF assms(3)] by (metis drop0 not_gr_zero)
  moreover have "classify fs s = fs" using False by (simp add: classify_def keyed_def)
  ultimately show ?thesis using scan_skip [OF assms(1,2)] by simp
next
  case True
  obtain k where k: "scan_field s fs = (k, classify fs s)" "0 < k" "k \<le> length s"
    by (rule scan_field_keyed [OF True])
  have len: "p + length s \<le> length m"
    using assms(1,2) length_cstr_of [of "drop p m"] by simp
  have s': "drop k s = cstr_of (drop (p + k) m)"
    using cstr_of_drop [of k "drop p m"] k assms(1) by (simp add: add.commute)
  have "\<forall>j. \<not> keyed (drop j (drop k s))"
    using plain_suffix [OF assms(3)] k(2) by simp
  from scan_skip [OF s' _ this] k len have
    "scan_fields m (p + k) fs' = after_field m (p + length s) fs'" for fs' by simp
  then show ?thesis
    using k len by (subst scan_fields.simps) (simp add: assms(1) [symmetric])
qed

lemma scan_fields_reference:
  "p \<le> length m \<Longrightarrow> list_all plain_field (split_on NUL (drop p m)) \<Longrightarrow>
     scan_fields m p fs = foldl classify fs (split_on NUL (drop p m))"
proof (induction "length m - p" arbitrary: p fs rule: less_induct)
  case less
  let ?s = "cstr_of (drop p m)" and ?d = "dropWhile (\<lambda>c. c \<noteq> NUL) (drop p m)"
  have split: "split_on NUL (drop p m) = ?s # (case ?d of [] \<Rightarrow> [] | _ # rest \<Rightarrow> split_on NUL rest)"
    by (subst split_on_span) (simp add: cstr_of_def)
  have d: "?d = drop (p + length ?s) m"
    by (simp add: cstr_of_def dropWhile_eq_drop add.commute)
  have "plain_field ?s" using less.prems(2) unfolding split by simp
  note step = scan_plain [OF refl less.prems(1) this]
  show ?case
  proof (cases "p + length ?s < length m")
    case False
    with d have empty: "?d = []" by (metis drop_all not_le)
    from step False show ?thesis unfolding split empty after_field_def by simp
  next
    case True
    then have "drop (p + length ?s) m = m ! (p + length ?s) # drop (Suc (p + length ?s)) m"
      by (rule Cons_nth_drop_Suc [symmetric])
    with d have split': "split_on NUL (drop p m) = ?s # split_on NUL (drop (Suc (p + length ?s)) m)"
      unfolding split by simp
    with less.hyps [of "Suc (p + length ?s)"] less.prems True step show ?thesis
      by (simp add: after_field_def)
  qed
qed


section \<open>Service and callback\<close>

lemma never_waits_event: "never_waits (handle_new_device m)"
  unfolding handle_new_device_def run_modprobe_def Let_def
  by (intro issues_intros never_waits_fork) simp_all

interpretation devd_service: daemon_service "devd_round daemon_data" EXIT_SUCCESS for daemon_data
proof
  show "\<exists>e u. t = e # u \<and> waits (fst e) \<and> (\<forall>e' \<in> set u. \<not> waits (fst e'))"
    if "execs (devd_round daemon_data s) t z" for s t z
    using that unfolding devd_round_def
  proof (rule daemon_wait_round)
    show "never_waits (case x of (ok, g) \<Rightarrow> if \<not> ok then Ret (Inr EXIT_FAILURE)
       else if SIGTERM = g then Ret (Inr EXIT_SUCCESS) else devd_receive daemon_data)" for x
      unfolding devd_receive_def by (intro issues_intros never_waits_event) simp_all
  qed
  show "u = [] \<and> z = Returned (Inr EXIT_SUCCESS)"
    if "execs (devd_round daemon_data s) (e # u) z" "terminated e" for s e u z
    using that unfolding devd_round_def by (rule daemon_wait_stops) simp
qed

lemma issues_only_daemon_fork:
  "P (Signal Sigemptyset) \<Longrightarrow> P (Proc Fork) \<Longrightarrow> P (Signal (Sigprocmask [])) \<Longrightarrow> issues_only P daemon_fork"
  unfolding daemon_fork_def by (intro issues_intros)

lemma issues_only_existing:
  assumes "\<And>c. P (Signal c)" "\<And>l. P (Lib l)" "P (Proc Fork)" "\<And>x. P (Proc (Exec ''modprobe'' [''modprobe'', x]))"
    and "\<And>p. P (File (Stat p))" "\<And>p. P (File (Open p O_RDONLY 0))" "\<And>f k. P (File (Read f k))" "\<And>f. P (File (Close f))"
  shows "issues_only P (handle_existing_device f s)"
  unfolding handle_existing_device_def existing_alias_def run_modprobe_def Let_def
  by (intro issues_intros issues_only_daemon_fork assms)

interpretation existing: file_callback handle_existing_device
  by unfold_locales (rule issues_only_existing; simp add: dir_call_def)

text \<open>The programs a trace starts.\<close>

definition starts_modprobe_only :: "syscall \<Rightarrow> bool" where
  "starts_modprobe_only c \<longleftrightarrow> (case c of
     Proc (Exec f argv) \<Rightarrow> f = ''modprobe'' \<and> length argv = 2 \<and> argv ! 0 = ''modprobe'' | _ \<Rightarrow> True)"

lemma starts_modprobe_simps [simp]:
  "starts_modprobe_only (File c)" "starts_modprobe_only (Net c')" "starts_modprobe_only (Signal g)"
  "starts_modprobe_only (Kern k)" "starts_modprobe_only (Lib l)"
  "starts_modprobe_only (Proc q) \<longleftrightarrow> (case q of
     Exec f argv \<Rightarrow> f = ''modprobe'' \<and> length argv = 2 \<and> argv ! 0 = ''modprobe'' | _ \<Rightarrow> True)"
  by (simp_all add: starts_modprobe_only_def)

lemma issues_only_devd: "issues_only starts_modprobe_only (devd_main d files n argc)"
proof -
  have walk: "issues_only starts_modprobe_only (find_all d files handle_existing_device p q s)" for p q s
    by (rule issues_only_find_all [OF issues_only_existing])
      (auto simp: dir_call_def split: syscall.splits file_call.splits)
  have init: "issues_only starts_modprobe_only (daemon_init x wd u)" for x wd u
    unfolding daemon_init_defs daemonize_defs by (intro issues_intros; simp split: option.split)+
  have event: "issues_only starts_modprobe_only (handle_new_device m)" for m
    unfolding handle_new_device_def run_modprobe_def Let_def
    by (intro issues_intros issues_only_daemon_fork) simp_all
  have round: "issues_only starts_modprobe_only (devd_round x s)" for x s
    unfolding devd_round_def daemon_wait_def devd_receive_def by (intro issues_intros event) simp_all
  show ?thesis
    unfolding devd_main_def devd_serve_def by (intro issues_intros walk init round) simp_all
qed


section \<open>Properties\<close>

text \<open>
  C30: although its position does not advance by whole fields, the scan of an announcement
  finds what the reference finds, the last MODALIAS, ACTION and DRIVER fields, when no field
  hides one of these names; modprobe is run for an added device only, with the driver or else
  the alias, and without an ACTION field the comparison reads through a null pointer.
\<close>

theorem uevent_handled:
  assumes "message \<noteq> []" and "strchr (cstr_of message) (CHR ''@'') = Some p"
    and "list_all plain_field (split_on NUL (drop p message))"
  shows "handle_new_device message =
    (let fs = foldl classify no_fields (split_on NUL (drop p message)) in
     case (case driver fs of Some m \<Rightarrow> Some m | None \<Rightarrow> modalias fs) of
       None \<Rightarrow> Ret True
     | Some name \<Rightarrow>
         (case action fs of
            None \<Rightarrow> Halt Undefined
          | Some act \<Rightarrow>
              if act = ''add'' then bind daemon_fork (\<lambda>pid. if pid = 0 then run_modprobe name else Ret True)
              else Ret True))"
proof -
  have "p \<le> length message"
    using strchr_SomeD [OF assms(2)] length_cstr_of [of message] by simp
  from scan_fields_reference [OF this assms(3)] assms(1,2) show ?thesis
    by (auto simp: handle_new_device_def c_assert_def Let_def cong: if_cong option.case_cong split: option.split)
qed

text \<open>
  C31: whatever the kernel announces and whatever files it finds, the device daemon runs no
  program but modprobe, with exactly one argument.
\<close>

theorem devd_starts_modprobe:
  assumes "execs (devd_main d files n argc) t z" and "(Proc (Exec f argv), r) \<in> set t"
  shows "f = ''modprobe'' \<and> (\<exists>name. argv = [''modprobe'', name])"
  using issues_onlyD [OF assms(1) issues_only_devd assms(2)]
  by (auto simp: length_Suc_conv numeral_2_eq_2)

text \<open>The devices that exist are handled one after another, in the order of the walk.\<close>

lemma existing_devices_visited:
  "execs (find_all d n handle_existing_device ''modalias'' ''/sys/devices'' ()) t z \<Longrightarrow>
   dir_ok fs Map.empty t \<Longrightarrow> walkable d n fs ''modalias'' ''/sys/devices'' \<Longrightarrow>
   execs (visit_all handle_existing_device (files_below d fs ''modalias'' ''/sys/devices'') ())
     (filter (\<lambda>e. \<not> dir_call (fst e)) t) z"
  by (rule existing.find_all_visits)

theorem existing_device_released:
  assumes "execs (handle_existing_device path s) t (Returned x)"
  shows "open_fds t = {} \<and> allocated t = {}"
proof -
  have "wp (handle_existing_device path s) (\<lambda>t z. (\<exists>x. z = Returned x) \<longrightarrow> open_fds t = {} \<and> allocated t = {}) []"
    unfolding handle_existing_device_def existing_alias_def run_modprobe_def daemon_fork_def Let_def
    using open_fds_append [of "[]"] allocated_append [of "[]"]
    by (intro wp_intros) auto
  from execs_wp [OF assms this] show ?thesis by (cases x) simp
qed

section \<open>Witnesses\<close>

definition uevent_example :: buffer where
  "uevent_example = ''add@/d'' @ [NUL] @ ''ACTION=add'' @ [NUL] @ ''SUBSYSTEM=usb'' @ [NUL] @
     ''MODALIAS=usb:v1'' @ [NUL]"

theorem uevent_handled_witness:
  "handle_new_device uevent_example =
     bind daemon_fork (\<lambda>pid. if pid = 0 then run_modprobe ''usb:v1'' else Ret True)"
proof -
  have at: "strchr (cstr_of uevent_example) (CHR ''@'') = Some 3" by code_simp
  have plain: "list_all plain_field (split_on NUL (drop 3 uevent_example))" by code_simp
  have fs: "foldl classify no_fields (split_on NUL (drop 3 uevent_example)) =
      \<lparr>action = Some ''add'', modalias = Some ''usb:v1'', driver = None\<rparr>" by code_simp
  have "uevent_example \<noteq> []" by (simp add: uevent_example_def)
  from uevent_handled [OF this at plain] show ?thesis unfolding fs by simp
qed

definition devd_child :: "reply list" where
  "devd_child = [returns 3, returns 9, returns 0, returns 0, returns 0, returns 1,
     reply0\<lparr>dirent := Some (DT_REG, ''modalias'')\<rparr>, reply0\<lparr>st_size := 4\<rparr>, returns 5, returns 4,
     delivers [CHR ''u'', CHR ''s'', CHR ''b'', CHR 0x0A], returns 0, returns 0, returns 0, returns 0]"

theorem devd_starts_modprobe_witness:
  "\<exists>r. (Proc (Exec ''modprobe'' [''modprobe'', ''usb'']), r) \<in> set (fst (run (devd_main 1 1 1 1) devd_child)) \<and>
     (\<exists>name. [''modprobe'', ''usb''] = [''modprobe'', name])"
proof -
  let ?t = "fst (run (devd_main 1 1 1 1) devd_child)"
  have "snd (run (devd_main 1 1 1 1) devd_child) = Halted Replaced" by code_simp
  then have ex: "execs (devd_main 1 1 1 1) ?t (Halted Replaced)" by (rule run_trace) simp
  have "list_ex (\<lambda>e. fst e = Proc (Exec ''modprobe'' [''modprobe'', ''usb''])) ?t" by code_simp
  then obtain r where r: "(Proc (Exec ''modprobe'' [''modprobe'', ''usb'']), r) \<in> set ?t"
    by (auto simp: list_ex_iff)
  from devd_starts_modprobe [OF ex r] r show ?thesis by blast
qed

definition devd_parent :: "reply list" where
  "devd_parent = [reply0\<lparr>st_size := 4\<rparr>, returns 5, returns 4, delivers [CHR ''u'', CHR ''s'', CHR ''b'', CHR 0x0A],
     returns 0, returns 70, returns 0, returns 0]"

theorem existing_device_released_witness:
  "length (fst (run (handle_existing_device ''/m'' ()) devd_parent)) = 8 \<and>
   open_fds (fst (run (handle_existing_device ''/m'' ()) devd_parent)) = {}"
proof -
  let ?p = "handle_existing_device ''/m'' ()"
  have "snd (run ?p devd_parent) = Returned (True, ())" by code_simp
  then have "execs ?p (fst (run ?p devd_parent)) (Returned (True, ()))" by (rule run_trace) simp
  moreover have "length (fst (run ?p devd_parent)) = 8" by code_simp
  ultimately show ?thesis using existing_device_released by blast
qed

end
