(* ===== verification/Getopt.thy ===== *)
theory Getopt
  imports Prelude
begin

text \<open>
  \<^verbatim>\<open>getopt(3)\<close> as POSIX defines it and the C library the programs are meant for (musl) has it,
  called until it returns -1: the options in the order they are found, each with its argument,
  and the operands, which start with the first word that is not an option. An option that is
  not known, or one whose argument is missing, is reported as a question mark.
\<close>

type_synonym option_list = "(char \<times> string) list"

text \<open>
  The option string: the letters, and those among them that take an argument. \<open>getopt_word\<close> reads
  the letters of one word of the command line.
\<close>

function getopt_args :: "string \<Rightarrow> string \<Rightarrow> string list \<Rightarrow> option_list \<times> string list"
    and getopt_word :: "string \<Rightarrow> string \<Rightarrow> string \<Rightarrow> string list \<Rightarrow> option_list \<times> string list" where
  "getopt_args flags with_arg [] = ([], [])"
| "getopt_args flags with_arg (a # as) =
     (if a = ''--'' then ([], as)
      else if length a > 1 \<and> hd a = CHR ''-'' then getopt_word flags with_arg (tl a) as
      else ([], a # as))"
| "getopt_word flags with_arg [] as = getopt_args flags with_arg as"
| "getopt_word flags with_arg (c # cs) as =
     (if c \<in> set with_arg then
        (if cs \<noteq> [] then map_prod (Cons (c, cs)) id (getopt_args flags with_arg as)
         else (case as of
             [] \<Rightarrow> ([(CHR ''?'', [])], [])
           | a # as' \<Rightarrow> map_prod (Cons (c, a)) id (getopt_args flags with_arg as')))
      else
        map_prod (Cons (if c \<in> set flags then c else CHR ''?'', []))
          id (getopt_word flags with_arg cs as))"
  by pat_completeness auto
termination
  by (relation "measure (\<lambda>x. case x of
      Inl (f, w, as) \<Rightarrow> sum_list (map (\<lambda>a. Suc (length a)) as)
    | Inr (f, w, cs, as) \<Rightarrow> Suc (length cs) + sum_list (map (\<lambda>a. Suc (length a)) as))") auto

text \<open>A command line that does not start with an option is all operands.\<close>

lemma getopt_operands:
  "as = [] \<or> hd as = [] \<or> hd (hd as) \<noteq> CHR ''-'' \<Longrightarrow> getopt_args flags with_arg as = ([], as)"
  by (cases as) auto

text \<open>Options that stand alone, in front of the operands.\<close>

lemma getopt_flag:
  "c \<in> set flags \<Longrightarrow> c \<notin> set with_arg \<Longrightarrow> c \<noteq> CHR ''-'' \<Longrightarrow>
   getopt_args flags with_arg ([CHR ''-'', c] # as) =
     map_prod (Cons (c, [])) id (getopt_args flags with_arg as)"
  by simp

lemma getopt_argument:
  "c \<in> set with_arg \<Longrightarrow> c \<noteq> CHR ''-'' \<Longrightarrow>
   getopt_args flags with_arg ([CHR ''-'', c] # a # as) =
     map_prod (Cons (c, a)) id (getopt_args flags with_arg as)"
  by simp

end
