(* ===== verification/Mount.thy ===== *)
theory Mount
  imports Daemon Monitor Getopt
begin

text \<open>
  \<^verbatim>\<open>mount.c\<close> and \<^verbatim>\<open>umount.c\<close>: mounting a file system whose type is given, guessed from the
  device, or found by trying every type the kernel knows.
\<close>

section \<open>Data\<close>

definition USAGE_mount :: string where
  "USAGE_mount = ''Usage: mount [-B|-R|-M] [-t TYPE] [-o OPTIONS] SOURCE TARGET'' @ [CHR 0x0A, NUL]"

abbreviation (input) MS_RDONLY :: u32 where "MS_RDONLY \<equiv> 1"
abbreviation (input) MS_NOSUID :: u32 where "MS_NOSUID \<equiv> 2"
abbreviation (input) MS_NODEV :: u32 where "MS_NODEV \<equiv> 4"
abbreviation (input) MS_NOEXEC :: u32 where "MS_NOEXEC \<equiv> 8"
abbreviation (input) MS_BIND :: u32 where "MS_BIND \<equiv> 0x1000"
abbreviation (input) MS_MOVE :: u32 where "MS_MOVE \<equiv> 0x2000"
abbreviation (input) MS_REC :: u32 where "MS_REC \<equiv> 0x4000"

record option_t =
  option_text :: string
  option_flag :: u32

definition g_options :: "option_t list" where
  "g_options =
     [\<lparr>option_text = ''ro'', option_flag = MS_RDONLY\<rparr>,
      \<lparr>option_text = ''noexec'', option_flag = MS_NOEXEC\<rparr>,
      \<lparr>option_text = ''nodev'', option_flag = MS_NODEV\<rparr>,
      \<lparr>option_text = ''nosuid'', option_flag = MS_NOSUID\<rparr>]"

record fs_magic_t =
  fs_name :: string
  magic :: u64
  magic_size :: nat
  magic_offset :: nat

definition g_file_systems :: "fs_magic_t list" where
  "g_file_systems =
     [\<lparr>fs_name = ''ext4'', magic = 0xEF53, magic_size = 2, magic_offset = 1024 + 56\<rparr>,
      \<lparr>fs_name = ''xfs'', magic = 0x58465342, magic_size = 4, magic_offset = 0\<rparr>,
      \<lparr>fs_name = ''squashfs'', magic = 0x73717368, magic_size = 4, magic_offset = 0\<rparr>]"

section \<open>Options\<close>

primrec find_option :: "string \<Rightarrow> option_t list \<Rightarrow> u32 option" where
  "find_option option [] = None"
| "find_option option (o' # os) =
     (if option_text o' = option then Some (option_flag o') else find_option option os)"

text \<open>
  The loop of \<^verbatim>\<open>_parse_options\<close>. The second option that is not recognized makes \<^verbatim>\<open>sprintf\<close> copy
  \<^verbatim>\<open>*data\<close> onto itself; the C standard leaves the behaviour of overlapping arguments undefined,
  which is \<open>None\<close> here.
\<close>

function parse_tokens :: "string \<Rightarrow> u32 \<Rightarrow> string \<Rightarrow> (u32 \<times> string) option" where
  "parse_tokens position flags data =
     (case strtok_r (CHR '','') position of
        None \<Rightarrow> Some (flags, data)
      | Some (option, rest) \<Rightarrow>
          (case find_option option g_options of
             Some flag \<Rightarrow> parse_tokens rest (flags OR flag) data
           | None \<Rightarrow> if length data = 0 then parse_tokens rest flags option else None))"
  by pat_completeness auto
termination
  by (relation "measure (\<lambda>(p, f, d). length p)") (auto dest: strtok_r_shorter)

declare parse_tokens.simps [simp del]

text \<open>The result: success, the flags, and the data with the address of its memory.\<close>

definition parse_options :: "string \<Rightarrow> u32 \<Rightarrow> (bool \<times> u32 \<times> (int \<times> string) option) prog" where
  "parse_options options flags =
     Sys (Lib (Malloc (1 + length options))) (\<lambda>copy. if ret copy = 0 then Ret (False, flags, None) else
     Sys (Lib (Malloc (1 + length options))) (\<lambda>data.
       if ret data = 0 then Sys (Lib (Free (ret copy))) (\<lambda>_. Ret (False, flags, None)) else
       (case parse_tokens options flags [] of
          None \<Rightarrow> Halt Undefined
        | Some (flags, text) \<Rightarrow>
            Sys (Lib (Free (ret copy))) (\<lambda>_. Ret (True, flags, Some (ret data, text))))))"

section \<open>Guessing the type\<close>

text \<open>The bytes of a \<^verbatim>\<open>uint64_t\<close> in memory, lowest first.\<close>

definition store64 :: "u64 \<Rightarrow> buffer" where
  "store64 v = map (\<lambda>i. char_of_byte (ucast (drop_bit (8 * i) v))) [0..<8]"

primrec guess_in :: "fs_magic_t list \<Rightarrow> fd \<Rightarrow> string option prog" where
  "guess_in [] device = Ret None"
| "guess_in (m # ms) device =
     Sys (File (Lseek device (int (magic_offset m)))) (\<lambda>l.
       if int (magic_offset m) \<noteq> ret l then Ret None else
     Sys (File (Read device (magic_size m))) (\<lambda>r.
       if int (magic_size m) \<noteq> ret r then Ret None
       else if take (magic_size m) (store64 (magic m)) = take (magic_size m) (out r)
         then Ret (Some (fs_name m))
       else guess_in ms device))"

definition guess_type :: "string \<Rightarrow> string option prog" where
  "guess_type path =
     Sys (File (Open path O_RDONLY 0)) (\<lambda>device. if ret device = -1 then Ret None else
     bind (guess_in g_file_systems (ret device)) (\<lambda>file_system.
     Sys (File (Close (ret device))) (\<lambda>_. Ret file_system)))"

section \<open>Trying all types\<close>

text \<open>
  \<^verbatim>\<open>entry\<close> has as many bytes as the literal \<^verbatim>\<open>"nodev\tanon_inodefs"\<close> has characters, and
  \<^verbatim>\<open>fgets\<close> is given one less. The trailing line break is stripped without a look at it.
\<close>

definition ENTRY_LENGTH :: nat where
  "ENTRY_LENGTH = length ''nodev'' + 1 + length ''anon_inodefs''"

definition brute_round ::
  "string \<Rightarrow> string \<Rightarrow> u32 \<Rightarrow> string option \<Rightarrow> int \<Rightarrow> unit \<Rightarrow> (unit + bool) prog" where
  "brute_round source dest flags data list s =
     Sys (Lib (Fgets list (ENTRY_LENGTH - 1))) (\<lambda>r. if ret r = 0 then Ret (Inr False) else
       (let entry = out r in
        if take 1 entry \<noteq> [CHR 0x09] then Ret (Inl ()) else
        Sys (Kern (Mount source dest (Some (drop 1 (butlast entry))) flags data)) (\<lambda>m.
          if ret m = 0 then Ret (Inr True) else Ret (Inl ()))))"

definition mount_brute :: "nat \<Rightarrow> string \<Rightarrow> string \<Rightarrow> u32 \<Rightarrow> string option \<Rightarrow> bool prog" where
  "mount_brute n source dest flags data =
     Sys (Lib (Fopen ''/proc/filesystems'')) (\<lambda>list. if ret list = 0 then Ret False else
     bind (loop n (brute_round source dest flags data (ret list)) ()) (\<lambda>result.
     Sys (Lib (Fclose (ret list))) (\<lambda>_. Ret result)))"

section \<open>The programs\<close>

record settings =
  mode :: char
  mount_flags :: u32
  fs_type :: "string option"
  fs_options :: "string option"

definition default_settings :: settings where
  "default_settings = \<lparr>mode = CHR ''m'', mount_flags = 0, fs_type = None, fs_options = None\<rparr>"

primrec read_settings :: "option_list \<Rightarrow> settings \<Rightarrow> settings option" where
  "read_settings [] s = Some s"
| "read_settings (x # xs) s =
     (case x of (option, optarg) \<Rightarrow>
        if option = CHR ''B'' then read_settings xs (s\<lparr>mode := option, mount_flags := MS_BIND\<rparr>)
        else if option = CHR ''R'' then read_settings xs (s\<lparr>mode := option, mount_flags := MS_BIND OR MS_REC\<rparr>)
        else if option = CHR ''M'' then read_settings xs (s\<lparr>mode := option, mount_flags := MS_MOVE\<rparr>)
        else if option = CHR ''t'' then read_settings xs (s\<lparr>fs_type := Some optarg\<rparr>)
        else if option = CHR ''o'' then read_settings xs (s\<lparr>fs_options := Some optarg\<rparr>)
        else None)"

text \<open>\<^verbatim>\<open>success\<close> and \<^verbatim>\<open>free_data\<close>.\<close>

definition mount_end :: "(int \<times> string) option \<Rightarrow> bool \<Rightarrow> int prog" where
  "mount_end data success =
     (case data of
        Some (ptr, text) \<Rightarrow>
          Sys (Lib (Free ptr)) (\<lambda>_. Ret (if success then EXIT_SUCCESS else EXIT_FAILURE))
      | None \<Rightarrow> Ret (if success then EXIT_SUCCESS else EXIT_FAILURE))"

definition mount_as ::
  "string \<Rightarrow> string \<Rightarrow> string option \<Rightarrow> u32 \<Rightarrow> (int \<times> string) option \<Rightarrow> int prog" where
  "mount_as source target type flags data =
     Sys (Kern (Mount source target type flags (map_option snd data))) (\<lambda>r. mount_end data (ret r \<noteq> -1))"

definition mount_mode_m :: "nat \<Rightarrow> settings \<Rightarrow> string \<Rightarrow> string \<Rightarrow> int prog" where
  "mount_mode_m n s source target =
     bind (case fs_options s of
        Some options \<Rightarrow> parse_options options (mount_flags s)
      | None \<Rightarrow> Ret (True, mount_flags s, None)) (\<lambda>(ok, flags, data). if \<not> ok then Ret EXIT_FAILURE else
     bind (case fs_type s of None \<Rightarrow> guess_type source | Some type \<Rightarrow> Ret (Some type)) (\<lambda>type.
       if type = None then
         bind (mount_brute n source target flags (map_option snd data)) (\<lambda>ok. mount_end data ok)
       else mount_as source target type flags data))"

definition mount_main :: "nat \<Rightarrow> string list \<Rightarrow> int prog" where
  "mount_main n args =
     (let (options, operands) = getopt_args ''BRM'' ''to'' args in
      case read_settings options default_settings of
        None \<Rightarrow> Sys (Lib (Print USAGE_mount)) (\<lambda>_. Ret EXIT_FAILURE)
      | Some s \<Rightarrow>
          if length operands \<noteq> 2 then Sys (Lib (Print USAGE_mount)) (\<lambda>_. Ret EXIT_FAILURE)
          else if mode s = CHR ''m'' then mount_mode_m n s (operands ! 0) (operands ! 1)
          else mount_as (operands ! 0) (operands ! 1) (fs_type s) (mount_flags s) None)"

definition USAGE_umount :: string where
  "USAGE_umount = ''Usage: umount TARGET'' @ [CHR 0x0A, NUL]"

abbreviation (input) MNT_DETACH :: u32 where "MNT_DETACH \<equiv> 2"
abbreviation (input) UMOUNT_NOFOLLOW :: u32 where "UMOUNT_NOFOLLOW \<equiv> 8"

definition umount_main :: "string list \<Rightarrow> int prog" where
  "umount_main argv =
     (if length argv \<noteq> 2 then Sys (Lib (Print USAGE_umount)) (\<lambda>_. Ret EXIT_FAILURE) else
      Sys (Kern (Umount2 (argv ! 1) (MNT_DETACH OR UMOUNT_NOFOLLOW))) (\<lambda>r.
        Ret (if ret r = -1 then EXIT_FAILURE else EXIT_SUCCESS)))"


section \<open>What options mean\<close>

text \<open>The reference: the options between the commas, the known ones as flags, the others as data.\<close>

definition options_of :: "string \<Rightarrow> string list" where
  "options_of options = filter (\<lambda>w. w \<noteq> []) (split_on (CHR '','') options)"

definition known_flags :: "string list \<Rightarrow> u32 list" where
  "known_flags os = List.map_filter (\<lambda>w. find_option w g_options) os"

definition unknown_options :: "string list \<Rightarrow> string list" where
  "unknown_options os = filter (\<lambda>w. find_option w g_options = None) os"

lemma known_unknown_simps [simp]:
  "known_flags [] = []" "unknown_options [] = []"
  "known_flags (w # os) = (case find_option w g_options of None \<Rightarrow> known_flags os | Some f \<Rightarrow> f # known_flags os)"
  "unknown_options (w # os) = (if find_option w g_options = None then w # unknown_options os else unknown_options os)"
  by (simp_all add: known_flags_def unknown_options_def List.map_filter_simps split: option.split)

lemma parse_tokens_reference:
  "parse_tokens p flags data = (let os = tokens (CHR '','') p in
     if unknown_options os = [] then Some (foldl (OR) flags (known_flags os), data)
     else if data = [] \<and> length (unknown_options os) = 1
       then Some (foldl (OR) flags (known_flags os), hd (unknown_options os))
     else None)"
proof (induction p flags data rule: parse_tokens.induct)
  case (1 p flags data)
  show ?case
  proof (cases "strtok_r (CHR '','') p")
    case None
    then have "tokens (CHR '','') p = []" by (subst tokens.simps) simp
    with None show ?thesis by (subst parse_tokens.simps) simp
  next
    case (Some a)
    obtain w rest where a: "a = (w, rest)" by (cases a)
    have tok: "tokens (CHR '','') p = w # tokens (CHR '','') rest"
      using Some a by (subst tokens.simps) simp
    then have w: "w \<noteq> []" using tokens_props [of w "CHR '',''" p] by simp
    show ?thesis
      using 1 [OF Some a [symmetric]] Some a w
      by (subst parse_tokens.simps, unfold tok)
        (auto simp: Let_def split: option.split)
  qed
qed

section \<open>What a device holds\<close>

text \<open>
  \<^verbatim>\<open>lseek(2)\<close> and \<^verbatim>\<open>read(2)\<close> on a device with contents \<open>F\<close>: the position is set, and a read returns
  the bytes from there, all that are asked for unless the device ends. \<open>None\<close> is a reply that
  breaks this.
\<close>

definition device_step :: "fd \<Rightarrow> buffer \<Rightarrow> nat \<Rightarrow> event \<Rightarrow> nat option" where
  "device_step f F pos e = (case e of
     (File (Lseek f' i), r) \<Rightarrow> if f' = f then (if ret r = i \<and> 0 \<le> i then Some (nat i) else None) else Some pos
   | (File (Read f' n), r) \<Rightarrow>
       if f' = f then
         (if ret r = int (length (out r)) \<and> out r = take n (drop pos F) then Some (pos + length (out r)) else None)
       else Some pos
   | _ \<Rightarrow> Some pos)"

fun device_ok :: "fd \<Rightarrow> buffer \<Rightarrow> nat \<Rightarrow> event list \<Rightarrow> bool" where
  "device_ok f F pos [] \<longleftrightarrow> True"
| "device_ok f F pos (e # t) \<longleftrightarrow>
     (case device_step f F pos e of None \<Rightarrow> False | Some pos' \<Rightarrow> device_ok f F pos' t)"

definition has_magic :: "buffer \<Rightarrow> fs_magic_t \<Rightarrow> bool" where
  "has_magic F m \<longleftrightarrow> take (magic_size m) (drop (magic_offset m) F) = take (magic_size m) (store64 (magic m))"

text \<open>The type of a device: none when it is too short for a magic number that is looked at.\<close>

fun type_in :: "fs_magic_t list \<Rightarrow> buffer \<Rightarrow> string option" where
  "type_in [] F = None"
| "type_in (m # ms) F =
     (if length F < magic_offset m + magic_size m then None
      else if has_magic F m then Some (fs_name m) else type_in ms F)"

lemma guess_in_type:
  "execs (guess_in ms f) t z \<Longrightarrow> device_ok f F pos t \<Longrightarrow> \<forall>m \<in> set ms. 0 < magic_size m \<Longrightarrow>
     z = Returned (type_in ms F)"
proof (induction ms arbitrary: t pos)
  case (Cons m ms)
  let ?read = "Sys (File (Read f (magic_size m))) (\<lambda>r.
       if int (magic_size m) \<noteq> ret r then Ret None
       else if take (magic_size m) (store64 (magic m)) = take (magic_size m) (out r)
         then Ret (Some (fs_name m)) else guess_in ms f)"
  from Cons.prems(1) obtain l u where t: "t = (File (Lseek f (int (magic_offset m))), l) # u"
    and ex: "execs (if int (magic_offset m) \<noteq> ret l then Ret None else ?read) u z"
    unfolding guess_in.simps execs_Sys by blast
  from Cons.prems(2) have l: "ret l = int (magic_offset m)" and ok: "device_ok f F (magic_offset m) u"
    by (auto simp: t device_step_def split: if_splits)
  from ex l have "execs ?read u z" by simp
  then obtain r v where u: "u = (File (Read f (magic_size m)), r) # v"
    and ex': "execs (if int (magic_size m) \<noteq> ret r then Ret None
       else if take (magic_size m) (store64 (magic m)) = take (magic_size m) (out r)
         then Ret (Some (fs_name m)) else guess_in ms f) v z"
    unfolding execs_Sys by blast
  from ok have r: "ret r = int (length (out r))" "out r = take (magic_size m) (drop (magic_offset m) F)"
    and ok': "device_ok f F (magic_offset m + length (out r)) v"
    by (auto simp: u device_step_def split: if_splits)
  have len: "int (magic_size m) = ret r \<longleftrightarrow> magic_offset m + magic_size m \<le> length F"
    using Cons.prems(3) unfolding r(1) r(2) by auto
  have magic: "take (magic_size m) (store64 (magic m)) = take (magic_size m) (out r) \<longleftrightarrow> has_magic F m"
    unfolding has_magic_def r(2) by auto
  show ?case
  proof (cases "magic_offset m + magic_size m \<le> length F \<and> \<not> has_magic F m")
    case True
    with ex' len magic have "execs (guess_in ms f) v z" by simp
    from Cons.IH [OF this ok'] Cons.prems(3) True show ?thesis by simp
  next
    case False
    with ex' len magic show ?thesis by (auto split: if_splits)
  qed
qed simp


lemma device_ok_append: "device_ok f F pos (t @ u) \<Longrightarrow> device_ok f F pos t"
  by (induction t arbitrary: pos) (auto split: option.splits)

lemma type_in_xfs: "take 4 F = ''XFSB'' \<Longrightarrow> type_in g_file_systems F \<noteq> Some ''xfs''"
proof -
  assume F: "take 4 F = ''XFSB''"
  have "take 4 (store64 0x58465342) \<noteq> ''XFSB''" by code_simp
  with F show ?thesis by (auto simp: g_file_systems_def has_magic_def)
qed

section \<open>Which types are tried\<close>

definition lines_read :: "event list \<Rightarrow> string list" where
  "lines_read t = concat (map (\<lambda>e. case e of
     (Lib (Fgets l n), r) \<Rightarrow> if ret r = 0 then [] else [out r] | _ \<Rightarrow> []) t)"

definition mounts :: "event list \<Rightarrow> (string option \<times> bool) list" where
  "mounts t = concat (map (\<lambda>e. case e of
     (Kern (Mount s d type fl data), r) \<Rightarrow> [(type, ret r = 0)] | _ \<Rightarrow> []) t)"

lemma brute_append [simp]:
  "lines_read (t @ u) = lines_read t @ lines_read u" "mounts (t @ u) = mounts t @ mounts u"
  by (simp_all add: lines_read_def mounts_def)

lemma brute_events [simp]:
  "lines_read [] = []" "mounts [] = []"
  "lines_read ((Lib (Fgets l n), r) # t) = (if ret r = 0 then [] else [out r]) @ lines_read t"
  "lines_read ((Lib (Fopen p), r) # t) = lines_read t" "lines_read ((Lib (Fclose l), r) # t) = lines_read t"
  "lines_read ((Kern k, r) # t) = lines_read t" "mounts ((Lib x, r) # t) = mounts t"
  "mounts ((Kern (Mount s d type fl data), r) # t) = (type, ret r = 0) # mounts t"
  by (simp_all add: lines_read_def mounts_def)

text \<open>The types that need a device, as they stand in the lines that are read.\<close>

definition device_types :: "string list \<Rightarrow> string list" where
  "device_types ls = map (\<lambda>l. drop 1 (butlast l)) (filter (\<lambda>l. take 1 l = [CHR 0x09]) ls)"

lemma device_types_simps [simp]:
  "device_types [] = []" "device_types (ls @ ls') = device_types ls @ device_types ls'"
  "device_types [l] = (if take 1 l = [CHR 0x09] then [drop 1 (butlast l)] else [])"
  by (simp_all add: device_types_def)

definition tried_all :: "event list \<Rightarrow> bool \<Rightarrow> bool" where
  "tried_all t b \<longleftrightarrow> map fst (mounts t) = map Some (device_types (lines_read t)) \<and>
     map snd (mounts t) = (if b then replicate (length (mounts t) - 1) False @ [True]
                           else replicate (length (mounts t)) False)"

lemma tried_Nil [simp]: "tried_all t False \<Longrightarrow> mounts u = [] \<Longrightarrow> lines_read u = [] \<Longrightarrow> tried_all (t @ u) False"
  by (simp add: tried_all_def)

lemma tried_step:
  assumes "tried_all t False" and "take 1 l = [CHR 0x09]"
    and "lines_read u = [l]" and "mounts u = [(Some (drop 1 (butlast l)), b)]"
  shows "tried_all (t @ u) b"
  using assms by (auto simp: tried_all_def replicate_append_same)

lemma brute_round_wp:
  assumes "tried_all t False"
  shows "wp (brute_round s d fl data l u) (\<lambda>t' z. case z of
      Returned (Inl _) \<Rightarrow> tried_all t' False | Returned (Inr b) \<Rightarrow> tried_all t' b | Halted h \<Rightarrow> False) t"
proof -
  have mount: "tried_all (t @ [(Lib (Fgets l n), r), (Kern (Mount s d (Some (drop 1 (butlast (out r)))) fl data), m)]) b"
    if "ret r \<noteq> 0" "take 1 (out r) = [CHR 0x09]" "b = (ret m = 0)" for r b m n
    unfolding that(3) using that by (intro tried_step [OF assms that(2)]) simp_all
  have skip: "tried_all (t @ [(Lib (Fgets l n), r)]) False" if "ret r = 0 \<or> take 1 (out r) \<noteq> [CHR 0x09]" for r n
    using assms that by (auto simp: tried_all_def)
  note mounted = mount [of _ True] and refused = mount [of _ False]
  show ?thesis
    unfolding brute_round_def Let_def
    by (intro wp_intros) (simp_all add: mounted refused skip del: One_nat_def)
qed

lemma mount_brute_wp:
  "wp (mount_brute n s d fl data) (\<lambda>t z. \<forall>b. z = Returned b \<longrightarrow> tried_all t b) []"
proof -
  have "wp (loop n (brute_round s d fl data l) ()) (\<lambda>t z. \<forall>b. z = Returned b \<longrightarrow> tried_all t b)
      [(Lib (Fopen p), r)]" for l p r
    by (rule wp_loop [where I = "\<lambda>t u. tried_all t False"])
      (auto simp: tried_all_def [of "[_]"] intro!: wp_mono [OF brute_round_wp] split: outcome.splits sum.splits)
  then have "wp (bind (loop n (brute_round s d fl data l) ()) (\<lambda>b. Sys (Lib (Fclose l)) (\<lambda>_. Ret b)))
      (\<lambda>t z. \<forall>b. z = Returned b \<longrightarrow> tried_all t b) [(Lib (Fopen p), r)]" for l p r
    by (rule wp_bindI) (auto simp: tried_all_def)
  then show ?thesis
    unfolding mount_brute_def by (simp add: tried_all_def [of "[_]"])
qed

section \<open>Properties\<close>

text \<open>
  C32: the options between the commas become the flags of the known ones, joined, and the data
  is the unknown one, if there is one; two unknown options make the program copy a buffer onto
  itself, which is undefined.
\<close>

theorem mount_options:
  assumes "execs (parse_options options flags) t z" and "list_all (\<lambda>e. ret (snd e) \<noteq> 0) (take 2 t)"
  shows "if length (unknown_options (options_of options)) \<le> 1
    then \<exists>ptr. z = Returned (True, foldl (OR) flags (known_flags (options_of options)),
      Some (ptr, concat (unknown_options (options_of options))))
    else z = Halted Undefined"
proof -
  have parsed: "parse_tokens options flags [] =
      (if length (unknown_options (options_of options)) \<le> 1
       then Some (foldl (OR) flags (known_flags (options_of options)), concat (unknown_options (options_of options)))
       else None)"
    by (cases "unknown_options (options_of options)" rule: remdups_adj.cases)
      (auto simp: parse_tokens_reference Let_def tokens_eq_split options_of_def)
  show ?thesis
    using assms unfolding parse_options_def parsed
    by (auto simp: execs_Sys numeral_2_eq_2 split: if_splits)
qed

text \<open>
  C33: the guessed type is that of the first known file system whose magic bytes the device
  holds at their offset, and none when the device is too short; a real XFS volume, which begins
  with XFSB, is never recognized as one.
\<close>

theorem guess_type_magic:
  assumes "execs (guess_type path) ((File (Open path O_RDONLY 0), r) # t) z"
    and "ret r \<noteq> -1" and "device_ok (ret r) F 0 t"
  shows "z = Returned (type_in g_file_systems F) \<and> (take 4 F = ''XFSB'' \<longrightarrow> z \<noteq> Returned (Some ''xfs''))"
proof -
  from assms(1,2) have "execs (bind (guess_in g_file_systems (ret r))
      (\<lambda>file_system. Sys (File (Close (ret r))) (\<lambda>_. Ret file_system))) t z"
    by (simp add: guess_type_def execs_Sys)
  then have "z = Returned (type_in g_file_systems F)"
  proof (cases rule: execs_bindE)
    case (returned t1 t2 a)
    have "device_ok (ret r) F 0 t1" using assms(3) returned(1) device_ok_append by simp
    from guess_in_type [OF returned(2) this] returned(3) show ?thesis
      by (auto simp: g_file_systems_def execs_Sys)
  next
    case (halted h)
    from guess_in_type [OF halted(1) assms(3)] show ?thesis by (auto simp: g_file_systems_def)
  qed
  with type_in_xfs show ?thesis by simp
qed

theorem mount_brute_order:
  assumes "execs (mount_brute n source dest flags data) t (Returned b)"
  shows "map fst (mounts t) = map Some (device_types (lines_read t)) \<and>
    map snd (mounts t) = (if b then replicate (length (mounts t) - 1) False @ [True]
                          else replicate (length (mounts t)) False)"
  using execs_wp [OF assms mount_brute_wp] by (simp add: tried_all_def)


section \<open>Witnesses\<close>

theorem mount_options_witness:
  "\<exists>ptr. snd (run (parse_options ''ro,size=1m,,noexec'' 0) [returns 5, returns 6, returns 0]) =
     Returned (True, 9, Some (ptr, ''size=1m''))"
proof -
  let ?p = "parse_options ''ro,size=1m,,noexec'' 0" and ?rs = "[returns 5, returns 6, returns 0]"
  have "plays ?p ?rs" by code_simp
  then have ex: "execs ?p (fst (run ?p ?rs)) (snd (run ?p ?rs))" by (rule run_plays)
  have ok: "list_all (\<lambda>e. ret (snd e) \<noteq> 0) (take 2 (fst (run ?p ?rs)))" by code_simp
  have os: "known_flags (options_of ''ro,size=1m,,noexec'') = [1, 8]"
    "unknown_options (options_of ''ro,size=1m,,noexec'') = [''size=1m'']" by code_simp+
  have "foldl (OR) 0 [1, 8] = (9 :: u32)" by simp
  with mount_options [OF ex ok] show ?thesis unfolding os by simp
qed

text \<open>A squashfs image that is longer than the first superblock of ext4 is far into the device.\<close>

definition squashfs_image :: buffer where
  "squashfs_image = ''hsqs'' @ replicate 1100 NUL"

definition guess_replies :: "reply list" where
  "guess_replies = [returns 1080, delivers [NUL, NUL], returns 0, delivers ''hsqs'', returns 0, delivers ''hsqs'', returns 0]"

theorem guess_type_magic_witness: "type_in g_file_systems squashfs_image = Some ''squashfs''"
proof -
  let ?p = "guess_type ''/dev/sda''"
  let ?t = "fst (run ?p (returns 3 # guess_replies))"
  have z: "snd (run ?p (returns 3 # guess_replies)) = Returned (Some ''squashfs'')" by code_simp
  then have "execs ?p ?t (Returned (Some ''squashfs''))" by (rule run_trace) simp
  moreover have t: "?t = (File (Open ''/dev/sda'' O_RDONLY 0), returns 3) # tl ?t"
    by (simp add: guess_type_def split: prod.split)
  ultimately have ex: "execs ?p ((File (Open ''/dev/sda'' O_RDONLY 0), returns 3) # tl ?t)
      (Returned (Some ''squashfs''))" by simp
  have "device_ok 3 squashfs_image 0 (tl ?t)" by code_simp
  then have "device_ok (ret (returns 3)) squashfs_image 0 (tl ?t)" by simp
  from guess_type_magic [OF ex _ this] show ?thesis by simp
qed

theorem mount_brute_order_witness:
  "map fst (mounts (fst (run (mount_brute 3 ''a'' ''b'' 0 None) [returns 7, (returns 1)\<lparr>out := ''nodev'' @ [CHR 0x09]\<rparr>,
     (returns 1)\<lparr>out := CHR 0x09 # ''ext4'' @ [CHR 0x0A]\<rparr>, returns 0, returns 0]))) = [Some ''ext4'']"
proof -
  let ?p = "mount_brute 3 ''a'' ''b'' 0 None"
  let ?rs = "[returns 7, (returns 1)\<lparr>out := ''nodev'' @ [CHR 0x09]\<rparr>,
     (returns 1)\<lparr>out := CHR 0x09 # ''ext4'' @ [CHR 0x0A]\<rparr>, returns 0, returns 0]"
  have "snd (run ?p ?rs) = Returned True" by code_simp
  then have ex: "execs ?p (fst (run ?p ?rs)) (Returned True)" by (rule run_trace) simp
  have "device_types (lines_read (fst (run ?p ?rs))) = [''ext4'']" by code_simp
  with mount_brute_order [OF ex] show ?thesis by simp
qed

end
