(* ===== verification/Init.thy ===== *)
theory Init
  imports Daemon Monitor
begin

text \<open>
  \<^verbatim>\<open>init.c\<close>, and the programs that talk to it or to the kernel about the state of the system:
  \<^verbatim>\<open>poweroff.c\<close>, \<^verbatim>\<open>reboot.c\<close> and \<^verbatim>\<open>suspend.c\<close>.
\<close>

section \<open>Constants\<close>

text \<open>\<^verbatim>\<open>CONF_DIR\<close> is \<^verbatim>\<open>/etc\<close> unless the build says otherwise.\<close>

definition INIT_SCRIPT_PATH :: string where "INIT_SCRIPT_PATH = ''/etc/rc.d/rc.sysinit''"
definition SHUTDOWN_SCRIPT_PATH :: string where "SHUTDOWN_SCRIPT_PATH = ''/etc/rc.d/rc.shutdown''"

abbreviation (input) RB_POWER_OFF :: u32 where "RB_POWER_OFF \<equiv> 0x4321FEDC"
abbreviation (input) RB_AUTOBOOT :: u32 where "RB_AUTOBOOT \<equiv> 0x01234567"

text \<open>\<^verbatim>\<open>PRINT\<close> writes the terminating null byte of its literal as well.\<close>

definition println :: "string \<Rightarrow> syscall" where
  "println s = Lib (Print (s @ [CHR 0x0A, NUL]))"

section \<open>init\<close>

text \<open>The result of \<^verbatim>\<open>_run_script\<close> and the value of \<^verbatim>\<open>*pid\<close>.\<close>

definition run_script :: "string \<Rightarrow> (bool \<times> int) prog" where
  "run_script path =
     Sys (Proc Getpid) (\<lambda>parent_pid.
     bind daemon_fork (\<lambda>pid.
       if pid = -1 then Ret (False, pid)
       else if pid = 0 then
         exec_or path [path]
           (Sys (Signal (Kill (ret parent_pid) SIGTERM)) (\<lambda>_. Ret (False, pid)))
       else Ret (True, pid)))"

definition init_flush :: "signal \<Rightarrow> int \<Rightarrow> int prog" where
  "init_flush si_signo exit_code =
     Sys (println ''Flushing file system buffers'') (\<lambda>_.
     Sys (Kern Sync) (\<lambda>_.
       if si_signo = SIGUSR1 then
         Sys (println ''Shutting down'') (\<lambda>_. Sys (Kern (Reboot RB_POWER_OFF)) (\<lambda>_. Ret exit_code))
       else if si_signo = SIGUSR2 then
         Sys (println ''Rebooting'') (\<lambda>_. Sys (Kern (Reboot RB_AUTOBOOT)) (\<lambda>_. Ret exit_code))
       else Ret exit_code))"

definition init_shutdown_script :: "unit prog" where
  "init_shutdown_script =
     Sys (Signal Sigemptyset) (\<lambda>r. if ret r = -1 then Ret () else
     Sys (Signal (Sigaction SIGCHLD 0)) (\<lambda>r. if ret r = -1 then Ret () else
     Sys (println ''Running the shutdown script'') (\<lambda>_.
     bind (run_script SHUTDOWN_SCRIPT_PATH) (\<lambda>(ok, pid).
       if ok then Sys (Proc (Waitpid pid False)) (\<lambda>_. Ret ()) else Ret ()))))"

definition init_terminate :: "unit prog" where
  "init_terminate =
     Sys (println ''Terminating all processes'') (\<lambda>_.
     Sys (Signal (Kill (-1) SIGTERM)) (\<lambda>r.
       if ret r = 0 then
         Sys (Signal (Sleep 2)) (\<lambda>_. Sys (Signal (Kill (-1) SIGKILL)) (\<lambda>_. Ret ()))
       else Ret ()))"

text \<open>
  \<^verbatim>\<open>sigwaitinfo(2)\<close> returns the number of the signal, which is compared with 0; when it fails
  \<^verbatim>\<open>received_signal\<close> keeps its zeros.
\<close>

definition init_serve :: "int \<Rightarrow> int prog" where
  "init_serve script_pid =
     Sys (Signal (Sigwaitinfo [SIGUSR1, SIGUSR2])) (\<lambda>w.
       (let si_signo = (if ret w = -1 then SIGOTHER 0 else signo w);
            exit_code = (if 0 = ret w \<and> script_pid \<noteq> si_pid w then EXIT_SUCCESS else EXIT_FAILURE) in
        bind init_terminate (\<lambda>_.
        bind init_shutdown_script (\<lambda>_. init_flush si_signo exit_code))))"

definition init_main :: "int prog" where
  "init_main =
     Sys (Signal Sigemptyset) (\<lambda>r. if ret r = -1 then Ret EXIT_FAILURE else
     Sys (Signal (Sigaction SIGCHLD (SA_NOCLDWAIT OR SA_NOCLDSTOP))) (\<lambda>r.
       if ret r = -1 then Ret EXIT_FAILURE else
     Sys (Signal (Sigaddset SIGUSR1)) (\<lambda>r. if ret r = -1 then Ret EXIT_FAILURE else
     Sys (Signal (Sigaddset SIGUSR2)) (\<lambda>r. if ret r = -1 then Ret EXIT_FAILURE else
     Sys (Signal (Sigprocmask [SIGUSR1, SIGUSR2])) (\<lambda>r. if ret r = -1 then Ret EXIT_FAILURE else
     bind (run_script INIT_SCRIPT_PATH) (\<lambda>(ok, script_pid).
       if \<not> ok then Ret EXIT_FAILURE else init_serve script_pid))))))"

section \<open>poweroff, reboot, suspend\<close>

definition poweroff_main :: "int \<Rightarrow> int prog" where
  "poweroff_main argc =
     (if argc \<noteq> 1 then Sys (println ''Usage: poweroff'') (\<lambda>_. Ret EXIT_FAILURE) else
      Sys (Signal (Kill 1 SIGUSR1)) (\<lambda>r. Ret (if ret r = -1 then EXIT_FAILURE else EXIT_SUCCESS)))"

definition reboot_main :: "int \<Rightarrow> int prog" where
  "reboot_main argc =
     (if argc \<noteq> 1 then Sys (println ''Usage: reboot'') (\<lambda>_. Ret EXIT_FAILURE) else
      Sys (Signal (Kill 1 SIGUSR2)) (\<lambda>r. Ret (if ret r = -1 then EXIT_FAILURE else EXIT_SUCCESS)))"

definition suspend_main :: "int \<Rightarrow> int prog" where
  "suspend_main argc =
     (if argc \<noteq> 1 then Sys (println ''Usage: suspend'') (\<lambda>_. Ret EXIT_FAILURE) else
      Sys (File (Open ''/sys/power/state'' O_WRONLY 0)) (\<lambda>f. if ret f = -1 then Ret EXIT_FAILURE else
      Sys (File (Write (ret f) ''mem'' 3)) (\<lambda>w.
      Sys (File (Close (ret f))) (\<lambda>_. Ret (if 3 \<noteq> ret w then EXIT_FAILURE else EXIT_SUCCESS)))))"

section \<open>How the system goes down\<close>

definition reboots :: "syscall \<Rightarrow> bool" where
  "reboots c \<longleftrightarrow> (case c of Kern (Reboot x) \<Rightarrow> True | _ \<Rightarrow> False)"

definition awaits :: "syscall \<Rightarrow> bool" where
  "awaits c \<longleftrightarrow> (case c of Signal (Sigwaitinfo m) \<Rightarrow> True | _ \<Rightarrow> False)"

lemma reboots_simps [simp]:
  "\<not> reboots (Signal h)" "\<not> reboots (Proc p)" "\<not> reboots (Lib l)" "\<not> reboots (println s)"
  "\<not> awaits (Proc p)" "\<not> awaits (Lib l)" "\<not> awaits (Kern k)" "\<not> awaits (println s)"
  "awaits (Signal (Sigwaitinfo m))" "\<not> awaits (Signal Sigemptyset)" "\<not> awaits (Signal (Sigaddset g))"
  "\<not> awaits (Signal (Sigaction g fl))" "\<not> awaits (Signal (Sigprocmask ms))" "\<not> awaits (Signal (Kill i g))"
  "\<not> awaits (Signal (Sleep n))"
  by (simp_all add: reboots_def awaits_def println_def)

abbreviation (input) neither :: "syscall \<Rightarrow> bool" where
  "neither c \<equiv> \<not> reboots c \<and> \<not> awaits c"

lemma neither_run_script: "issues_only neither (run_script path)"
  unfolding run_script_def daemon_fork_def by (intro issues_intros) simp_all

lemma neither_terminate: "issues_only neither init_terminate"
  unfolding init_terminate_def by (intro issues_intros) simp_all

lemma neither_shutdown_script: "issues_only neither init_shutdown_script"
  unfolding init_shutdown_script_def by (intro issues_intros neither_run_script) simp_all

lemma not_awaits_flush: "issues_only (\<lambda>c. \<not> awaits c) (init_flush g x)"
  unfolding init_flush_def by (intro issues_intros) simp_all

text \<open>The last calls, by the signal that was received.\<close>

definition last_calls :: "signal \<Rightarrow> syscall list" where
  "last_calls g = [println ''Flushing file system buffers'', Kern Sync] @
     (if g = SIGUSR1 then [println ''Shutting down'', Kern (Reboot RB_POWER_OFF)]
      else if g = SIGUSR2 then [println ''Rebooting'', Kern (Reboot RB_AUTOBOOT)] else [])"

lemma init_flush_calls: "execs (init_flush g x) t z \<Longrightarrow> map fst t = last_calls g \<and> z = Returned x"
  by (auto simp: init_flush_def last_calls_def execs_Sys split: if_splits)

lemma terminate_first:
  "execs init_terminate t z \<Longrightarrow> (\<exists>k. (Signal (Kill (-1) SIGTERM), k) \<in> set t) \<and> z = Returned ()"
  by (auto simp: init_terminate_def execs_Sys split: if_splits)

lemma init_serve_calls:
  assumes "execs (init_serve pid) t (Returned x)"
  shows "\<exists>w u v. t = (Signal (Sigwaitinfo [SIGUSR1, SIGUSR2]), w) # u @ v \<and>
    (\<exists>k. (Signal (Kill (-1) SIGTERM), k) \<in> set u) \<and> list_all (\<lambda>e. neither (fst e)) u \<and>
    map fst v = last_calls (if ret w = -1 then SIGOTHER 0 else signo w)"
proof -
  from assms obtain w t' where t: "t = (Signal (Sigwaitinfo [SIGUSR1, SIGUSR2]), w) # t'"
    and ex: "execs (bind init_terminate (\<lambda>_. bind init_shutdown_script (\<lambda>_.
      init_flush (if ret w = -1 then SIGOTHER 0 else signo w)
        (if 0 = ret w \<and> pid \<noteq> si_pid w then EXIT_SUCCESS else EXIT_FAILURE)))) t' (Returned x)"
    unfolding init_serve_def execs_Sys Let_def by blast
  from ex obtain t1 t2 where t': "t' = t1 @ t2" and ex1: "execs init_terminate t1 (Returned ())"
    and ex2: "execs (bind init_shutdown_script (\<lambda>_.
      init_flush (if ret w = -1 then SIGOTHER 0 else signo w)
        (if 0 = ret w \<and> pid \<noteq> si_pid w then EXIT_SUCCESS else EXIT_FAILURE))) t2 (Returned x)"
    by (rule execs_bind_ReturnedE) simp
  from ex2 obtain t3 v where t2: "t2 = t3 @ v" and ex3: "execs init_shutdown_script t3 (Returned ())"
    and ex4: "execs (init_flush (if ret w = -1 then SIGOTHER 0 else signo w)
        (if 0 = ret w \<and> pid \<noteq> si_pid w then EXIT_SUCCESS else EXIT_FAILURE)) v (Returned x)"
    by (rule execs_bind_ReturnedE) simp
  have "list_all (\<lambda>e. neither (fst e)) (t1 @ t3)"
    using issues_onlyD [OF ex1 neither_terminate] issues_onlyD [OF ex3 neither_shutdown_script]
    by (auto simp: list_all_iff)
  with terminate_first [OF ex1] init_flush_calls [OF ex4] t t' t2 show ?thesis
    by (intro exI [of _ w] exI [of _ "t1 @ t3"] exI [of _ v]) auto
qed

lemma last_calls_await: "map fst v = last_calls g \<Longrightarrow> e \<in> set v \<Longrightarrow> \<not> awaits (fst e)"
proof -
  assume "map fst v = last_calls g" and "e \<in> set v"
  then have "fst e \<in> set (last_calls g)" by (metis image_eqI list.set_map)
  then show ?thesis by (auto simp: last_calls_def split: if_splits)
qed

text \<open>What is to be shown of a trace that delivers \<open>w\<close>.\<close>

definition goes_down :: "event list \<Rightarrow> reply \<Rightarrow> bool" where
  "goes_down t w \<longleftrightarrow> (\<exists>u v k. t = u @ v \<and> (Signal (Kill (-1) SIGTERM), k) \<in> set u \<and>
     list_all (\<lambda>e. \<not> reboots (fst e)) u \<and> map fst v = last_calls (if ret w = -1 then SIGOTHER 0 else signo w))"

definition obeys :: "event list \<Rightarrow> int outcome \<Rightarrow> bool" where
  "obeys t z \<longleftrightarrow> (\<forall>x m w. z = Returned x \<and> (Signal (Sigwaitinfo m), w) \<in> set t \<longrightarrow> goes_down t w)"

lemma obeys_neither: "list_all (\<lambda>e. neither (fst e)) t \<Longrightarrow> obeys t z"
  by (fastforce simp: obeys_def list_all_iff)

lemma init_serve_obeys:
  assumes "list_all (\<lambda>e. neither (fst e)) t"
  shows "wp (init_serve pid) obeys t"
proof (rule wpI)
  fix t' z assume ex: "execs (init_serve pid) t' z"
  show "obeys (t @ t') z"
    unfolding obeys_def
  proof (intro allI impI, elim conjE)
    fix x m w
    assume z: "z = Returned x" and w: "(Signal (Sigwaitinfo m), w) \<in> set (t @ t')"
    from init_serve_calls [OF ex [unfolded z]] obtain w' u v k where
      t': "t' = (Signal (Sigwaitinfo [SIGUSR1, SIGUSR2]), w') # u @ v"
      and u: "(Signal (Kill (-1) SIGTERM), k) \<in> set u" "list_all (\<lambda>e. neither (fst e)) u"
      and v: "map fst v = last_calls (if ret w' = -1 then SIGOTHER 0 else signo w')" by blast
    have "w = w'"
      using w assms u(2) last_calls_await [OF v] unfolding t' by (fastforce simp: list_all_iff)
    moreover have "list_all (\<lambda>e. \<not> reboots (fst e)) (t @ (Signal (Sigwaitinfo [SIGUSR1, SIGUSR2]), w') # u)"
      using assms u(2) by (auto simp: list_all_iff)
    ultimately show "goes_down (t @ t') w"
      unfolding goes_down_def using u(1) v t'
      by (intro exI [of _ "t @ (Signal (Sigwaitinfo [SIGUSR1, SIGUSR2]), w') # u"] exI [of _ v] exI [of _ k]) simp
  qed
qed

lemma init_main_obeys: "wp init_main obeys []"
proof -
  let ?serve = "\<lambda>(ok, script_pid). if \<not> ok then Ret EXIT_FAILURE else init_serve script_pid"
  have "wp (bind (run_script INIT_SCRIPT_PATH) ?serve) obeys t" if "list_all (\<lambda>e. neither (fst e)) t" for t
  proof (rule wp_bindI)
    show "wp (run_script INIT_SCRIPT_PATH) (\<lambda>t z. list_all (\<lambda>e. neither (fst e)) t) t"
      by (rule issues_only_wp [OF neither_run_script that])
  qed (auto intro: init_serve_obeys obeys_neither)
  then show ?thesis
    unfolding init_main_def by (intro wp_ifI wp_SysI wp_RetI obeys_neither) simp_all
qed

lemma init_main_down:
  "execs init_main t (Returned x) \<Longrightarrow> (Signal (Sigwaitinfo m), w) \<in> set t \<Longrightarrow> goes_down t w"
  using execs_wp [OF _ init_main_obeys] unfolding obeys_def by blast

section \<open>Properties\<close>

text \<open>
  C34: init first tells all processes to terminate and never reboots before its last calls,
  which flush the file systems and then power off for SIGUSR1, reboot for SIGUSR2 and do
  nothing for anything else.
\<close>

theorem init_goes_down:
  assumes "execs init_main t (Returned x)" and "(Signal (Sigwaitinfo m), w) \<in> set t"
  shows "\<exists>u v k. t = u @ v \<and> (Signal (Kill (-1) SIGTERM), k) \<in> set u \<and>
    list_all (\<lambda>e. \<not> reboots (fst e)) u \<and> map fst v = last_calls (if ret w = -1 then SIGOTHER 0 else signo w)"
  using init_main_down [OF assms] by (simp add: goes_down_def)

text \<open>
  C35: the signals poweroff and reboot send are the ones init turns into power-off and restart.
\<close>

theorem shutdown_requests:
  assumes "execs (poweroff_main 1) p (Returned EXIT_SUCCESS)" and "execs (reboot_main 1) q (Returned EXIT_SUCCESS)"
    and "execs init_main t (Returned x)" and "(Signal (Sigwaitinfo m), w) \<in> set t" and "ret w \<noteq> -1"
  shows "((Signal (Kill 1 (signo w)), k) \<in> set p \<longrightarrow> fst (last t) = Kern (Reboot RB_POWER_OFF)) \<and>
    ((Signal (Kill 1 (signo w)), k) \<in> set q \<longrightarrow> fst (last t) = Kern (Reboot RB_AUTOBOOT))"
proof -
  from init_main_down [OF assms(3,4)] assms(5) obtain u v where
    t: "t = u @ v" "map fst v = last_calls (signo w)" unfolding goes_down_def by auto
  from t(2) have "v \<noteq> []" by (auto simp: last_calls_def)
  with t(2) have last: "v \<noteq> [] \<and> fst (last v) = last (last_calls (signo w))"
    by (metis last_map)
  have sent: "signo w = SIGUSR1" if "(Signal (Kill 1 (signo w)), k) \<in> set p"
    using assms(1) that by (auto simp: poweroff_main_def execs_Sys)
  have sent': "signo w = SIGUSR2" if "(Signal (Kill 1 (signo w)), k) \<in> set q"
    using assms(2) that by (auto simp: reboot_main_def execs_Sys)
  from last t(1) sent sent' show ?thesis by (auto simp: last_calls_def)
qed

section \<open>Witnesses\<close>

definition init_replies1 :: "signal \<Rightarrow> reply list" where
  "init_replies1 g = replicate 6 (returns 0) @ [returns 0, returns 20, (returns 10)\<lparr>signo := g\<rparr>] @
     replicate 9 (returns 0) @ [returns 30] @ replicate 5 (returns 0)"

definition init_example :: "signal \<Rightarrow> event list" where
  "init_example g = fst (run init_main (init_replies1 g))"

lemma init_example_execs:
  "execs init_main (init_example SIGUSR1) (Returned EXIT_FAILURE)"
  unfolding init_example_def by (rule run_trace) (code_simp, simp)

lemma init_example_signal:
  "(Signal (Sigwaitinfo [SIGUSR1, SIGUSR2]), (returns 10)\<lparr>signo := SIGUSR1\<rparr>) \<in> set (init_example SIGUSR1)"
proof -
  have "init_example SIGUSR1 ! 8 = (Signal (Sigwaitinfo [SIGUSR1, SIGUSR2]), (returns 10)\<lparr>signo := SIGUSR1\<rparr>)"
    "8 < length (init_example SIGUSR1)" by code_simp+
  then show ?thesis by (metis nth_mem)
qed

theorem init_goes_down_witness:
  "\<exists>u v. init_example SIGUSR1 = u @ v \<and> map fst v = last_calls SIGUSR1"
  using init_goes_down [OF init_example_execs init_example_signal] by auto

theorem shutdown_requests_witness:
  "fst (last (init_example SIGUSR1)) = Kern (Reboot RB_POWER_OFF)"
proof -
  let ?p = "[(Signal (Kill 1 SIGUSR1), returns 0)]" and ?q = "[(Signal (Kill 1 SIGUSR2), returns 0)]"
  have "execs (poweroff_main 1) ?p (Returned EXIT_SUCCESS)" "execs (reboot_main 1) ?q (Returned EXIT_SUCCESS)"
    by (simp_all add: poweroff_main_def reboot_main_def execs_Sys)
  from shutdown_requests [OF this init_example_execs init_example_signal, of "returns 0"] show ?thesis by simp
qed

end
