(* ===== verification/Login.thy ===== *)
theory Login
  imports Daemon Monitor
begin

text \<open>
  \<^verbatim>\<open>autologin.c\<close>, \<^verbatim>\<open>odus.c\<close> and \<^verbatim>\<open>cttyhack.c\<close>: programs that set a process up and replace it
  with another program. What matters is what has happened, successfully, before that program
  runs.
\<close>

section \<open>autologin\<close>

definition USAGE_autologin :: string where "USAGE_autologin = ''Usage: autologin USER'' @ [CHR 0x0A, NUL]"

text \<open>\<^verbatim>\<open>CONF_DIR\<close> is \<^verbatim>\<open>/etc\<close> unless the build says otherwise.\<close>

definition ISSUE_PATH :: string where "ISSUE_PATH = ''/etc/issue''"
definition MOTD_PATH :: string where "MOTD_PATH = ''/etc/motd''"

text \<open>The stages of \<^verbatim>\<open>main\<close>; each continues with \<open>k\<close> or leaves with \<open>False\<close>.\<close>

definition print_file :: "fd \<Rightarrow> nat \<Rightarrow> bool prog \<Rightarrow> bool prog" where
  "print_file f size0 k =
     Sys (File (Sendfile STDOUT_FILENO f size0)) (\<lambda>r. if int size0 \<noteq> ret r then Ret False else k)"

definition login_environment :: "passwd \<Rightarrow> bool prog \<Rightarrow> bool prog" where
  "login_environment details k =
     Sys (Proc (Setenv ''USER'' (pw_name details))) (\<lambda>r. if ret r = -1 then Ret False else
     Sys (Proc (Setenv ''HOME'' (pw_dir details))) (\<lambda>r. if ret r = -1 then Ret False else
     Sys (Proc (Setenv ''SHELL'' (pw_shell details))) (\<lambda>r. if ret r = -1 then Ret False else k)))"

definition change_owner :: "int \<Rightarrow> int \<Rightarrow> 'a \<Rightarrow> 'a prog \<Rightarrow> 'a prog" where
  "change_owner gid uid failure k =
     Sys (Proc (Setgid gid)) (\<lambda>r. if ret r = -1 then Ret failure else
     Sys (Proc (Setegid gid)) (\<lambda>r. if ret r = -1 then Ret failure else
     Sys (Proc (Setuid uid)) (\<lambda>r. if ret r = -1 then Ret failure else
     Sys (Proc (Seteuid uid)) (\<lambda>r. if ret r = -1 then Ret failure else k))))"

definition login_greet :: "passwd \<Rightarrow> fd \<Rightarrow> nat \<Rightarrow> bool prog" where
  "login_greet details motd motd_size =
     Sys (Lib (Openlog ''autologin'')) (\<lambda>_.
     bind (Sys (Proc (Chdir (pw_dir details))) (\<lambda>r. if ret r = -1 then Ret False else
       Sys (Lib (Syslog LOG_INFO (''automatically logging '' @ pw_name details @ '' with '' @ pw_shell details))) (\<lambda>_.
         if motd_size = 0 then Ret True else print_file motd motd_size (Ret True)))) (\<lambda>success.
     Sys (Lib Closelog) (\<lambda>_. Ret success)))"

definition login_session :: "passwd \<Rightarrow> fd \<Rightarrow> nat \<Rightarrow> fd \<Rightarrow> nat \<Rightarrow> bool prog" where
  "login_session details issue issue_size motd motd_size =
     (let session = login_environment details
            (change_owner (pw_gid details) (pw_uid details) False (login_greet details motd motd_size)) in
      if 0 < issue_size then print_file issue issue_size session else session)"

definition login_files :: "passwd \<Rightarrow> bool prog" where
  "login_files details =
     Sys (File (Stat ISSUE_PATH)) (\<lambda>i. if ret i = -1 then Ret False else
     Sys (File (Stat MOTD_PATH)) (\<lambda>m. if ret m = -1 then Ret False else
     Sys (File (Open ISSUE_PATH O_RDONLY 0)) (\<lambda>issue. if ret issue = -1 then Ret False else
     Sys (File (Open MOTD_PATH O_RDONLY 0)) (\<lambda>motd.
       if ret motd = -1 then Sys (File (Close (ret issue))) (\<lambda>_. Ret False) else
     bind (login_session details (ret issue) (st_size i) (ret motd) (st_size m)) (\<lambda>success.
     Sys (File (Close (ret motd))) (\<lambda>_.
     Sys (File (Close (ret issue))) (\<lambda>_. Ret success)))))))"

definition autologin_main :: "string list \<Rightarrow> int prog" where
  "autologin_main argv =
     (if length argv \<noteq> 2 then Sys (Lib (Print USAGE_autologin)) (\<lambda>_. Ret EXIT_FAILURE) else
     Sys (Proc Geteuid) (\<lambda>e. if ret e \<noteq> 0 then Ret EXIT_FAILURE else
     Sys (Lib (Getpwnam (argv ! 1))) (\<lambda>u. if ret u = 0 then Ret EXIT_FAILURE else
     bind (login_files (account u)) (\<lambda>success.
       if success then
         exec_or (pw_shell (account u)) [pw_shell (account u), ''-l''] (Ret EXIT_FAILURE)
       else Ret EXIT_FAILURE))))"

section \<open>odus\<close>

definition USAGE_odus :: string where "USAGE_odus = ''Usage: odus COMMAND...'' @ [CHR 0x0A, NUL]"
definition USER :: string where "USER = ''someone''"
definition GROUP :: string where "GROUP = ''someone''"
definition odus_NAMESPACES :: u32 where
  "odus_NAMESPACES = (CLONE_NEWIPC OR CLONE_NEWNS OR CLONE_NEWUTS)"

definition odus_environment :: "passwd \<Rightarrow> int prog \<Rightarrow> int prog" where
  "odus_environment user k =
     Sys (Proc (Setenv ''USER'' (pw_name user))) (\<lambda>r. if ret r = -1 then Ret EXIT_FAILURE else
     Sys (Proc (Setenv ''LOGNAME'' (pw_name user))) (\<lambda>r. if ret r = -1 then Ret EXIT_FAILURE else
     Sys (Proc (Setenv ''HOME'' (pw_dir user))) (\<lambda>r. if ret r = -1 then Ret EXIT_FAILURE else
     Sys (Proc (Setenv ''SHELL'' (pw_shell user))) (\<lambda>r. if ret r = -1 then Ret EXIT_FAILURE else k))))"

definition odus_main :: "string list \<Rightarrow> int prog" where
  "odus_main argv =
     (if 2 > length argv then Sys (Lib (Print USAGE_odus)) (\<lambda>_. Ret EXIT_FAILURE) else
     Sys (Lib (Getpwnam USER)) (\<lambda>u. if ret u = 0 then Ret EXIT_FAILURE else
     Sys (Lib (Getgrnam GROUP)) (\<lambda>g. if ret g = 0 then Ret EXIT_FAILURE else
     odus_environment (account u)
       (Sys (Proc (Chdir (pw_dir (account u)))) (\<lambda>r. if ret r = -1 then Ret EXIT_FAILURE else
        Sys (Proc (Unshare odus_NAMESPACES)) (\<lambda>r. if ret r = -1 then Ret EXIT_FAILURE else
        change_owner (gr_gid g) (pw_uid (account u)) EXIT_FAILURE
          (exec_or (argv ! 1) (drop 1 argv) (Ret EXIT_FAILURE))))))))"

section \<open>cttyhack\<close>

definition CONSOLE_DEVICE :: string where "CONSOLE_DEVICE = ''/dev/console''"
definition USAGE_cttyhack :: string where "USAGE_cttyhack = ''Usage: cttyhack COMMAND'' @ [CHR 0x0A, NUL]"

definition attach_console :: "fd \<Rightarrow> bool prog" where
  "attach_console console_fd =
     Sys (File (Ioctl console_fd TIOCSCTTY)) (\<lambda>r. if ret r = -1 then Ret False else
     Sys (File (Dup2 console_fd STDIN_FILENO)) (\<lambda>r. if ret r = -1 then Ret False else
     Sys (File (Dup2 console_fd STDOUT_FILENO)) (\<lambda>r. if ret r = -1 then Ret False else
     Sys (File (Dup2 console_fd STDERR_FILENO)) (\<lambda>r. if ret r = -1 then Ret False else Ret True))))"

definition cttyhack_main :: "string list \<Rightarrow> int prog" where
  "cttyhack_main argv =
     (if 2 > length argv then Sys (Lib (Print USAGE_cttyhack)) (\<lambda>_. Ret EXIT_FAILURE) else
     Sys (Proc Setsid) (\<lambda>r. if ret r = -1 then Ret EXIT_FAILURE else
     Sys (File (Open CONSOLE_DEVICE O_RDWR 0)) (\<lambda>c. if ret c = -1 then Ret EXIT_FAILURE else
     bind (attach_console (ret c)) (\<lambda>ok.
     Sys (File (Close (ret c))) (\<lambda>_.
       if ok then exec_or (argv ! 1) (drop 1 argv) (Ret EXIT_FAILURE) else Ret EXIT_FAILURE)))))"

section \<open>Before the program runs\<close>

text \<open>The calls that change the owner of the process, the group first, all of them successful.\<close>

definition owner_calls :: "int \<Rightarrow> int \<Rightarrow> syscall list" where
  "owner_calls gid uid = [Proc (Setgid gid), Proc (Setegid gid), Proc (Setuid uid), Proc (Seteuid uid)]"

definition changes_owner :: "syscall \<Rightarrow> bool" where
  "changes_owner c \<longleftrightarrow> (case c of Proc (Setgid g) \<Rightarrow> True | Proc (Setegid g) \<Rightarrow> True
     | Proc (Setuid u) \<Rightarrow> True | Proc (Seteuid u) \<Rightarrow> True | _ \<Rightarrow> False)"

definition odus_ready :: "string list \<Rightarrow> event list \<Rightarrow> string \<Rightarrow> string list \<Rightarrow> bool" where
  "odus_ready argv u f a \<longleftrightarrow> f = argv ! 1 \<and> a = drop 1 argv \<and>
     (\<exists>usr grp u'. u = (Lib (Getpwnam USER), usr) # (Lib (Getgrnam GROUP), grp) # u' \<and> ret usr \<noteq> 0 \<and> ret grp \<noteq> 0 \<and>
       all_done ([Proc (Setenv ''USER'' (pw_name (account usr))), Proc (Setenv ''LOGNAME'' (pw_name (account usr))),
         Proc (Setenv ''HOME'' (pw_dir (account usr))), Proc (Setenv ''SHELL'' (pw_shell (account usr))),
         Proc (Chdir (pw_dir (account usr))), Proc (Unshare odus_NAMESPACES)] @
         owner_calls (gr_gid grp) (pw_uid (account usr))) u')"

lemma odus_main_wp: "wp (odus_main argv) (\<lambda>t z. runs_after (odus_ready argv) t) []"
  unfolding odus_main_def odus_environment_def change_owner_def
  by (intro wp_intros;
      (rule runs_after_last, simp add: executes_def,
       simp add: odus_ready_def all_done_def owner_calls_def
       | rule runs_after_none, simp add: executes_def))

definition login_ready :: "string list \<Rightarrow> event list \<Rightarrow> string \<Rightarrow> string list \<Rightarrow> bool" where
  "login_ready argv u f a \<longleftrightarrow> (\<exists>d. (Lib (Getpwnam (argv ! 1)), d) \<in> set u \<and> ret d \<noteq> 0 \<and>
     f = pw_shell (account d) \<and> a = [f, ''-l''] \<and>
     all_done (owner_calls (pw_gid (account d)) (pw_uid (account d))) (filter (\<lambda>e. changes_owner (fst e)) u) \<and>
     open_fds u = {})"

lemma autologin_main_wp: "wp (autologin_main argv) (\<lambda>t z. runs_after (login_ready argv) t) []"
  unfolding autologin_main_def login_files_def login_session_def login_environment_def change_owner_def
    login_greet_def print_file_def Let_def
  using open_fds_append [of "[]"]
  apply (intro wp_intros)
  apply (rule runs_after_last, simp add: executes_def,
      simp add: login_ready_def all_done_def owner_calls_def changes_owner_def; fail
    | rule runs_after_none, simp add: executes_def; fail)+
  done

definition console_ready :: "string list \<Rightarrow> event list \<Rightarrow> string \<Rightarrow> string list \<Rightarrow> bool" where
  "console_ready argv u f a \<longleftrightarrow> f = argv ! 1 \<and> a = drop 1 argv \<and>
     (\<exists>c u' r. u = u' @ [(File (Close c), r)] \<and>
       all_done [Proc Setsid, File (Open CONSOLE_DEVICE O_RDWR 0), File (Ioctl c TIOCSCTTY),
         File (Dup2 c STDIN_FILENO), File (Dup2 c STDOUT_FILENO), File (Dup2 c STDERR_FILENO)] u')"

lemma cttyhack_main_wp: "wp (cttyhack_main argv) (\<lambda>t z. runs_after (console_ready argv) t) []"
  unfolding cttyhack_main_def attach_console_def
  by (intro wp_intros;
      (rule runs_after_last, simp add: executes_def,
       simp add: console_ready_def all_done_def
       | rule runs_after_none, simp add: executes_def))


section \<open>Properties\<close>

text \<open>
  C36: odus runs the command it was given only after it has moved to the home directory, left
  the namespaces and taken over the group and then the user identity of someone, each call
  successfully.
\<close>

theorem odus_drops_privileges:
  assumes "execs (odus_main argv) (u @ (Proc (Exec f a), r) # v) z"
  shows "f = argv ! 1 \<and> a = drop 1 argv \<and>
    (\<exists>usr grp u'. u = (Lib (Getpwnam USER), usr) # (Lib (Getgrnam GROUP), grp) # u' \<and> ret usr \<noteq> 0 \<and> ret grp \<noteq> 0 \<and>
      all_done ([Proc (Setenv ''USER'' (pw_name (account usr))), Proc (Setenv ''LOGNAME'' (pw_name (account usr))),
        Proc (Setenv ''HOME'' (pw_dir (account usr))), Proc (Setenv ''SHELL'' (pw_shell (account usr))),
        Proc (Chdir (pw_dir (account usr))), Proc (Unshare odus_NAMESPACES)] @
        owner_calls (gr_gid grp) (pw_uid (account usr))) u')"
  using runs_after_wpD [OF odus_main_wp assms] by (simp add: odus_ready_def)

text \<open>
  C37: the login shell is the one of the account that was asked for, and it runs only after the
  group and then the user identity of that account were taken over successfully, with both text
  files closed.
\<close>

theorem autologin_drops_privileges:
  assumes "execs (autologin_main argv) (u @ (Proc (Exec f a), r) # v) z"
  shows "\<exists>d. (Lib (Getpwnam (argv ! 1)), d) \<in> set u \<and> ret d \<noteq> 0 \<and> f = pw_shell (account d) \<and> a = [f, ''-l''] \<and>
    all_done (owner_calls (pw_gid (account d)) (pw_uid (account d))) (filter (\<lambda>e. changes_owner (fst e)) u) \<and>
    open_fds u = {}"
  using runs_after_wpD [OF autologin_main_wp assms] by (simp add: login_ready_def)

theorem cttyhack_attaches_console:
  assumes "execs (cttyhack_main argv) (u @ (Proc (Exec f a), r) # v) z"
  shows "f = argv ! 1 \<and> a = drop 1 argv \<and> (\<exists>c u' r. u = u' @ [(File (Close c), r)] \<and>
    all_done [Proc Setsid, File (Open CONSOLE_DEVICE O_RDWR 0), File (Ioctl c TIOCSCTTY),
      File (Dup2 c STDIN_FILENO), File (Dup2 c STDOUT_FILENO), File (Dup2 c STDERR_FILENO)] u')"
  using runs_after_wpD [OF cttyhack_main_wp assms] by (simp add: console_ready_def)

section \<open>Witnesses\<close>

text \<open>A trace that ends with a program being run.\<close>

lemma ends_with_exec:
  "t \<noteq> [] \<Longrightarrow> fst (last t) = Proc (Exec f a) \<Longrightarrow> t = butlast t @ (Proc (Exec f a), snd (last t)) # []"
  by (metis append_butlast_last_id prod.collapse)

definition user :: passwd where
  "user = \<lparr>pw_name = ''someone'', pw_dir = ''/home'', pw_shell = ''/bin/sh'', pw_uid = 100, pw_gid = 101\<rparr>"

definition odus_example :: "event list" where
  "odus_example = fst (run (odus_main [''odus'', ''ls'']) ([(returns 1)\<lparr>account := user\<rparr>, (returns 1)\<lparr>gr_gid := 101\<rparr>] @
     replicate 11 (returns 0)))"

lemma odus_example_execs: "execs (odus_main [''odus'', ''ls'']) odus_example (Halted Replaced)"
  unfolding odus_example_def by (rule run_trace) (code_simp, simp)

theorem odus_drops_privileges_witness:
  "list_all (\<lambda>e. ret (snd e) \<noteq> -1) (drop 2 (butlast odus_example))"
proof -
  have "odus_example \<noteq> []" "fst (last odus_example) = Proc (Exec ''ls'' [''ls''])" by code_simp+
  note t = ends_with_exec [OF this]
  have "execs (odus_main [''odus'', ''ls'']) (butlast odus_example @ (Proc (Exec ''ls'' [''ls'']), snd (last odus_example)) # [])
      (Halted Replaced)" using odus_example_execs t by simp
  from odus_drops_privileges [OF this] obtain usr grp u' where
    "butlast odus_example = (Lib (Getpwnam USER), usr) # (Lib (Getgrnam GROUP), grp) # u'"
    and "list_all (\<lambda>e. ret (snd e) \<noteq> -1) u'" unfolding all_done_def by blast
  then show ?thesis by simp
qed

definition login_example :: "event list" where
  "login_example = fst (run (autologin_main [''autologin'', ''someone'']) ([returns 0, (returns 1)\<lparr>account := user\<rparr>,
     returns 0, returns 0, returns 3, returns 4] @ replicate 14 (returns 0)))"

lemma login_example_execs:
  "execs (autologin_main [''autologin'', ''someone'']) login_example (Halted Replaced)"
  unfolding login_example_def by (rule run_trace) (code_simp, simp)

theorem autologin_drops_privileges_witness:
  "\<exists>d. (Lib (Getpwnam ''someone''), d) \<in> set (butlast login_example) \<and> ''/bin/sh'' = pw_shell (account d) \<and>
     all_done (owner_calls (pw_gid (account d)) (pw_uid (account d)))
       (filter (\<lambda>e. changes_owner (fst e)) (butlast login_example))"
proof -
  have "login_example \<noteq> []" "fst (last login_example) = Proc (Exec ''/bin/sh'' [''/bin/sh'', ''-l''])" by code_simp+
  note t = ends_with_exec [OF this]
  have "execs (autologin_main [''autologin'', ''someone'']) (butlast login_example @
      (Proc (Exec ''/bin/sh'' [''/bin/sh'', ''-l'']), snd (last login_example)) # []) (Halted Replaced)"
    using login_example_execs t by simp
  from autologin_drops_privileges [OF this] show ?thesis by auto
qed

definition cttyhack_example :: "event list" where
  "cttyhack_example = fst (run (cttyhack_main [''cttyhack'', ''sh'']) ([returns 0, returns 3] @ replicate 6 (returns 0)))"

theorem cttyhack_attaches_console_witness:
  "\<exists>c u' r. butlast cttyhack_example = u' @ [(File (Close c), r)]"
proof -
  have ex: "execs (cttyhack_main [''cttyhack'', ''sh'']) cttyhack_example (Halted Replaced)"
    unfolding cttyhack_example_def by (rule run_trace) (code_simp, simp)
  have "cttyhack_example \<noteq> []" "fst (last cttyhack_example) = Proc (Exec ''sh'' [''sh''])" by code_simp+
  note t = ends_with_exec [OF this]
  have "execs (cttyhack_main [''cttyhack'', ''sh'']) (butlast cttyhack_example @
      (Proc (Exec ''sh'' [''sh'']), snd (last cttyhack_example)) # []) (Halted Replaced)" using ex t by simp
  from cttyhack_attaches_console [OF this] show ?thesis by blast
qed

end
