(* ===== verification/Contain.thy ===== *)
theory Contain
  imports Daemon Monitor Getopt
begin

text \<open>
  \<^verbatim>\<open>contain.c\<close>, a sandbox with an init process of its own, and \<^verbatim>\<open>losetup.c\<close>, which associates
  a loopback device with a file.
\<close>

section \<open>The sandbox\<close>

definition USAGE_contain :: string where "USAGE_contain = ''Usage: contain ROOT COMMAND...'' @ [CHR 0x0A, NUL]"

definition contain_NAMESPACES :: u32 where
  "contain_NAMESPACES = (CLONE_NEWIPC OR CLONE_NEWNS OR CLONE_NEWPID OR CLONE_NEWUTS OR CLONE_UNTRACED)"

abbreviation (input) SIGCHLD_number :: u32 where "SIGCHLD_number \<equiv> 17"

definition EXIT_POWEROFF :: int where "EXIT_POWEROFF = 2"
definition EXIT_REBOOT :: int where "EXIT_REBOOT = 3"
definition EXIT_KILLED :: int where "EXIT_KILLED = 4"

text \<open>
  One round of the loop that waits for signals. It is left with the exit code, or with \<open>None\<close>
  for \<^verbatim>\<open>goto end\<close>.
\<close>

definition contain_round :: "int \<Rightarrow> unit \<Rightarrow> (unit + int option) prog" where
  "contain_round script_pid s =
     Sys (Signal (Sigwaitinfo [SIGCHLD, SIGUSR1, SIGUSR2])) (\<lambda>w. if ret w = -1 then Ret (Inr None) else
       (case signo w of
          SIGCHLD \<Rightarrow>
            Sys (Proc (Waitpid (si_pid w) True)) (\<lambda>r.
              if si_pid w \<noteq> ret r \<and> ECHILD = errno r then Ret (Inl ())
              else if script_pid = si_pid w then Ret (Inr (Some EXIT_REBOOT))
              else Ret (Inl ()))
        | SIGUSR1 \<Rightarrow> Ret (Inr (Some EXIT_POWEROFF))
        | SIGUSR2 \<Rightarrow> Ret (Inr (Some EXIT_REBOOT))
        | SIGTERM \<Rightarrow> Ret (Inr (Some EXIT_KILLED))
        | _ \<Rightarrow> Ret (Inl ())))"

definition contain_terminate :: "int \<Rightarrow> int prog" where
  "contain_terminate exit_code =
     Sys (Signal (Kill (-1) SIGTERM)) (\<lambda>r.
       if ret r = 0 then
         Sys (Signal (Sleep 2)) (\<lambda>_. Sys (Signal (Kill (-1) SIGKILL)) (\<lambda>_. Ret exit_code))
       else Ret exit_code)"

definition contain_script :: "string list \<Rightarrow> 'a prog" where
  "contain_script argv =
     Sys (Signal Sigemptyset) (\<lambda>r. if ret r = -1 then Halt (Exited EXIT_FAILURE) else
     Sys (Signal (Sigprocmask [])) (\<lambda>r. if ret r = -1 then Halt (Exited EXIT_FAILURE) else
     exec_or (argv ! 2) (drop 2 argv) (Halt (Exited EXIT_FAILURE))))"

text \<open>The label \<^verbatim>\<open>run_script\<close>.\<close>

definition contain_run :: "nat \<Rightarrow> string list \<Rightarrow> int prog" where
  "contain_run n argv =
     Sys (Proc Fork) (\<lambda>p.
       if ret p = -1 then Ret EXIT_FAILURE
       else if ret p = 0 then contain_script argv
       else
         Sys (Proc Prctl_subreaper) (\<lambda>r. if ret r \<noteq> 0 then Ret EXIT_FAILURE else
         bind (loop n (contain_round (ret p)) ()) (\<lambda>result. case result of
             None \<Rightarrow> Ret EXIT_FAILURE
           | Some exit_code \<Rightarrow> contain_terminate exit_code)))"

definition contain_mount :: "nat \<Rightarrow> string list \<Rightarrow> int prog" where
  "contain_mount n argv =
     Sys (Kern (Mount ''proc'' ''/proc'' (Some ''proc'') 0 None)) (\<lambda>r.
       if ret r = -1 then Ret EXIT_FAILURE else contain_run n argv)"

definition contain_init :: "nat \<Rightarrow> string list \<Rightarrow> int prog" where
  "contain_init n argv =
     c_assert (2 < length argv)
       (Sys (Signal Sigemptyset) (\<lambda>r. if ret r = -1 then Ret EXIT_FAILURE else
        Sys (Signal (Sigaddset SIGCHLD)) (\<lambda>r. if ret r = -1 then Ret EXIT_FAILURE else
        Sys (Signal (Sigaddset SIGUSR1)) (\<lambda>r. if ret r = -1 then Ret EXIT_FAILURE else
        Sys (Signal (Sigaddset SIGUSR2)) (\<lambda>r. if ret r = -1 then Ret EXIT_FAILURE else
        Sys (Signal (Sigprocmask [SIGCHLD, SIGUSR1, SIGUSR2])) (\<lambda>r. if ret r = -1 then Ret EXIT_FAILURE else
        Sys (Kern (Umount ''/proc'')) (\<lambda>u.
          if ret u = -1 then
            (if errno u = EINVAL then contain_mount n argv
             else if errno u = ENOENT then contain_run n argv
             else Ret EXIT_FAILURE)
          else contain_mount n argv)))))))"

text \<open>
  \<^verbatim>\<open>clone(2)\<close> starts \<^verbatim>\<open>_init\<close> in the child, which sees 0 here and exits with its result; the
  parent gets the process ID. \<^verbatim>\<open>WEXITSTATUS\<close> is the second byte of the status.
\<close>

definition contain_main :: "nat \<Rightarrow> string list \<Rightarrow> int prog" where
  "contain_main n argv =
     (if 3 > length argv then Sys (Lib (Print USAGE_contain)) (\<lambda>_. Ret EXIT_FAILURE) else
     Sys (Proc (Chroot (argv ! 1))) (\<lambda>r. if ret r = -1 then Ret EXIT_FAILURE else
     Sys (Proc (Clone (SIGCHLD_number OR contain_NAMESPACES))) (\<lambda>p.
       if ret p = 0 then bind (contain_init n argv) (\<lambda>exit_code. Halt (Exited exit_code))
       else if ret p = -1 then Ret EXIT_FAILURE
       else
         Sys (Proc (Waitpid (ret p) False)) (\<lambda>s.
           if ret p \<noteq> ret s then Ret EXIT_FAILURE
           else Ret ((wait_status s div 256) mod 256)))))"

section \<open>Loopback devices\<close>

definition USAGE_losetup :: string where
  "USAGE_losetup = ''Usage: losetup [-d] DEVICE [FILE]'' @ [CHR 0x0A, NUL]"

text \<open>\<^verbatim>\<open>sizeof(info.lo_name)\<close>: \<^verbatim>\<open>strcpy\<close> does not look at it.\<close>

definition LO_NAME_SIZE :: nat where "LO_NAME_SIZE = 64"

definition loop_status :: "fd \<Rightarrow> fd \<Rightarrow> string \<Rightarrow> bool prog" where
  "loop_status device f file_path =
     Sys (File (Ioctl device LOOP_GET_STATUS)) (\<lambda>r.
       if -1 \<noteq> ret r then Ret False
       else if ENXIO \<noteq> errno r then Ret False
       else if LO_NAME_SIZE \<le> length file_path then Halt Undefined
       else
         Sys (File (Ioctl device (LOOP_SET_FD f))) (\<lambda>r. if ret r \<noteq> 0 then Ret False else
         Sys (File (Ioctl device (LOOP_SET_STATUS file_path))) (\<lambda>r.
           if ret r \<noteq> 0 then Sys (File (Ioctl device LOOP_CLR_FD)) (\<lambda>_. Ret False)
           else Ret True)))"

definition associate :: "string \<Rightarrow> string \<Rightarrow> u32 \<Rightarrow> int prog" where
  "associate device_path file_path flags =
     Sys (File (Open file_path flags 0)) (\<lambda>f. if ret f = -1 then Ret EXIT_FAILURE else
     Sys (File (Open device_path flags 0)) (\<lambda>d.
       if ret d = -1 then Sys (File (Close (ret f))) (\<lambda>_. Ret EXIT_FAILURE) else
     bind (loop_status (ret d) (ret f) file_path) (\<lambda>ok.
     Sys (File (Close (ret d))) (\<lambda>_.
     Sys (File (Close (ret f))) (\<lambda>_. Ret (if ok then EXIT_SUCCESS else EXIT_FAILURE))))))"

definition unassociate :: "string \<Rightarrow> int prog" where
  "unassociate device_path =
     Sys (File (Open device_path O_RDONLY 0)) (\<lambda>d. if ret d = -1 then Ret EXIT_FAILURE else
     Sys (File (Ioctl (ret d) LOOP_CLR_FD)) (\<lambda>r.
     Sys (File (Close (ret d))) (\<lambda>_. Ret (if ret r \<noteq> 0 then EXIT_FAILURE else EXIT_SUCCESS))))"

text \<open>The mode, the flags and the required number of arguments; \<open>None\<close> is an unknown option.\<close>

primrec losetup_options :: "option_list \<Rightarrow> char \<times> u32 \<times> nat \<Rightarrow> (char \<times> u32 \<times> nat) option" where
  "losetup_options [] s = Some s"
| "losetup_options (x # xs) s =
     (case s of (mode, flags, required_argc) \<Rightarrow>
        if fst x = CHR ''d'' then losetup_options xs (fst x, flags, 1)
        else if fst x = CHR ''r'' then losetup_options xs (mode, O_RDONLY, required_argc)
        else None)"

definition losetup_main :: "string list \<Rightarrow> int prog" where
  "losetup_main args =
     (let (options, operands) = getopt_args ''dr'' [] args in
      case losetup_options options (CHR ''a'', O_RDWR, 2) of
        None \<Rightarrow> Sys (Lib (Print USAGE_losetup)) (\<lambda>_. Ret EXIT_FAILURE)
      | Some (mode, flags, required_argc) \<Rightarrow>
          if length operands \<noteq> required_argc then Sys (Lib (Print USAGE_losetup)) (\<lambda>_. Ret EXIT_FAILURE)
          else if mode = CHR ''d'' then unassociate (operands ! 0)
          else associate (operands ! 0) (operands ! 1) flags)"

section \<open>Signals and exit codes\<close>

definition delivered :: "event list \<Rightarrow> reply list" where
  "delivered t = concat (map (\<lambda>e. case e of (Signal (Sigwaitinfo m), r) \<Rightarrow> [r] | _ \<Rightarrow> []) t)"

lemma delivered_append [simp]: "delivered (t @ u) = delivered t @ delivered u"
  by (simp add: delivered_def)

lemma delivered_simps [simp]:
  "delivered [] = []" "delivered ((Signal (Sigwaitinfo m), r) # t) = r # delivered t"
  "delivered ((Proc p, r) # t) = delivered t" "delivered ((Kern k, r) # t) = delivered t"
  "delivered ((Signal (Kill i g), r) # t) = delivered t" "delivered ((Signal (Sleep s), r) # t) = delivered t"
  "delivered ((Signal Sigemptyset, r) # t) = delivered t" "delivered ((Signal (Sigaddset g), r) # t) = delivered t"
  "delivered ((Signal (Sigprocmask gs), r) # t) = delivered t"
  by (simp_all add: delivered_def)

text \<open>\<^verbatim>\<open>sigwaitinfo(2)\<close> only delivers signals of the set it is given.\<close>

definition waits_ok :: "event list \<Rightarrow> bool" where
  "waits_ok t \<longleftrightarrow> list_all (\<lambda>e. case e of
     (Signal (Sigwaitinfo gs), r) \<Rightarrow> ret r = -1 \<or> signo r \<in> set gs | _ \<Rightarrow> True) t"

text \<open>The exit code that belongs to the last signal, if the script has the given process ID.\<close>

definition code_of :: "int \<Rightarrow> reply \<Rightarrow> int" where
  "code_of script_pid w = (if signo w = SIGUSR1 then EXIT_POWEROFF
     else if signo w = SIGUSR2 \<or> signo w = SIGCHLD \<and> si_pid w = script_pid then EXIT_REBOOT
     else EXIT_KILLED)"

definition exit_ok :: "int \<Rightarrow> event list \<Rightarrow> int \<Rightarrow> bool" where
  "exit_ok pid t c \<longleftrightarrow> (waits_ok t \<longrightarrow> delivered t \<noteq> [] \<and> c = code_of pid (last (delivered t)) \<and> c \<noteq> EXIT_KILLED)"

lemma contain_round_wp:
  "wp (contain_round pid u) (\<lambda>t' z. case z of
      Returned (Inl _) \<Rightarrow> True | Returned (Inr None) \<Rightarrow> True | Returned (Inr (Some c)) \<Rightarrow> exit_ok pid t' c
    | Halted h \<Rightarrow> False) t"
  unfolding contain_round_def
  by (simp split: signal.split)
    (auto simp: exit_ok_def waits_ok_def code_of_def EXIT_POWEROFF_def EXIT_REBOOT_def EXIT_KILLED_def)

lemma contain_loop_wp:
  "wp (loop n (contain_round pid) ()) (\<lambda>t' z. \<forall>c. z = Returned (Some c) \<longrightarrow> exit_ok pid t' c) t"
  by (rule wp_loop [where I = "\<lambda>t u. True"])
    (auto intro!: wp_mono [OF contain_round_wp] split: outcome.splits sum.splits option.splits)


definition ended :: "event list \<Rightarrow> int outcome \<Rightarrow> bool" where
  "ended t z \<longleftrightarrow> (\<forall>c. z = Returned c \<longrightarrow>
     c = EXIT_FAILURE \<or> (\<exists>p. (Proc Fork, p) \<in> set t \<and> exit_ok (ret p) t c))"

lemma terminate_wp: "exit_ok pid t c \<Longrightarrow> wp (contain_terminate c) (\<lambda>t' z. z = Returned c \<and> exit_ok pid t' c \<and> set t \<subseteq> set t') t"
  unfolding contain_terminate_def by (simp add: exit_ok_def waits_ok_def) blast

lemma contain_run_wp: "wp (contain_run n argv) ended t"
proof -
  have grows: "wp p (\<lambda>t' z. set t \<subseteq> set t') t" for p :: "int option prog" and t
    by (rule wpI) auto
  have served: "wp (loop n (contain_round (ret p)) ()) (\<lambda>t' z. (Proc Fork, p) \<in> set t' \<and>
      (\<forall>c. z = Returned (Some c) \<longrightarrow> exit_ok (ret p) t' c)) t" if "(Proc Fork, p) \<in> set t" for p t
    using contain_loop_wp grows that by (auto simp: wp_iff)
  have "wp (bind (loop n (contain_round (ret p)) ()) (\<lambda>result. case result of
      None \<Rightarrow> Ret EXIT_FAILURE | Some c \<Rightarrow> contain_terminate c)) ended t" if "(Proc Fork, p) \<in> set t" for p t
  proof (rule wp_bindI [OF served [OF that]])
    show "wp (case a of None \<Rightarrow> Ret EXIT_FAILURE | Some c \<Rightarrow> contain_terminate c) ended t"
      if "(Proc Fork, p) \<in> set t \<and> (\<forall>c. Returned a = Returned (Some c) \<longrightarrow> exit_ok (ret p) t c)" for t a
    proof (cases a)
      case (Some c)
      with that have "exit_ok (ret p) t c" by simp
      from wp_mono [OF terminate_wp [OF this], of ended] that Some show ?thesis
        by (auto simp: ended_def)
    qed (simp add: ended_def)
  qed (simp add: ended_def)
  then show ?thesis
    unfolding contain_run_def contain_script_def
    by (intro wp_ifI wp_SysI wp_RetI wp_HaltI wp_exec_orI) (simp_all add: ended_def)
qed

lemma contain_init_wp: "wp (contain_init n argv) ended t"
  unfolding contain_init_def contain_mount_def
  by (intro wp_assertI wp_ifI wp_SysI wp_RetI contain_run_wp) (simp_all add: ended_def)

section \<open>What runs inside\<close>

text \<open>
  Every call on the way to the command: the root is changed, the clone gets new namespaces,
  \<^verbatim>\<open>/proc\<close> is unmounted and, unless there is none, mounted again, and the fork resets the
  signal mask.
\<close>

definition box_calls :: "string list \<Rightarrow> bool \<Rightarrow> syscall list" where
  "box_calls argv mounts =
     [Proc (Chroot (argv ! 1)), Proc (Clone (SIGCHLD_number OR contain_NAMESPACES)), Signal Sigemptyset,
      Signal (Sigaddset SIGCHLD), Signal (Sigaddset SIGUSR1), Signal (Sigaddset SIGUSR2),
      Signal (Sigprocmask [SIGCHLD, SIGUSR1, SIGUSR2]), Kern (Umount ''/proc'')]
     @ (if mounts then [Kern (Mount ''proc'' ''/proc'' (Some ''proc'') 0 None)] else [])"

definition sandbox_calls :: "string list \<Rightarrow> bool \<Rightarrow> syscall list" where
  "sandbox_calls argv mounts =
     box_calls argv mounts @ [Proc Fork, Signal Sigemptyset, Signal (Sigprocmask [])]"

text \<open>
  The replies on that way: the clone and the fork return as the child, \<^verbatim>\<open>umount\<close> may fail when
  nothing is mounted, and the other calls succeed.
\<close>

definition box_ok :: "event \<Rightarrow> bool" where
  "box_ok e \<longleftrightarrow> (case e of
     (Proc (Clone fl), r) \<Rightarrow> ret r = 0 | (Proc Fork, r) \<Rightarrow> ret r = 0
   | (Kern (Umount p), r) \<Rightarrow> ret r \<noteq> -1 \<or> errno r = EINVAL \<or> errno r = ENOENT
   | (c, r) \<Rightarrow> ret r \<noteq> -1)"

definition no_proc :: "event list \<Rightarrow> bool" where
  "no_proc t \<longleftrightarrow> (\<exists>m. (Kern (Umount ''/proc''), m) \<in> set t \<and> ret m = -1 \<and> errno m = ENOENT)"

definition boxed :: "string list \<Rightarrow> event list \<Rightarrow> bool" where
  "boxed argv t \<longleftrightarrow> (\<exists>mounts. map fst t = box_calls argv mounts \<and> list_all box_ok t \<and> (mounts \<or> no_proc t))"

definition runs_command :: "string list \<Rightarrow> event list \<Rightarrow> string \<Rightarrow> string list \<Rightarrow> bool" where
  "runs_command argv u f a \<longleftrightarrow> f = argv ! 2 \<and> a = drop 2 argv \<and>
     (\<exists>mounts. map fst u = sandbox_calls argv mounts \<and> list_all box_ok u \<and> (mounts \<or> no_proc u))"

abbreviation (input) no_exec :: "event list \<Rightarrow> bool" where
  "no_exec t \<equiv> list_all (\<lambda>e. \<not> executes (fst e)) t"

lemma not_executes [simp]:
  "\<not> executes (Signal g)" "\<not> executes (Kern k)" "\<not> executes (Lib l)" "\<not> executes (Proc Fork)"
  "\<not> executes (Proc (Chroot p))" "\<not> executes (Proc (Clone fl))" "\<not> executes (Proc (Waitpid i b))"
  "\<not> executes (Proc Prctl_subreaper)"
  by (simp_all add: executes_def)

lemma boxed_no_exec:
  assumes "boxed argv t"
  shows "no_exec t"
proof -
  from assms obtain mounts where calls: "map fst t = box_calls argv mounts" by (auto simp: boxed_def)
  have "list_all (\<lambda>c. \<not> executes c) (map fst t)" unfolding calls by (simp add: box_calls_def)
  then show ?thesis by (simp add: list_all_iff)
qed

lemma no_exec_serve:
  "issues_only (\<lambda>c. \<not> executes c) (bind (loop n (contain_round pid) ()) (\<lambda>result. case result of
     None \<Rightarrow> Ret EXIT_FAILURE | Some c \<Rightarrow> contain_terminate c))"
proof -
  have "issues_only (\<lambda>c. \<not> executes c) (contain_round pid s)" for s
    unfolding contain_round_def by (auto split: signal.split)
  then show ?thesis
    unfolding contain_terminate_def by (intro issues_intros) simp_all
qed

lemma runs_in_contain_run:
  assumes "boxed argv t"
  shows "wp (contain_run n argv) (\<lambda>t z. runs_after (runs_command argv) t) t"
proof -
  let ?Q = "\<lambda>t z. runs_after (runs_command argv) t"
  have no: "no_exec t" using boxed_no_exec [OF assms] .
  have serve: "wp (bind (loop n (contain_round pid) ()) (\<lambda>result. case result of
     None \<Rightarrow> Ret EXIT_FAILURE | Some c \<Rightarrow> contain_terminate c)) ?Q t" if "no_exec t" for t pid
    using issues_only_wp [OF no_exec_serve that] by (rule wp_mono) (rule runs_after_none)
  have exec: "runs_after (runs_command argv) ((t @ [(Proc Fork, p), (Signal Sigemptyset, r1),
      (Signal (Sigprocmask []), r2)]) @ [(Proc (Exec (argv ! 2) (drop 2 argv)), r)])"
    if "ret p = 0" "ret r1 \<noteq> -1" "ret r2 \<noteq> -1" for p r1 r2 r
    using assms no that
    by (intro runs_after_last) (auto simp: runs_command_def boxed_def sandbox_calls_def box_ok_def no_proc_def)
  have "wp (contain_script argv :: int prog) ?Q (t @ [(Proc Fork, p)])" if "ret p = 0" for p
    unfolding contain_script_def
    by (intro wp_ifI wp_SysI wp_HaltI wp_exec_orI) (use that no exec in \<open>simp_all add: runs_after_none\<close>)
  then show ?thesis
    unfolding contain_run_def
    by (intro wp_ifI wp_SysI wp_RetI) (use no serve in \<open>simp_all add: runs_after_none\<close>)
qed

lemma runs_in_contain_init:
  assumes "ret c \<noteq> -1" and "ret k = 0"
  shows "wp (contain_init n argv) (\<lambda>t z. runs_after (runs_command argv) t)
    [(Proc (Chroot (argv ! 1)), c), (Proc (Clone (SIGCHLD_number OR contain_NAMESPACES)), k)]"
proof -
  have mounted: "boxed argv t" if "map fst t = box_calls argv True" "list_all box_ok t" for t
    using that by (auto simp: boxed_def)
  have bare: "boxed argv t" if "map fst t = box_calls argv False" "list_all box_ok t" "no_proc t" for t
    using that by (auto simp: boxed_def)
  show ?thesis
    unfolding contain_init_def contain_mount_def
    by (intro wp_assertI wp_ifI wp_SysI wp_RetI runs_in_contain_run;
      (rule runs_after_none; simp; fail | rule mounted; simp add: assms box_calls_def box_ok_def; fail
        | rule bare; simp add: assms box_calls_def box_ok_def no_proc_def))
qed

lemma runs_in_contain_main: "wp (contain_main n argv) (\<lambda>t z. runs_after (runs_command argv) t) []"
proof -
  let ?t = "\<lambda>c k. [(Proc (Chroot (argv ! 1)), c), (Proc (Clone (SIGCHLD_number OR contain_NAMESPACES)), k)]"
  have "wp (bind (contain_init n argv) (\<lambda>x. Halt (Exited x))) (\<lambda>t z :: int outcome. runs_after (runs_command argv) t) (?t c k)"
    if "ret c \<noteq> -1" "ret k = 0" for c k
    by (rule wp_bindI [OF runs_in_contain_init [OF that]]) simp_all
  then show ?thesis
    unfolding contain_main_def
    by (intro wp_ifI wp_SysI wp_RetI) (simp_all add: runs_after_none)
qed

section \<open>Properties\<close>

text \<open>
  C38: before the command of a sandbox runs, exactly these calls were made: chroot to the given
  root, the clone into new namespaces whose child this is, the blocking of the three signals,
  umount of /proc and, unless there is no /proc, a mount of a new one, and the fork whose child
  resets the signal mask; all succeeded, save that umount may find nothing to unmount. No chdir
  is among them, so the working directory is still the one contain was started in, which may
  lie outside the new root.
\<close>

theorem contain_confines:
  assumes "execs (contain_main n argv) (u @ (Proc (Exec f a), r) # v) z"
  shows "f = argv ! 2 \<and> a = drop 2 argv \<and> (\<exists>mounts. map fst u = sandbox_calls argv mounts \<and>
     list_all box_ok u \<and> (mounts \<or> no_proc u)) \<and> (\<forall>d. Proc (Chdir d) \<notin> fst ` set u)"
proof -
  from runs_after_wpD [OF runs_in_contain_main assms] obtain mounts where
    calls: "map fst u = sandbox_calls argv mounts" and "f = argv ! 2" "a = drop 2 argv" "list_all box_ok u"
      "mounts \<or> no_proc u" by (auto simp: runs_command_def)
  moreover have "Proc (Chdir d) \<notin> fst ` set u" for d
    unfolding set_map [symmetric] calls by (simp add: sandbox_calls_def box_calls_def)
  ultimately show ?thesis by blast
qed

text \<open>
  C39: when sigwaitinfo delivers only signals of the set it is given and the parent gets the
  exit code of the init process as its status, contain ends with that code: failure, or 2 when
  SIGUSR1 and 3 when SIGUSR2 or the end of the command came last; the code 4 for SIGTERM is
  never reported, because the signal is not in the set that is waited for.
\<close>

theorem contain_exit_code:
  assumes "execs (contain_init n argv) ti (Returned c)" and "waits_ok ti"
    and "execs (contain_main n argv) t (Returned x)" and "(Proc (Waitpid pid False), s) \<in> set t"
    and "ret s = pid" and "wait_status s = 256 * c"
  shows "x = c \<and> (c = EXIT_FAILURE \<or> c \<noteq> EXIT_KILLED \<and> delivered ti \<noteq> [] \<and>
    (\<exists>p. (Proc Fork, p) \<in> set ti \<and> c = code_of (ret p) (last (delivered ti))))"
proof -
  from execs_wp [OF assms(1) contain_init_wp] have "ended ti (Returned c)" .
  then have c: "c = EXIT_FAILURE \<or> (\<exists>p. (Proc Fork, p) \<in> set ti \<and> exit_ok (ret p) ti c)"
    by (simp add: ended_def)
  then have "0 \<le> c" "c < 256"
    using assms(2) by (auto simp: exit_ok_def code_of_def EXIT_POWEROFF_def EXIT_REBOOT_def EXIT_KILLED_def split: if_splits)
  moreover have "x = (wait_status s div 256) mod 256"
    using assms(3-5) by (auto simp: contain_main_def execs_Sys elim!: execs_bindE split: if_splits)
  ultimately have "x = c" using assms(6) by simp
  with c assms(2) show ?thesis by (auto simp: exit_ok_def)
qed

text \<open>
  A loopback device is only bound when it was free, a failed binding is undone, and both
  descriptors are closed.
\<close>

text \<open>
  C40: associating a loopback device closes both descriptors however it returns, and reports
  success only after the device was found free, bound to the file and given its status, in that
  order.
\<close>

theorem losetup_associate:
  assumes "execs (associate device_path file_path flags) t (Returned x)"
  shows "open_fds t = {} \<and>
    (x = EXIT_SUCCESS \<longrightarrow> (\<exists>f d s1 s2 s3 c1 c2.
       t = [(File (Open file_path flags 0), f), (File (Open device_path flags 0), d),
         (File (Ioctl (ret d) LOOP_GET_STATUS), s1), (File (Ioctl (ret d) (LOOP_SET_FD (ret f))), s2),
         (File (Ioctl (ret d) (LOOP_SET_STATUS file_path)), s3), (File (Close (ret d)), c1), (File (Close (ret f)), c2)] \<and>
       ret s1 = -1 \<and> errno s1 = ENXIO \<and> ret s2 = 0 \<and> ret s3 = 0))"
proof -
  have "wp (associate device_path file_path flags) (\<lambda>t z. \<forall>x. z = Returned x \<longrightarrow> open_fds t = {} \<and>
    (x = EXIT_SUCCESS \<longrightarrow> (\<exists>f d s1 s2 s3 c1 c2.
       t = [(File (Open file_path flags 0), f), (File (Open device_path flags 0), d),
         (File (Ioctl (ret d) LOOP_GET_STATUS), s1), (File (Ioctl (ret d) (LOOP_SET_FD (ret f))), s2),
         (File (Ioctl (ret d) (LOOP_SET_STATUS file_path)), s3), (File (Close (ret d)), c1), (File (Close (ret f)), c2)] \<and>
       ret s1 = -1 \<and> errno s1 = ENXIO \<and> ret s2 = 0 \<and> ret s3 = 0))) []"
    unfolding associate_def loop_status_def
    using open_fds_append [of "[]"] by (intro wp_intros) (auto simp: wp_bind)
  from execs_wp [OF assms this] show ?thesis by simp
qed

section \<open>Witnesses\<close>

definition sandbox_child :: "event list" where
  "sandbox_child = fst (run (contain_main 1 [''contain'', ''/box'', ''sh'']) (replicate 13 (returns 0)))"

theorem contain_confines_witness:
  "\<exists>mounts. map fst (butlast sandbox_child) = sandbox_calls [''contain'', ''/box'', ''sh''] mounts"
proof -
  have ex: "execs (contain_main 1 [''contain'', ''/box'', ''sh'']) sandbox_child (Halted Replaced)"
    unfolding sandbox_child_def by (rule run_trace) (code_simp, simp)
  have "sandbox_child \<noteq> []" "fst (last sandbox_child) = Proc (Exec ''sh'' [''sh''])" by code_simp+
  then have "sandbox_child = butlast sandbox_child @ (Proc (Exec ''sh'' [''sh'']), snd (last sandbox_child)) # []"
    by (metis append_butlast_last_id prod.collapse)
  with ex have "execs (contain_main 1 [''contain'', ''/box'', ''sh'']) (butlast sandbox_child @
      (Proc (Exec ''sh'' [''sh'']), snd (last sandbox_child)) # []) (Halted Replaced)" by simp
  from contain_confines [OF this] show ?thesis by blast
qed

definition sandbox_init :: "event list" where
  "sandbox_init = fst (run (contain_init 1 [''contain'', ''/box'', ''sh'']) (replicate 7 (returns 0) @
     [returns 9, returns 0, (returns 10)\<lparr>signo := SIGUSR1\<rparr>, fails ENOENT]))"

definition sandbox_parent :: "event list" where
  "sandbox_parent = fst (run (contain_main 1 [''contain'', ''/box'', ''sh''])
     [returns 0, returns 8, (returns 8)\<lparr>wait_status := 512\<rparr>])"

theorem contain_exit_code_witness:
  "EXIT_POWEROFF \<noteq> EXIT_KILLED \<and> (\<exists>p. (Proc Fork, p) \<in> set sandbox_init)"
proof -
  let ?argv = "[''contain'', ''/box'', ''sh'']"
  have init: "execs (contain_init 1 ?argv) sandbox_init (Returned 2)"
    unfolding sandbox_init_def by (rule run_trace) (code_simp, simp)
  have ok: "waits_ok sandbox_init" by code_simp
  have parent: "execs (contain_main 1 ?argv) sandbox_parent (Returned 2)"
    unfolding sandbox_parent_def by (rule run_trace) (code_simp, simp)
  have "sandbox_parent ! 2 = (Proc (Waitpid 8 False), (returns 8)\<lparr>wait_status := 512\<rparr>)"
    "2 < length sandbox_parent" by code_simp+
  then have "(Proc (Waitpid 8 False), (returns 8)\<lparr>wait_status := 512\<rparr>) \<in> set sandbox_parent"
    by (metis nth_mem)
  from contain_exit_code [OF init ok parent this] show ?thesis by (auto simp: EXIT_POWEROFF_def EXIT_KILLED_def)
qed


definition losetup_replies :: "reply list" where
  "losetup_replies = [returns 3, returns 4, fails ENXIO, returns 0, returns 0, returns 0, returns 0]"

theorem losetup_associate_witness:
  "open_fds (fst (run (associate ''/dev/loop0'' ''/a.img'' O_RDWR) losetup_replies)) = {}"
proof -
  have "snd (run (associate ''/dev/loop0'' ''/a.img'' O_RDWR) losetup_replies) = Returned EXIT_SUCCESS" by code_simp
  then have "execs (associate ''/dev/loop0'' ''/a.img'' O_RDWR)
      (fst (run (associate ''/dev/loop0'' ''/a.img'' O_RDWR) losetup_replies)) (Returned EXIT_SUCCESS)"
    by (rule run_trace) simp
  from losetup_associate [OF this] show ?thesis by simp
qed

end
