(* ===== verification/Spec2Isabelle.thy ===== *)
theory Spec2Isabelle
  imports Tftpd_Props Modprobed_Props Syslogd Klogd Devd Mount Init Login Contain
begin

text \<open>
  Verification development of lazy-utils, a set of small system programs for Linux: a TFTP
  server, a daemon that loads kernel modules and its client, the system and kernel log daemons,
  a device daemon, init with the programs that talk to it, a sandbox, mount and loopback tools,
  and a few programs that set a process up and run another one in its place.

  \<^bold>\<open>How the programs are modelled.\<close> Each C function is a definition that returns a \<open>prog\<close>
  (theory \<open>Sys\<close>): a tree whose nodes are the system and library calls it makes and whose
  branches are the possible replies. Sequencing, early returns and \<^verbatim>\<open>goto\<close> are nested
  continuations; \<^verbatim>\<open>assert\<close>, \<^verbatim>\<open>exit\<close>, a successful \<^verbatim>\<open>exec\<close> and undefined behaviour are ways to
  stop (\<open>Halt\<close>); after a \<^verbatim>\<open>fork\<close> the reply 0 continues as the child. \<open>execs p t z\<close> says that \<open>p\<close>
  can perform the calls of the trace \<open>t\<close> and end as \<open>z\<close>; nothing is assumed about the replies
  unless a statement names it (\<open>recv_ok\<close>, \<open>unread\<close>, \<open>dir_ok\<close>, \<open>device_ok\<close>, \<open>klog_ok\<close>,
  \<open>klog_bounded\<close>, \<open>waits_ok\<close> and the like state documented behaviour of one call). \<open>run\<close> evaluates a program on a list of replies.
  Buffers are lists of bytes, 16, 32 and 64-bit fields are words of that width, structures are
  records, results that can fail are options or pairs with a boolean.

  \<^bold>\<open>Loops.\<close> A loop without a bound of its own is \<open>loop n body\<close>; \<open>n\<close> is the number of rounds
  granted, and running out of them is the outcome \<open>Halted Running\<close>, never a result. The theorems
  about service loops hold for every \<open>n\<close>. Where a loop is meant to end it is shown to do so with
  enough rounds: \<open>L div 512 + 1\<close> for a download of \<open>L\<close> bytes, \<open>L div 2048 + 2\<close> for printing a log;
  an upload that runs on has stored a full block in each round. The walk over directories takes
  the depth of the tree and the length of its directories (\<open>walkable\<close> says when they suffice),
  the loading of modules a depth of at least the rank of the module among its dependencies
  plus two; for cyclic dependencies none is enough. Loops over strings and arrays are
  recursive functions with a measure.

  \<^bold>\<open>Theories and sources.\<close>
  \<^item> \<open>Prelude\<close>, \<open>CLib\<close>, \<open>Getopt\<close>: machine types, C strings, \<^verbatim>\<open>strtok_r\<close>, \<^verbatim>\<open>basename\<close>, byte order,
    command line options.
  \<^item> \<open>Sys\<close>, \<open>Monitor\<close>: calls, replies, programs, executions, verification conditions; what a trace
    says of descriptors, memory, data read, written and received, and programs run.
  \<^item> \<open>Daemon\<close> (\<^verbatim>\<open>daemon.c\<close>, \<^verbatim>\<open>daemon.h\<close>): detaching, signals, waiting, forking. The locale
    \<open>daemon_service\<close> is the contract of a service loop (one wait per round, leave on \<^verbatim>\<open>SIGTERM\<close>),
    interpreted for the TFTP, module, log and device daemons.
  \<^item> \<open>Tftp_Transfer\<close>, \<open>Tftp_Upload\<close>, \<open>Tftp_Download\<close>, \<open>Tftpd\<close>, \<open>Tftpd_Props\<close> (\<^verbatim>\<open>tftpd.c\<close>): packets, the
    two transfers against RFC 1350 and against each other, the server and its confinement.
  \<^item> \<open>Find\<close> (\<^verbatim>\<open>find.c\<close>): the walk and its refinement to a list of files. The locales \<open>file_callback\<close>
    and \<open>callback_invariant\<close> are what a callback owes and what it gets; they are interpreted for
    the callbacks of the module cache and of the device daemon.
  \<^item> \<open>Module\<close> (\<^verbatim>\<open>module.c\<close>), \<open>Cache\<close> (\<^verbatim>\<open>cache.c\<close>), \<open>Modprobed\<close>, \<open>Modprobed_Props\<close> (\<^verbatim>\<open>modprobed.c\<close>,
    \<^verbatim>\<open>modprobe.c\<close>): module files, the cache with the ownership of its memory, and loading with
    dependencies: order, termination and the cyclic case.
  \<^item> \<open>Syslogd\<close> (\<^verbatim>\<open>syslogd.c\<close>, \<^verbatim>\<open>syslog.c\<close>), \<open>Klogd\<close> (\<^verbatim>\<open>klogd.c\<close>): what is logged is what was received, and
    printing the log gives it back; kernel records are forwarded.
  \<^item> \<open>Devd\<close> (\<^verbatim>\<open>devd.c\<close>): the parser of kernel announcements against a reference, and the only
    program the daemon runs.
  \<^item> \<open>Mount\<close> (\<^verbatim>\<open>mount.c\<close>, \<^verbatim>\<open>umount.c\<close>), \<open>Contain\<close> (\<^verbatim>\<open>contain.c\<close>, \<^verbatim>\<open>losetup.c\<close>), \<open>Init\<close> (\<^verbatim>\<open>init.c\<close>,
    \<^verbatim>\<open>poweroff.c\<close>, \<^verbatim>\<open>reboot.c\<close>, \<^verbatim>\<open>suspend.c\<close>), \<open>Login\<close> (\<^verbatim>\<open>autologin.c\<close>, \<^verbatim>\<open>odus.c\<close>, \<^verbatim>\<open>cttyhack.c\<close>): options
    and file system types, what happens before a program runs in a sandbox or under another
    identity, and how the system goes down.

  \<^bold>\<open>Interaction.\<close> The daemons share \<open>Daemon\<close> and meet through the kernel: \<^verbatim>\<open>devd\<close> runs \<^verbatim>\<open>modprobe\<close>,
  which sends a name to \<^verbatim>\<open>modprobed\<close>; \<^verbatim>\<open>klogd\<close> and the others log through \<^verbatim>\<open>syslogd\<close>; \<^verbatim>\<open>poweroff\<close> and
  \<^verbatim>\<open>reboot\<close> signal \<^verbatim>\<open>init\<close>. Theorems that span two programs compare their traces: an upload of what
  a download sent, a log printed after it was written, a name sent by \<^verbatim>\<open>modprobe\<close> and
  looked up by \<^verbatim>\<open>modprobed\<close>, a signal sent and obeyed, a sandbox and its init process.

  \<^bold>\<open>Not modelled.\<close> Null pointer assertions, since the models take values; the contents of
  structures that are only passed on (signal sets are lists, socket addresses a datatype);
  the bytes the kernel reads behind the 16-byte address of an IPv6 client; character classes and
  collating symbols in the brackets of \<^verbatim>\<open>fnmatch\<close>; messages \<^verbatim>\<open>getopt\<close> prints itself; the stack of
  the sandbox's init process. Programs run on a little-endian 64-bit host. \<^verbatim>\<open>CONF_DIR\<close> is \<^verbatim>\<open>/etc\<close>,
  its default in the Makefile. Calls that the C standard leaves undefined are \<open>Halt Undefined\<close>,
  whatever a particular library makes of them.
\<close>

end
